(* ===== verification/Prelude.thy ===== *)
theory Prelude
  imports Main "HOL-Library.Word" "HOL-Library.Sublist"
begin

text \<open>
  Shared vocabulary of the development: results of fallible code, the JavaScript string
  operations the sources call, indexing of arrays, the outcome of \<^verbatim>\<open>Promise.all\<close>, and the
  generic lemmas about them that the component theories use.

  A thrown JavaScript value is always an \<^verbatim>\<open>Error\<close> in the sources; it is kept as its name and
  its message.  Code that may throw has a result type whose left injection is the thrown error.
\<close>

named_theorems result_simps "rewriting of results of fallible code"
named_theorems string_simps "rewriting of JavaScript string operations"

type_synonym byte = "8 word"
type_synonym bytes = "byte list"

datatype js_error = JsError (err_name: string) (err_message: string)

type_synonym 'a result = "js_error + 'a"

abbreviation throwError :: "string \<Rightarrow> 'a result" where
  "throwError msg \<equiv> Inl (JsError ''Error'' msg)"

abbreviation throwTypeError :: "string \<Rightarrow> 'a result" where
  "throwTypeError msg \<equiv> Inl (JsError ''TypeError'' msg)"

fun rbind :: "'a result \<Rightarrow> ('a \<Rightarrow> 'b result) \<Rightarrow> 'b result" where
  "rbind (Inl e) f = Inl e"
| "rbind (Inr a) f = f a"

text \<open>The synchronous \<^verbatim>\<open>xs.map(f)\<close> with a callback that may throw: the first throw wins.\<close>

fun rmap :: "('a \<Rightarrow> 'b result) \<Rightarrow> 'a list \<Rightarrow> 'b list result" where
  "rmap f [] = Inr []"
| "rmap f (x # xs) = rbind (f x) (\<lambda>y. rbind (rmap f xs) (\<lambda>ys. Inr (y # ys)))"

text \<open>A loop over an array whose body may throw and updates a state.\<close>

fun rfold :: "('a \<Rightarrow> 's \<Rightarrow> 's result) \<Rightarrow> 'a list \<Rightarrow> 's \<Rightarrow> 's result" where
  "rfold f [] s = Inr s"
| "rfold f (x # xs) s = rbind (f x s) (rfold f xs)"

text \<open>
  A promise is the list of the ways it may settle.  \<^verbatim>\<open>await Promise.all(ps)\<close> fulfils with the values
  in the order of the array if every promise fulfils, and rejects with the reason of whichever
  promise rejects first in time, so with any of the reasons.
\<close>

type_synonym 'a promise = "'a result list"

definition fulfilments :: "'a promise \<Rightarrow> 'a list" where
  "fulfilments p = List.map_filter (\<lambda>r. case r of Inr v \<Rightarrow> Some v | Inl e \<Rightarrow> None) p"

definition rejections :: "'a promise \<Rightarrow> js_error list" where
  "rejections p = List.map_filter (\<lambda>r. case r of Inl e \<Rightarrow> Some e | Inr v \<Rightarrow> None) p"

definition promiseAll :: "'a promise list \<Rightarrow> 'a list promise" where
  "promiseAll ps = map Inr (product_lists (map fulfilments ps)) @ map Inl (concat (map rejections ps))"

text \<open>The same for a pair of promises of different types.\<close>

definition promiseBoth :: "'a promise \<Rightarrow> 'b promise \<Rightarrow> ('a \<times> 'b) promise" where
  "promiseBoth p q =
     map Inr (List.product (fulfilments p) (fulfilments q)) @ map Inl (rejections p @ rejections q)"

text \<open>\<^verbatim>\<open>p.catch(e => { throw h(e) })\<close> and the continuation of an \<^verbatim>\<open>await\<close> by synchronous code.\<close>

definition promiseCatch :: "(js_error \<Rightarrow> js_error) \<Rightarrow> 'a promise \<Rightarrow> 'a promise" where
  "promiseCatch h p = map (map_sum h id) p"

definition promiseBind :: "'a promise \<Rightarrow> ('a \<Rightarrow> 'b promise) \<Rightarrow> 'b promise" where
  "promiseBind p f = concat (map (\<lambda>r. case r of Inl e \<Rightarrow> [Inl e] | Inr v \<Rightarrow> f v) p)"

definition promiseThen :: "'a promise \<Rightarrow> ('a \<Rightarrow> 'b result) \<Rightarrow> 'b promise" where
  "promiseThen p f = map (\<lambda>r. rbind r f) p"

text \<open>Array indexing: an index out of range reads \<^verbatim>\<open>undefined\<close>.\<close>

definition jsIndex :: "'a list \<Rightarrow> int \<Rightarrow> 'a option" where
  "jsIndex xs i = (if 0 \<le> i \<and> i < int (length xs) then Some (xs ! nat i) else None)"

section \<open>Strings\<close>

definition startsWith :: "string \<Rightarrow> string \<Rightarrow> bool" where
  "startsWith s p = (take (length p) s = p)"

fun indexOfFrom :: "nat \<Rightarrow> string \<Rightarrow> string \<Rightarrow> int" where
  "indexOfFrom i [] p = (if p = [] then int i else - 1)"
| "indexOfFrom i (c # s) p = (if startsWith (c # s) p then int i else indexOfFrom (Suc i) s p)"

definition indexOf :: "string \<Rightarrow> string \<Rightarrow> int" where
  "indexOf s p = indexOfFrom 0 s p"

definition jsIncludes :: "string \<Rightarrow> string \<Rightarrow> bool" where
  "jsIncludes s p = (indexOf s p \<noteq> - 1)"

text \<open>\<^verbatim>\<open>s.slice(0, j)\<close>: a negative end counts from the end of the string.\<close>

definition slice0 :: "string \<Rightarrow> int \<Rightarrow> string" where
  "slice0 s j = (if 0 \<le> j then take (nat j) s else take (nat (int (length s) + j)) s)"

text \<open>\<^verbatim>\<open>s.split(c)\<close> for a one-character separator: never the empty array.\<close>

fun splitOn :: "char \<Rightarrow> string \<Rightarrow> string list" where
  "splitOn c [] = [[]]"
| "splitOn c (x # s) =
     (if x = c then [] # splitOn c s
      else case splitOn c s of [] \<Rightarrow> [[x]] | w # ws \<Rightarrow> (x # w) # ws)"

fun joinWith :: "string \<Rightarrow> string list \<Rightarrow> string" where
  "joinWith sep [] = []"
| "joinWith sep [w] = w"
| "joinWith sep (w # v # ws) = w @ sep @ joinWith sep (v # ws)"

definition upperChar :: "char \<Rightarrow> char" where
  "upperChar c = (let n = of_char c :: nat in if 97 \<le> n \<and> n \<le> 122 then char_of (n - 32) else c)"

definition toUpperCase :: "string \<Rightarrow> string" where
  "toUpperCase s = map upperChar s"

section \<open>Lemmas on results\<close>

lemma rbind_Inr_iff [result_simps]: "rbind r f = Inr b \<longleftrightarrow> (\<exists>a. r = Inr a \<and> f a = Inr b)"
  by (cases r) auto

lemma rbind_Inl_iff [result_simps]:
  "rbind r f = Inl e \<longleftrightarrow> r = Inl e \<or> (\<exists>a. r = Inr a \<and> f a = Inl e)"
  by (cases r) auto

lemma rbind_assoc [result_simps]: "rbind (rbind r f) g = rbind r (\<lambda>a. rbind (f a) g)"
  by (cases r) auto

lemma rmap_Inr_iff [result_simps]: "rmap f xs = Inr ys \<longleftrightarrow> map f xs = map Inr ys"
  by (induction xs arbitrary: ys) (auto simp: result_simps Cons_eq_map_conv)

lemma rmap_Inl_mem: "rmap f xs = Inl e \<Longrightarrow> Inl e \<in> f ` set xs"
  by (induction xs) (auto simp: result_simps intro: rev_image_eqI)

lemma rmap_length: "rmap f xs = Inr ys \<Longrightarrow> length ys = length xs"
  by (metis rmap_Inr_iff length_map)

lemma rmap_total: "(\<And>x. x \<in> set xs \<Longrightarrow> f x = Inr (g x)) \<Longrightarrow> rmap f xs = Inr (map g xs)"
  by (induction xs) auto

lemma rbind_cong_fun: "r = r' \<Longrightarrow> (\<And>a. f a = g a) \<Longrightarrow> rbind r f = rbind r' g"
  by (cases r) auto

lemma rfold_append: "rfold f (xs @ ys) s = rbind (rfold f xs s) (rfold f ys)"
  by (induction xs arbitrary: s) (simp_all add: rbind_assoc cong: rbind_cong_fun)

lemma rfold_concat: "rfold f (concat xss) s = rfold (rfold f) xss s"
  by (induction xss arbitrary: s) (simp_all add: rfold_append cong: rbind_cong_fun)

lemma rfold_map: "rfold f (map g xs) s = rfold (\<lambda>x. f (g x)) xs s"
  by (induction xs arbitrary: s) (simp_all cong: rbind_cong_fun)

lemma rfold_cong:
  "(\<And>x s. x \<in> set xs \<Longrightarrow> f x s = g x s) \<Longrightarrow> rfold f xs s = rfold g xs s"
proof (induction xs arbitrary: s)
  case (Cons x xs)
  then have "rfold f xs = rfold g xs" by (intro ext) simp
  with Cons.prems show ?case by simp
qed simp

lemma set_fulfilments [result_simps]: "v \<in> set (fulfilments p) \<longleftrightarrow> Inr v \<in> set p"
  by (force simp: fulfilments_def List.map_filter_def split: sum.splits)

lemma set_rejections [result_simps]: "e \<in> set (rejections p) \<longleftrightarrow> Inl e \<in> set p"
  by (force simp: rejections_def List.map_filter_def split: sum.splits)

lemma promiseAll_Inr [result_simps]:
  "Inr vs \<in> set (promiseAll ps) \<longleftrightarrow> list_all2 (\<lambda>v p. Inr v \<in> set p) vs ps"
  by (auto simp: promiseAll_def product_lists_set list_all2_map2 set_fulfilments)

lemma promiseAll_Inl [result_simps]:
  "Inl e \<in> set (promiseAll ps) \<longleftrightarrow> (\<exists>p \<in> set ps. Inl e \<in> set p)"
proof -
  have "Inl e \<in> set (promiseAll ps) \<longleftrightarrow> (\<exists>p \<in> set ps. e \<in> set (rejections p))"
    by (auto simp: promiseAll_def)
  then show ?thesis by (simp add: set_rejections)
qed

lemma promiseBoth_Inr [result_simps]:
  "Inr (a, b) \<in> set (promiseBoth p q) \<longleftrightarrow> Inr a \<in> set p \<and> Inr b \<in> set q"
  by (auto simp: promiseBoth_def set_fulfilments)

lemma promiseBoth_Inl [result_simps]:
  "Inl e \<in> set (promiseBoth p q) \<longleftrightarrow> Inl e \<in> set p \<or> Inl e \<in> set q"
  by (auto simp: promiseBoth_def set_rejections)

lemma promiseThen_Inr [result_simps]:
  "Inr b \<in> set (promiseThen p f) \<longleftrightarrow> (\<exists>a. Inr a \<in> set p \<and> f a = Inr b)"
proof -
  have "Inr b \<in> set (promiseThen p f) \<longleftrightarrow> (\<exists>r \<in> set p. rbind r f = Inr b)"
    by (force simp: promiseThen_def)
  then show ?thesis by (auto simp: rbind_Inr_iff)
qed

text \<open>A promise that can settle: combinations of promises that can settle can settle.\<close>

lemma promiseBind_Inr [result_simps]:
  "Inr b \<in> set (promiseBind p f) \<longleftrightarrow> (\<exists>a. Inr a \<in> set p \<and> Inr b \<in> set (f a))"
  by (induction p) (auto simp: promiseBind_def split: sum.splits)

lemma promiseBind_Inl [result_simps]:
  "Inl e \<in> set (promiseBind p f) \<longleftrightarrow> Inl e \<in> set p \<or> (\<exists>a. Inr a \<in> set p \<and> Inl e \<in> set (f a))"
  by (induction p) (auto simp: promiseBind_def split: sum.splits)

lemma promiseAll_settles:
  assumes "\<And>p. p \<in> set ps \<Longrightarrow> p \<noteq> []"
  shows "promiseAll ps \<noteq> []"
proof (cases "\<exists>p \<in> set ps. \<exists>e. Inl e \<in> set p")
  case True
  then obtain e where "Inl e \<in> set (promiseAll ps)" using promiseAll_Inl by blast
  then show ?thesis by auto
next
  case False
  have "\<exists>v. Inr v \<in> set p" if "p \<in> set ps" for p
    using that assms False by (metis list.set_intros(1) neq_Nil_conv sum.exhaust)
  then have "\<exists>vs. list_all2 (\<lambda>v p. Inr v \<in> set p) vs ps"
    by (induction ps) (auto simp: list_all2_Cons2)
  then obtain vs where "Inr vs \<in> set (promiseAll ps)" using promiseAll_Inr by blast
  then show ?thesis by auto
qed

lemma promiseBoth_settles: "p \<noteq> [] \<Longrightarrow> q \<noteq> [] \<Longrightarrow> promiseBoth p q \<noteq> []"
proof -
  assume "p \<noteq> []" and "q \<noteq> []"
  then have "(\<exists>e. Inl e \<in> set p) \<or> (\<exists>a. Inr a \<in> set p)" and "(\<exists>e. Inl e \<in> set q) \<or> (\<exists>b. Inr b \<in> set q)"
    by (metis list.set_intros(1) neq_Nil_conv sum.exhaust)+
  then consider e where "Inl e \<in> set p" | e where "Inl e \<in> set q"
    | a b where "Inr a \<in> set p" and "Inr b \<in> set q"
    by blast
  then have "set (promiseBoth p q) \<noteq> {}"
  proof cases
    case (1 e)
    then have "Inl e \<in> set (promiseBoth p q)" by (simp add: promiseBoth_Inl)
    then show ?thesis by (metis empty_iff)
  next
    case (2 e)
    then have "Inl e \<in> set (promiseBoth p q)" by (simp add: promiseBoth_Inl)
    then show ?thesis by (metis empty_iff)
  next
    case (3 a b)
    then have "Inr (a, b) \<in> set (promiseBoth p q)" by (simp add: promiseBoth_Inr)
    then show ?thesis by (metis empty_iff)
  qed
  then show ?thesis by auto
qed

lemma jsIndex_Some_iff [result_simps]:
  "jsIndex xs i = Some x \<longleftrightarrow> (\<exists>k < length xs. i = int k \<and> x = xs ! k)"
proof
  assume "jsIndex xs i = Some x"
  then have "nat i < length xs \<and> i = int (nat i) \<and> x = xs ! nat i"
    by (auto simp: jsIndex_def split: if_splits)
  then show "\<exists>k < length xs. i = int k \<and> x = xs ! k" by blast
qed (auto simp: jsIndex_def)

lemma jsIndex_int [simp]: "k < length xs \<Longrightarrow> jsIndex xs (int k) = Some (xs ! k)"
  by (simp add: jsIndex_def)

lemma list_all2_left_mem: "list_all2 R xs ys \<Longrightarrow> x \<in> set xs \<Longrightarrow> \<exists>y \<in> set ys. R x y"
  by (induction rule: list_all2_induct) auto

section \<open>Lemmas on strings\<close>

lemma startsWith_iff [string_simps]: "startsWith s p \<longleftrightarrow> (\<exists>t. s = p @ t)"
  by (auto simp: startsWith_def) (metis append_take_drop_id)

lemma startsWith_append [simp]: "startsWith (p @ t) p"
  by (simp add: startsWith_iff)

lemma indexOfFrom_range: "indexOfFrom i s p = - 1 \<or> int i \<le> indexOfFrom i s p"
proof (induction i s p rule: indexOfFrom.induct)
  case (2 i c s p)
  then show ?case by (cases "startsWith (c # s) p") auto
qed simp

lemma indexOfFrom_found:
  "indexOfFrom i s p = int i + int k \<Longrightarrow> \<exists>t. s = take k s @ p @ t \<and> k \<le> length s"
proof (induction i s p arbitrary: k rule: indexOfFrom.induct)
  case (1 i p)
  then show ?case by (auto split: if_splits)
next
  case (2 i c s p)
  show ?case
  proof (cases "startsWith (c # s) p")
    case True
    with "2.prems" have "k = 0" by simp
    with True show ?thesis by (auto simp: startsWith_iff)
  next
    case False
    with "2.prems" have *: "indexOfFrom (Suc i) s p = int i + int k" by simp
    with indexOfFrom_range [of "Suc i" s p] have "0 < k" by auto
    then obtain k' where k: "k = Suc k'" by (cases k) auto
    with * have "indexOfFrom (Suc i) s p = int (Suc i) + int k'" by simp
    from "2.IH" [OF False this] k show ?thesis by auto
  qed
qed

lemma indexOfFrom_occurs: "s = u @ p @ v \<Longrightarrow> indexOfFrom i s p \<noteq> - 1"
proof (induction i s p arbitrary: u rule: indexOfFrom.induct)
  case (2 i c s p)
  show ?case
  proof (cases u)
    case Nil
    with "2.prems" have "startsWith (c # s) p" by (simp add: startsWith_iff)
    then show ?thesis by simp
  next
    case (Cons d u')
    with "2.prems" have "s = u' @ p @ v" by simp
    with "2.IH" show ?thesis by (cases "startsWith (c # s) p") simp_all
  qed
qed simp

lemma jsIncludes_iff [string_simps]: "jsIncludes s p \<longleftrightarrow> (\<exists>u v. s = u @ p @ v)"
proof
  assume "jsIncludes s p"
  then have "indexOf s p \<noteq> - 1" by (simp add: jsIncludes_def)
  with indexOfFrom_range [of 0 s p] have "0 \<le> indexOf s p"
    by (simp add: indexOf_def)
  then have "indexOfFrom 0 s p = int 0 + int (nat (indexOf s p))" by (simp add: indexOf_def)
  from indexOfFrom_found [OF this] show "\<exists>u v. s = u @ p @ v" by blast
next
  assume "\<exists>u v. s = u @ p @ v"
  then show "jsIncludes s p"
    using indexOfFrom_occurs [of s _ p] by (auto simp only: jsIncludes_def indexOf_def)
qed

lemma startsWith_jsIncludes: "startsWith s p \<Longrightarrow> jsIncludes s p"
  unfolding startsWith_iff jsIncludes_iff by (metis append_Nil)

lemma splitOn_not_Nil [simp]: "splitOn c s \<noteq> []"
  by (induction s) (auto split: list.splits)

lemma joinWith_Cons_not_Nil: "ws \<noteq> [] \<Longrightarrow> joinWith sep (w # ws) = w @ sep @ joinWith sep ws"
  by (cases ws) auto

lemma joinWith_splitOn [simp]: "joinWith [c] (splitOn c s) = s"
proof (induction s)
  case (Cons x s)
  obtain w ws where "splitOn c s = w # ws" by (metis splitOn_not_Nil neq_Nil_conv)
  with Cons show ?case by (cases ws) (auto simp: joinWith_Cons_not_Nil)
qed simp

lemma splitOn_no_sep: "w \<in> set (splitOn c s) \<Longrightarrow> c \<notin> set w"
proof (induction s arbitrary: w)
  case (Cons x s)
  obtain v ws where vs: "splitOn c s = v # ws" by (metis splitOn_not_Nil neq_Nil_conv)
  with Cons show ?case by (auto split: if_splits)
qed simp

lemma splitOn_single: "c \<notin> set s \<Longrightarrow> splitOn c s = [s]"
  by (induction s) auto

lemma splitOn_append: "c \<notin> set u \<Longrightarrow> splitOn c (u @ c # v) = u # splitOn c v"
  by (induction u) auto

lemma splitOn_joinWith:
  "ws \<noteq> [] \<Longrightarrow> (\<And>w. w \<in> set ws \<Longrightarrow> c \<notin> set w) \<Longrightarrow> splitOn c (joinWith [c] ws) = ws"
proof (induction ws)
  case (Cons w ws)
  show ?case
  proof (cases ws)
    case Nil
    with Cons.prems show ?thesis by (simp add: splitOn_single)
  next
    case (Cons v vs)
    then have "splitOn c (joinWith [c] (w # ws)) = w # splitOn c (joinWith [c] ws)"
      using Cons.prems by (simp add: splitOn_append)
    with Cons Cons.IH Cons.prems show ?thesis by simp
  qed
qed simp

lemma length_toUpperCase [simp]: "length (toUpperCase s) = length s"
  by (simp add: toUpperCase_def)

end
