(* ===== verification/Js_Value.thy ===== *)
theory Js_Value
  imports Prelude
begin

text \<open>
  The dynamically typed JavaScript values that reach the filters: what a protobuf registry
  decodes, what \<^verbatim>\<open>JSON.parse\<close> returns, and what a manifest writes as a filter value.  Numbers
  are integers (protobuf integers and the float-free JSON of CosmWasm); an integer that is no
  double is rounded where the code converts.  Strings are sequences of bytes.  An object lists
  its own properties in enumeration order; \<open>JLong\<close> is an instance of the \<^verbatim>\<open>Long\<close> class (its
  signedness and value), \<open>JBytes\<close> a \<^verbatim>\<open>Uint8Array\<close>, and \<open>JFun\<close> an inherited member of a built-in
  prototype, of which only the methods of \<^verbatim>\<open>Function.prototype\<close> are read: its own \<^verbatim>\<open>name\<close> and \<^verbatim>\<open>length\<close> and
  the static members of a constructor are not modelled and read \<^verbatim>\<open>undefined\<close>, as do \<^verbatim>\<open>byteOffset\<close> and the
  members of the \<^verbatim>\<open>buffer\<close> of bytes.  A character of a string is one byte, which agrees with JavaScript's UTF-16
  units on ASCII text.
\<close>

named_theorems js_simps "rewriting of JavaScript value operations"

datatype js =
    JUndefined
  | JNull
  | JBool bool
  | JNum int
  | JStr string
  | JLong bool int
  | JBytes bytes
  | JFun string
  | JArr "js list"
  | JObj "(string \<times> js) list"

section \<open>Decimal numerals\<close>

definition digitChar :: "nat \<Rightarrow> char" where
  "digitChar d = char_of (48 + d)"

definition isDigit :: "char \<Rightarrow> bool" where
  "isDigit c = (48 \<le> (of_char c :: nat) \<and> (of_char c :: nat) \<le> 57)"

definition digitVal :: "char \<Rightarrow> nat" where
  "digitVal c = of_char c - 48"

fun digitsOf :: "nat \<Rightarrow> string" where
  "digitsOf n = (if n < 10 then [digitChar n] else digitsOf (n div 10) @ [digitChar (n mod 10)])"

declare digitsOf.simps [simp del]

definition digitsVal :: "string \<Rightarrow> nat" where
  "digitsVal s = foldl (\<lambda>v c. 10 * v + digitVal c) 0 s"

text \<open>\<^verbatim>\<open>n.toString()\<close> of an integer below \<open>10 ^ 21\<close> in magnitude (larger ones print an exponent).\<close>

definition numberToString :: "int \<Rightarrow> string" where
  "numberToString n = (if n < 0 then CHR ''-'' # digitsOf (nat (- n)) else digitsOf (nat n))"

text \<open>Rounding of an integer to the nearest double: 53 bits of mantissa, ties to even.\<close>

fun bitLength :: "nat \<Rightarrow> nat" where
  "bitLength n = (if n = 0 then 0 else Suc (bitLength (n div 2)))"

declare bitLength.simps [simp del]

definition toDouble :: "int \<Rightarrow> int" where
  "toDouble n =
     (let m = nat \<bar>n\<bar>; e = bitLength m - 53; q = m div 2 ^ e; r = 2 * (m mod 2 ^ e);
          q' = (if r > 2 ^ e \<or> (r = 2 ^ e \<and> odd q) then q + 1 else q)
      in if m \<le> 2 ^ 53 then n else sgn n * int (q' * 2 ^ e))"

text \<open>\<^verbatim>\<open>parseInt(s, 10)\<close>: leading blanks, a sign, then the longest run of digits; none is NaN.\<close>

definition isBlank :: "char \<Rightarrow> bool" where
  "isBlank c = ((of_char c :: nat) = 32 \<or> (9 \<le> (of_char c :: nat) \<and> (of_char c :: nat) \<le> 13))"

definition parseDigits :: "string \<Rightarrow> int option" where
  "parseDigits s =
     (let ds = takeWhile isDigit s in if ds = [] then None else Some (int (digitsVal ds)))"

definition parseInt10 :: "string \<Rightarrow> int option" where
  "parseInt10 s =
     map_option toDouble
       (case dropWhile isBlank s of
          [] \<Rightarrow> None
        | c # t \<Rightarrow>
            (if c = CHR ''-'' then map_option uminus (parseDigits t)
             else if c = CHR ''+'' then parseDigits t
             else parseDigits (c # t)))"

section \<open>Properties of values\<close>

text \<open>A property name that is an array index: the canonical numeral of a natural number.\<close>

definition arrayIndex :: "string \<Rightarrow> nat option" where
  "arrayIndex s =
     (if s \<noteq> [] \<and> list_all isDigit s \<and> digitsOf (digitsVal s) = s then Some (digitsVal s) else None)"

definition objectPrototype :: "string list" where
  "objectPrototype =
     [''constructor'', ''__defineGetter__'', ''__defineSetter__'', ''hasOwnProperty'',
      ''__lookupGetter__'', ''__lookupSetter__'', ''isPrototypeOf'', ''propertyIsEnumerable'',
      ''toString'', ''valueOf'', ''__proto__'', ''toLocaleString'']"

definition arrayPrototype :: "string list" where
  "arrayPrototype =
     [''at'', ''concat'', ''copyWithin'', ''fill'', ''find'', ''findIndex'', ''findLast'',
      ''findLastIndex'', ''lastIndexOf'', ''pop'', ''push'', ''reverse'', ''shift'', ''unshift'',
      ''slice'', ''sort'', ''splice'', ''includes'', ''indexOf'', ''join'', ''keys'', ''entries'',
      ''values'', ''forEach'', ''filter'', ''flat'', ''flatMap'', ''map'', ''every'', ''some'',
      ''reduce'', ''reduceRight'']"

definition stringPrototype :: "string list" where
  "stringPrototype =
     [''anchor'', ''at'', ''big'', ''blink'', ''bold'', ''charAt'', ''charCodeAt'',
      ''codePointAt'', ''concat'', ''endsWith'', ''fontcolor'', ''fontsize'', ''fixed'',
      ''includes'', ''indexOf'', ''italics'', ''lastIndexOf'', ''link'', ''localeCompare'',
      ''match'', ''matchAll'', ''normalize'', ''padEnd'', ''padStart'', ''repeat'', ''replace'',
      ''replaceAll'', ''search'', ''slice'', ''small'', ''split'', ''strike'', ''sub'',
      ''substr'', ''substring'', ''sup'', ''startsWith'', ''trim'', ''trimStart'',
      ''trimLeft'', ''trimEnd'', ''trimRight'', ''toLocaleLowerCase'', ''toLocaleUpperCase'',
      ''toLowerCase'', ''toUpperCase'']"

text \<open>The methods of \<^verbatim>\<open>Uint8Array\<close>, which has none that change the length, of the class \<^verbatim>\<open>Long\<close>, and of functions.\<close>

definition typedArrayPrototype :: "string list" where
  "typedArrayPrototype =
     [''at'', ''buffer'', ''copyWithin'', ''entries'', ''every'', ''fill'', ''filter'', ''find'', ''findIndex'',
      ''findLast'', ''findLastIndex'', ''forEach'', ''includes'', ''indexOf'', ''join'', ''keys'', ''lastIndexOf'',
      ''map'', ''reduce'', ''reduceRight'', ''reverse'', ''set'', ''slice'', ''some'', ''sort'', ''subarray'',
      ''values'']"

definition longPrototype :: "string list" where
  "longPrototype =
     [''toInt'', ''toNumber'', ''getHighBits'', ''getHighBitsUnsigned'', ''getLowBits'',
      ''getLowBitsUnsigned'', ''getNumBitsAbs'', ''isZero'', ''eqz'', ''isNegative'', ''isPositive'', ''isOdd'',
      ''isEven'', ''equals'', ''eq'', ''notEquals'', ''neq'', ''ne'', ''lessThan'', ''lt'', ''lessThanOrEqual'',
      ''lte'', ''le'', ''greaterThan'', ''gt'', ''greaterThanOrEqual'', ''gte'', ''ge'', ''compare'', ''comp'',
      ''negate'', ''neg'', ''add'', ''subtract'', ''sub'', ''multiply'', ''mul'', ''divide'', ''div'', ''modulo'',
      ''mod'', ''rem'', ''not'', ''and'', ''or'', ''xor'', ''shiftLeft'', ''shl'', ''shiftRight'', ''shr'',
      ''shiftRightUnsigned'', ''shru'', ''shr_u'', ''rotateLeft'', ''rotl'', ''rotateRight'', ''rotr'',
      ''toSigned'', ''toUnsigned'', ''toBytes'', ''toBytesLE'', ''toBytesBE'']"

definition functionPrototype :: "string list" where
  "functionPrototype = [''apply'', ''bind'', ''call'']"

definition inherited :: "string list \<Rightarrow> string \<Rightarrow> js" where
  "inherited proto k = (if k \<in> set proto \<or> k \<in> set objectPrototype then JFun k else JUndefined)"

definition indexed :: "('a \<Rightarrow> js) \<Rightarrow> 'a list \<Rightarrow> string list \<Rightarrow> string \<Rightarrow> js" where
  "indexed f xs proto k =
     (if k = ''length'' then JNum (int (length xs))
      else case arrayIndex k of
             Some i \<Rightarrow> (if i < length xs then f (xs ! i) else JUndefined)
           | None \<Rightarrow> inherited proto k)"

definition int32 :: "int \<Rightarrow> int" where
  "int32 m = (let r = m mod 2 ^ 32 in if 2 ^ 31 \<le> r then r - 2 ^ 32 else r)"

text \<open>The member access \<^verbatim>\<open>v[k]\<close>.\<close>

fun jsGet :: "js \<Rightarrow> string \<Rightarrow> js result" where
  "jsGet JUndefined k = throwTypeError (''Cannot read properties of undefined (reading '' @ k @ '')'')"
| "jsGet JNull k = throwTypeError (''Cannot read properties of null (reading '' @ k @ '')'')"
| "jsGet (JBool b) k = Inr (inherited [] k)"
| "jsGet (JNum n) k = Inr (inherited [''toExponential'', ''toFixed'', ''toPrecision''] k)"
| "jsGet (JStr s) k = Inr (indexed (\<lambda>c. JStr [c]) s stringPrototype k)"
| "jsGet (JLong u n) k =
     Inr (if k = ''low'' then JNum (int32 n)
          else if k = ''high'' then JNum (int32 (n div 2 ^ 32))
          else if k = ''unsigned'' then JBool u
          else if k = ''__isLong__'' then JBool True
          else inherited longPrototype k)"
| "jsGet (JBytes bs) k =
     Inr (if k = ''byteLength'' then JNum (int (length bs))
          else if k = ''BYTES_PER_ELEMENT'' then JNum 1
          else indexed (\<lambda>b. JNum (uint b)) bs typedArrayPrototype k)"
| "jsGet (JFun f) k = Inr (inherited functionPrototype k)"
| "jsGet (JArr xs) k = Inr (indexed id xs arrayPrototype k)"
| "jsGet (JObj kvs) k =
     Inr (case map_of kvs k of Some v \<Rightarrow> v | None \<Rightarrow> inherited [] k)"

text \<open>\<^verbatim>\<open>path.reduce((acc, curr) => acc[curr], v)\<close>\<close>

fun jsPath :: "js \<Rightarrow> string list \<Rightarrow> js result" where
  "jsPath v [] = Inr v"
| "jsPath v (k # ks) = rbind (jsGet v k) (\<lambda>w. jsPath w ks)"

text \<open>\<^verbatim>\<open>typeof v === 'object'\<close> (which holds of null) and \<^verbatim>\<open>typeof v === 'number'\<close>.\<close>

fun isTypeofObject :: "js \<Rightarrow> bool" where
  "isTypeofObject JNull = True"
| "isTypeofObject (JLong u n) = True"
| "isTypeofObject (JBytes bs) = True"
| "isTypeofObject (JArr xs) = True"
| "isTypeofObject (JObj kvs) = True"
| "isTypeofObject _ = False"

fun isNumber :: "js \<Rightarrow> bool" where
  "isNumber (JNum n) = True"
| "isNumber _ = False"

text \<open>The operator \<^verbatim>\<open>k in v\<close> on an object: own properties and the prototype chain.\<close>

fun jsIn :: "string \<Rightarrow> js \<Rightarrow> bool" where
  "jsIn k (JObj kvs) = (k \<in> fst ` set kvs \<or> k \<in> set objectPrototype)"
| "jsIn k (JArr xs) =
     (k = ''length'' \<or> (case arrayIndex k of Some i \<Rightarrow> i < length xs | None \<Rightarrow> False)
      \<or> k \<in> set arrayPrototype \<or> k \<in> set objectPrototype)"
| "jsIn k (JBytes bs) =
     (k \<in> {''length'', ''byteLength'', ''byteOffset'', ''BYTES_PER_ELEMENT''}
      \<or> (case arrayIndex k of Some i \<Rightarrow> i < length bs | None \<Rightarrow> False)
      \<or> k \<in> set typedArrayPrototype \<or> k \<in> set objectPrototype)"
| "jsIn k (JLong u n) =
     (k \<in> {''low'', ''high'', ''unsigned'', ''__isLong__''} \<or> k \<in> set longPrototype \<or> k \<in> set objectPrototype)"
| "jsIn k _ = False"

text \<open>
  \<^verbatim>\<open>a === b\<close> where \<open>a\<close> comes from the manifest and \<open>b\<close> from a decoded message: primitives by
  value; two reference values from different sources are never the same reference.
\<close>

fun strictEq :: "js \<Rightarrow> js \<Rightarrow> bool" where
  "strictEq JUndefined JUndefined = True"
| "strictEq JNull JNull = True"
| "strictEq (JBool a) (JBool b) = (a = b)"
| "strictEq (JNum a) (JNum b) = (a = b)"
| "strictEq (JStr a) (JStr b) = (a = b)"
| "strictEq _ _ = False"

fun truthy :: "js \<Rightarrow> bool" where
  "truthy JUndefined = False"
| "truthy JNull = False"
| "truthy (JBool b) = b"
| "truthy (JNum n) = (n \<noteq> 0)"
| "truthy (JStr s) = (s \<noteq> [])"
| "truthy _ = True"

text \<open>\<^verbatim>\<open>a % b\<close> on integers: the remainder has the sign of the dividend; by zero it is NaN.\<close>

definition jsRem :: "int \<Rightarrow> int \<Rightarrow> int option" where
  "jsRem a b = (if b = 0 then None else Some (sgn a * (\<bar>a\<bar> mod \<bar>b\<bar>)))"

section \<open>Lemmas\<close>

lemma of_char_digitChar: "d < 10 \<Longrightarrow> (of_char (digitChar d) :: nat) = 48 + d"
  by (simp add: digitChar_def)

lemma isDigit_digitChar [simp]: "d < 10 \<Longrightarrow> isDigit (digitChar d)"
  by (simp add: isDigit_def of_char_digitChar)

lemma digitVal_digitChar [simp]: "d < 10 \<Longrightarrow> digitVal (digitChar d) = d"
  by (simp add: digitVal_def of_char_digitChar)

lemma digitsOf_isDigit: "c \<in> set (digitsOf n) \<Longrightarrow> isDigit c"
proof (induction n rule: digitsOf.induct)
  case (1 n)
  show ?case
  proof (cases "n < 10")
    case True
    with "1.prems" show ?thesis by (simp add: digitsOf.simps [of n])
  next
    case False
    with "1" show ?thesis by (auto simp: digitsOf.simps [of n])
  qed
qed

lemma digitsOf_not_Nil [simp]: "digitsOf n \<noteq> []"
  by (simp add: digitsOf.simps [of n])

lemma digitsVal_snoc: "digitsVal (s @ [c]) = 10 * digitsVal s + digitVal c"
  by (simp add: digitsVal_def)

lemma digitsVal_digitsOf [simp]: "digitsVal (digitsOf n) = n"
proof (induction n rule: digitsOf.induct)
  case (1 n)
  show ?case
  proof (cases "n < 10")
    case True
    then show ?thesis by (simp add: digitsOf.simps [of n] digitsVal_def)
  next
    case False
    with "1" show ?thesis by (simp add: digitsOf.simps [of n] digitsVal_snoc)
  qed
qed

lemma digitsOf_inject: "digitsOf m = digitsOf n \<longleftrightarrow> m = n"
  by (metis digitsVal_digitsOf)

lemma arrayIndex_digitsOf [simp]: "arrayIndex (digitsOf n) = Some n"
  by (auto simp: arrayIndex_def list_all_iff dest: digitsOf_isDigit)

lemma parseDigits_digitsOf [simp]: "parseDigits (digitsOf n) = Some (int n)"
  by (simp add: parseDigits_def takeWhile_eq_all_conv [THEN iffD2] digitsOf_isDigit)

lemma isDigit_head: "digitsOf n = c # t \<Longrightarrow> isDigit c"
  by (metis digitsOf_isDigit list.set_intros(1))

lemma isDigit_not_blank: "isDigit c \<Longrightarrow> \<not> isBlank c"
  by (auto simp: isDigit_def isBlank_def)

lemma isDigit_not_sign: "isDigit c \<Longrightarrow> c \<noteq> CHR ''-'' \<and> c \<noteq> CHR ''+''"
  by (auto simp: isDigit_def)

lemma toDouble_exact: "\<bar>n\<bar> \<le> 2 ^ 53 \<Longrightarrow> toDouble n = n"
  by (simp add: toDouble_def Let_def nat_le_iff)

text \<open>\<^verbatim>\<open>parseInt(n.toString(), 10)\<close> is \<open>n\<close> for every safe integer.\<close>

lemma parseInt10_numberToString:
  assumes "\<bar>n\<bar> \<le> 2 ^ 53"
  shows "parseInt10 (numberToString n) = Some n"
proof (cases "n < 0")
  case True
  have "\<not> isBlank (CHR ''-'')" by (simp add: isBlank_def)
  with True assms show ?thesis
    by (simp add: parseInt10_def numberToString_def toDouble_exact)
next
  case False
  obtain c t where ct: "digitsOf (nat n) = c # t" by (metis digitsOf_not_Nil neq_Nil_conv)
  note d = isDigit_head [OF ct]
  have "parseDigits (c # t) = Some (int (nat n))"
    using parseDigits_digitsOf [of "nat n"] ct by simp
  with False assms ct isDigit_not_blank [OF d] isDigit_not_sign [OF d] show ?thesis
    by (simp add: parseInt10_def numberToString_def toDouble_exact)
qed

lemma numberToString_inject: "numberToString m = numberToString n \<longleftrightarrow> m = n"
proof
  have head: "digitsOf k \<noteq> CHR ''-'' # w" for k w
    by (metis isDigit_head isDigit_not_sign)
  assume "numberToString m = numberToString n"
  then show "m = n"
    using head by (auto simp: numberToString_def digitsOf_inject split: if_splits) metis
qed simp

lemma jsPath_append: "jsPath v (ks @ ls) = rbind (jsPath v ks) (\<lambda>w. jsPath w ls)"
  by (induction ks arbitrary: v) (simp_all add: rbind_assoc cong: rbind_cong_fun)

lemma jsGet_JObj_own [js_simps]: "map_of kvs k = Some v \<Longrightarrow> jsGet (JObj kvs) k = Inr v"
  by simp

lemma strictEq_iff: "strictEq a b \<longleftrightarrow> a = b \<and> \<not> isTypeofObject a \<and> (\<forall>f. a \<noteq> JFun f) \<or> (a = JNull \<and> b = JNull)"
  by (cases a; cases b) auto

lemma strictEq_JStr [js_simps]: "strictEq (JStr s) v \<longleftrightarrow> v = JStr s"
  by (cases v) auto

lemma strictEq_JNum [js_simps]: "strictEq (JNum n) v \<longleftrightarrow> v = JNum n"
  by (cases v) auto

lemma jsRem_zero_iff: "jsRem a b = Some 0 \<longleftrightarrow> b \<noteq> 0 \<and> b dvd a"
  by (auto simp: jsRem_def sgn_0_0 dvd_eq_mod_eq_0 [symmetric])

end
