(* ===== verification/Json.thy ===== *)
theory Json
  imports Js_Value
begin

text \<open>
  The two built-ins by which the node reads text: \<^verbatim>\<open>new TextDecoder().decode\<close> (the UTF-8 decoder of
  the encoding standard) and \<^verbatim>\<open>JSON.parse\<close>.  The decoder is defined in full.  The components take
  \<^verbatim>\<open>JSON.parse\<close> as an argument and rely on the contract \<open>json_parser\<close>; the contract is discharged
  for \<open>jsonParse\<close>, a parser of JSON text whose numbers are integers and whose strings use no
  \<^verbatim>\<open>\u\<close> escape (the values \<open>js\<close> can hold).
\<close>

section \<open>UTF-8 decoding\<close>

text \<open>
  The decoder reads a sequence of bytes \<open>seen\<close> of which \<open>need\<close> more must follow, the next one
  between \<open>lo\<close> and \<open>hi\<close>.  An ill-formed sequence is replaced by U+FFFD and the offending byte is
  read again.
\<close>

definition charOfByte :: "byte \<Rightarrow> char" where
  "charOfByte b = char_of (unat b)"

definition replacementChar :: string where
  "replacementChar = map charOfByte [0xEF, 0xBF, 0xBD]"

text \<open>What a byte at the start of a sequence announces: (bytes to follow, lowest next, highest next).\<close>

definition utf8Lead :: "byte \<Rightarrow> (nat \<times> byte \<times> byte) option" where
  "utf8Lead b =
     (if b < 0x80 then Some (0, 0x80, 0xBF)
      else if 0xC2 \<le> b \<and> b \<le> 0xDF then Some (1, 0x80, 0xBF)
      else if b = 0xE0 then Some (2, 0xA0, 0xBF)
      else if b = 0xED then Some (2, 0x80, 0x9F)
      else if 0xE1 \<le> b \<and> b \<le> 0xEF then Some (2, 0x80, 0xBF)
      else if b = 0xF0 then Some (3, 0x90, 0xBF)
      else if b = 0xF4 then Some (3, 0x80, 0x8F)
      else if 0xF1 \<le> b \<and> b \<le> 0xF3 then Some (3, 0x80, 0xBF)
      else None)"

definition utf8Start :: "byte \<Rightarrow> string \<times> (bytes \<times> nat \<times> byte \<times> byte)" where
  "utf8Start b =
     (case utf8Lead b of
        None \<Rightarrow> (replacementChar, ([], 0, 0x80, 0xBF))
      | Some (n, lo, hi) \<Rightarrow>
          (if n = 0 then ([charOfByte b], ([], 0, 0x80, 0xBF)) else ([], ([b], n, lo, hi))))"

fun utf8Run :: "bytes \<times> nat \<times> byte \<times> byte \<Rightarrow> bytes \<Rightarrow> string" where
  "utf8Run (seen, need, lo, hi) [] = (if need = 0 then [] else replacementChar)"
| "utf8Run (seen, need, lo, hi) (b # bs) =
     (if need = 0 then (case utf8Start b of (out, st) \<Rightarrow> out @ utf8Run st bs)
      else if lo \<le> b \<and> b \<le> hi then
        (if need = 1 then map charOfByte (seen @ [b]) @ utf8Run ([], 0, 0x80, 0xBF) bs
         else utf8Run (seen @ [b], need - 1, 0x80, 0xBF) bs)
      else (case utf8Start b of (out, st) \<Rightarrow> replacementChar @ out @ utf8Run st bs))"

text \<open>A leading byte order mark is dropped.\<close>

definition textDecode :: "bytes \<Rightarrow> string" where
  "textDecode bs =
     utf8Run ([], 0, 0x80, 0xBF) (if take 3 bs = [0xEF, 0xBB, 0xBF] then drop 3 bs else bs)"

lemma utf8Start_ascii: "b < 0x80 \<Longrightarrow> utf8Start b = ([charOfByte b], ([], 0, 0x80, 0xBF))"
  by (simp add: utf8Start_def utf8Lead_def)

lemma utf8Run_ascii:
  "list_all (\<lambda>b. b < 0x80) bs \<Longrightarrow> utf8Run ([], 0, 0x80, 0xBF) bs = map charOfByte bs"
  by (induction bs) (simp_all add: utf8Start_ascii)

lemma textDecode_ascii: "list_all (\<lambda>b. b < 0x80) bs \<Longrightarrow> textDecode bs = map charOfByte bs"
  unfolding textDecode_def by (cases bs) (auto simp: utf8Run_ascii utf8Start_ascii)

definition byteOfChar :: "char \<Rightarrow> byte" where
  "byteOfChar c = word_of_nat (of_char c)"

lemma charOfByte_byteOfChar [simp]: "charOfByte (byteOfChar c) = c"
proof -
  have "(of_char c :: nat) < 256" by simp
  then show ?thesis by (simp add: charOfByte_def byteOfChar_def unat_of_nat take_bit_eq_mod)
qed

definition isAscii :: "string \<Rightarrow> bool" where
  "isAscii s = list_all (\<lambda>c. (of_char c :: nat) < 128) s"

text \<open>The text of an ASCII string is recovered from its encoding.\<close>

lemma textDecode_encode: "isAscii s \<Longrightarrow> textDecode (map byteOfChar s) = s"
proof -
  assume "isAscii s"
  then have "list_all (\<lambda>b. b < 0x80) (map byteOfChar s)"
    by (auto simp: isAscii_def list_all_iff byteOfChar_def word_less_nat_alt unat_of_nat)
  then show ?thesis by (simp add: textDecode_ascii comp_def)
qed

section \<open>JSON\<close>

definition isJsonBlank :: "char \<Rightarrow> bool" where
  "isJsonBlank c = ((of_char c :: nat) \<in> {9, 10, 13, 32})"

text \<open>The characters that can open a JSON value.\<close>

definition jsonFirst :: "char \<Rightarrow> bool" where
  "jsonFirst c = (c \<in> set ''{[-tfn'' \<or> c = CHR 0x22 \<or> isDigit c)"

locale json_parser =
  fixes parse :: "string \<Rightarrow> js result"
  assumes parse_first: "parse s = Inr v \<Longrightarrow> \<exists>c t. dropWhile isJsonBlank s = c # t \<and> jsonFirst c"
begin

lemma parse_rejects: "\<not> jsonFirst c \<Longrightarrow> \<not> isJsonBlank c \<Longrightarrow> \<exists>e. parse (c # s) = Inl e"
  using parse_first [of "c # s"] by (cases "parse (c # s)") auto

end

definition jsonEscape :: "char \<Rightarrow> char option" where
  "jsonEscape c =
     (if c = CHR 0x22 \<or> c = CHR 0x5C \<or> c = CHR ''/'' then Some c
      else if c = CHR ''b'' then Some (CHR 0x08) else if c = CHR ''f'' then Some (CHR 0x0C)
      else if c = CHR ''n'' then Some (CHR 0x0A) else if c = CHR ''r'' then Some (CHR 0x0D)
      else if c = CHR ''t'' then Some (CHR 0x09) else None)"

text \<open>The rest of a string literal, after its opening quote.\<close>

fun jsonChars :: "string \<Rightarrow> (string \<times> string) option" where
  "jsonChars [] = None"
| "jsonChars [c] = (if c = CHR 0x22 then Some ([], []) else None)"
| "jsonChars (c # d # s) =
     (if c = CHR 0x22 then Some ([], d # s)
      else if c = CHR 0x5C then
        (case jsonEscape d of
           None \<Rightarrow> None
         | Some e \<Rightarrow> map_option (\<lambda>(u, r). (e # u, r)) (jsonChars s))
      else if (of_char c :: nat) < 32 then None
      else map_option (\<lambda>(u, r). (c # u, r)) (jsonChars (d # s)))"

text \<open>An integer literal without leading zeros, not followed by a fraction or an exponent.\<close>

definition jsonNumber :: "string \<Rightarrow> (js \<times> string) option" where
  "jsonNumber s =
     (let neg = (s \<noteq> [] \<and> hd s = CHR ''-''); t = (if neg then tl s else s);
          ds = takeWhile isDigit t; r = dropWhile isDigit t
      in if ds = [] \<or> (length ds > 1 \<and> hd ds = CHR ''0'') \<or> (r \<noteq> [] \<and> hd r \<in> set ''.eE'') then None
         else Some (JNum (toDouble (if neg then - int (digitsVal ds) else int (digitsVal ds))), r))"

definition jsonWord :: "string \<Rightarrow> js \<Rightarrow> string \<Rightarrow> (js \<times> string) option" where
  "jsonWord w v s = (if startsWith s w then Some (v, drop (length w) s) else None)"

text \<open>A repeated key keeps its place and takes the last value, as for property assignment.\<close>

fun setProp :: "'k \<Rightarrow> 'v \<Rightarrow> ('k \<times> 'v) list \<Rightarrow> ('k \<times> 'v) list" where
  "setProp k v [] = [(k, v)]"
| "setProp k v ((k', v') # kvs) = (if k = k' then (k, v) # kvs else (k', v') # setProp k v kvs)"

text \<open>
  Values, the elements of an array and the members of an object.  The fuel bounds the depth of
  the recursion; every call is preceded by the consumption of a character, so the length of the
  text suffices.
\<close>

fun jsonValue :: "nat \<Rightarrow> string \<Rightarrow> (js \<times> string) option"
  and jsonElements :: "nat \<Rightarrow> js list \<Rightarrow> string \<Rightarrow> (js \<times> string) option"
  and jsonMembers :: "nat \<Rightarrow> (string \<times> js) list \<Rightarrow> string \<Rightarrow> (js \<times> string) option" where
  "jsonValue 0 s = None"
| "jsonValue (Suc n) s =
     (case dropWhile isJsonBlank s of
        [] \<Rightarrow> None
      | c # t \<Rightarrow>
          (if c = CHR 0x22 then map_option (\<lambda>(u, r). (JStr u, r)) (jsonChars t)
           else if c = CHR ''['' then
             (case dropWhile isJsonBlank t of
                [] \<Rightarrow> None
              | d # r \<Rightarrow> (if d = CHR '']'' then Some (JArr [], r) else jsonElements n [] (d # r)))
           else if c = CHR ''{'' then
             (case dropWhile isJsonBlank t of
                [] \<Rightarrow> None
              | d # r \<Rightarrow> (if d = CHR ''}'' then Some (JObj [], r) else jsonMembers n [] (d # r)))
           else if c = CHR ''t'' then jsonWord ''true'' (JBool True) (c # t)
           else if c = CHR ''f'' then jsonWord ''false'' (JBool False) (c # t)
           else if c = CHR ''n'' then jsonWord ''null'' JNull (c # t)
           else if c = CHR ''-'' \<or> isDigit c then jsonNumber (c # t)
           else None))"
| "jsonElements 0 vs s = None"
| "jsonElements (Suc n) vs s =
     (case jsonValue n s of
        None \<Rightarrow> None
      | Some (v, r) \<Rightarrow>
          (case dropWhile isJsonBlank r of
             [] \<Rightarrow> None
           | d # q \<Rightarrow>
               (if d = CHR '','' then jsonElements n (vs @ [v]) q
                else if d = CHR '']'' then Some (JArr (vs @ [v]), q) else None)))"
| "jsonMembers 0 kvs s = None"
| "jsonMembers (Suc n) kvs s =
     (case dropWhile isJsonBlank s of
        [] \<Rightarrow> None
      | c # t \<Rightarrow>
          (if c \<noteq> CHR 0x22 then None
           else case jsonChars t of
                  None \<Rightarrow> None
                | Some (k, r) \<Rightarrow>
                    (case dropWhile isJsonBlank r of
                       [] \<Rightarrow> None
                     | d # q \<Rightarrow>
                         (if d \<noteq> CHR '':'' then None
                          else case jsonValue n q of
                                 None \<Rightarrow> None
                               | Some (v, p) \<Rightarrow>
                                   (case dropWhile isJsonBlank p of
                                      [] \<Rightarrow> None
                                    | e # z \<Rightarrow>
                                        (if e = CHR '','' then jsonMembers n (setProp k v kvs) z
                                         else if e = CHR ''}'' then Some (JObj (setProp k v kvs), z)
                                         else None))))))"

definition jsonParse :: "string \<Rightarrow> js result" where
  "jsonParse s =
     (case jsonValue (Suc (length s)) s of
        Some (v, r) \<Rightarrow>
          (if dropWhile isJsonBlank r = [] then Inr v
           else Inl (JsError ''SyntaxError'' ''Unexpected non-whitespace character after JSON''))
      | None \<Rightarrow> Inl (JsError ''SyntaxError'' ''Unexpected token in JSON''))"

lemma jsonValue_first:
  "jsonValue (Suc n) s = Some r \<Longrightarrow> \<exists>c t. dropWhile isJsonBlank s = c # t \<and> jsonFirst c"
  by (auto simp: jsonFirst_def split: list.splits if_splits)

interpretation std_json: json_parser jsonParse
proof
  fix s v
  assume "jsonParse s = Inr v"
  then obtain r where "jsonValue (Suc (length s)) s = Some (v, r)"
    unfolding jsonParse_def by (auto split: option.splits if_splits)
  then show "\<exists>c t. dropWhile isJsonBlank s = c # t \<and> jsonFirst c" by (rule jsonValue_first)
qed

lemma map_of_setProp: "map_of (setProp k v kvs) = (map_of kvs)(k \<mapsto> v)"
  by (induction k v kvs rule: setProp.induct) auto

lemma jsGet_setProp [js_simps]:
  "jsGet (JObj (setProp k v kvs)) k' = (if k' = k then Inr v else jsGet (JObj kvs) k')"
  by (simp add: map_of_setProp)

lemma fst_set_setProp: "fst ` set (setProp k v kvs) = insert k (fst ` set kvs)"
  by (induction k v kvs rule: setProp.induct) auto

text \<open>The rewrite rules by which the parser is evaluated on a literal.\<close>

lemmas json_eval_simps =
  jsonParse_def isJsonBlank_def isDigit_def jsonEscape_def jsonNumber_def jsonWord_def digitsVal_def
  digitVal_def startsWith_def toDouble_exact

end
