(* ===== verification/Lazy_Cell.thy ===== *)
theory Lazy_Cell
  imports Prelude
begin

text \<open>
  The self-replacing accessor properties \<^verbatim>\<open>decodedTx\<close> and \<^verbatim>\<open>decodedMsg\<close> of
  \<^verbatim>\<open>utils/cosmos.ts\<close>: the getter first deletes itself and then assigns the decoded value.  A
  cell is such a property: still the getter (with what its body will yield), replaced by a plain
  value, or deleted without replacement because the decoding threw.  Reading a deleted property
  yields \<^verbatim>\<open>undefined\<close>, here \<open>None\<close>.
\<close>

datatype 'v cell = Getter "'v result" | Value 'v | Deleted

fun force :: "'v cell \<Rightarrow> 'v option result \<times> 'v cell" where
  "force (Getter (Inr v)) = (Inr (Some v), Value v)"
| "force (Getter (Inl e)) = (Inl e, Deleted)"
| "force (Value v) = (Inr (Some v), Value v)"
| "force Deleted = (Inr None, Deleted)"

text \<open>What reads of the property amount to while none has failed: the decoded value or the error.\<close>

fun peek :: "'v cell \<Rightarrow> 'v option result" where
  "peek (Getter (Inr v)) = Inr (Some v)"
| "peek (Getter (Inl e)) = Inl e"
| "peek (Value v) = Inr (Some v)"
| "peek Deleted = Inr None"

text \<open>Reading the property \<open>n\<close> times, ignoring what is thrown.\<close>

fun forceN :: "nat \<Rightarrow> 'v cell \<Rightarrow> 'v cell" where
  "forceN 0 c = c"
| "forceN (Suc n) c = forceN n (snd (force c))"

text \<open>The number of times the body of the getter runs during those reads.\<close>

fun decodings :: "nat \<Rightarrow> 'v cell \<Rightarrow> nat" where
  "decodings 0 c = 0"
| "decodings (Suc n) c = (case c of Getter _ \<Rightarrow> 1 | _ \<Rightarrow> 0) + decodings n (snd (force c))"

lemma fst_force: "fst (force c) = peek c"
  by (cases c rule: force.cases) auto

lemma force_not_Getter: "snd (force c) \<noteq> Getter r"
  by (cases c rule: force.cases) auto

lemma force_idem: "force c = (Inr x, c') \<Longrightarrow> force c' = (Inr x, c')"
  by (cases c rule: force.cases) auto

lemma peek_force_Inr: "peek c = Inr x \<Longrightarrow> peek (snd (force c)) = Inr x"
  by (cases c rule: force.cases) auto

lemma force_error: "fst (force c) = Inl e \<Longrightarrow> snd (force c) = Deleted"
  by (cases c rule: force.cases) auto

lemma force_done: "(\<And>r. c \<noteq> Getter r) \<Longrightarrow> snd (force c) = c"
  by (cases c rule: force.cases) auto

lemma forceN_done: "(\<And>r. c \<noteq> Getter r) \<Longrightarrow> forceN n c = c"
  by (induction n) (simp_all add: force_done)

lemma decodings_done: "(\<And>r. c \<noteq> Getter r) \<Longrightarrow> decodings n c = 0"
  by (induction n) (simp_all add: force_done split: cell.splits)

lemma decodings_le_1: "decodings n c \<le> 1"
  by (cases n) (auto simp: decodings_done force_not_Getter split: cell.splits)

lemma forceN_Suc: "forceN (Suc n) c = snd (force c)"
  by (simp add: forceN_done force_not_Getter)

end
