(* ===== verification/Cosmos_Types.thy ===== *)
theory Cosmos_Types
  imports Js_Value Lazy_Cell
begin

text \<open>
  The data of \<^verbatim>\<open>packages/types/src\<close>: the chain data as Tendermint delivers it, the wrapped
  blocks, transactions, messages and events that handlers receive, the filters, handlers and
  data sources of a project.  Fields that no modelled operation reads are left out.
\<close>

section \<open>Chain data delivered by the Tendermint client\<close>

record BlockId =
  hash :: bytes

record Header =
  height :: int
  chainId :: string
  header_time :: int
  version_block :: int
  version_app :: int
  lastBlockId :: "BlockId option"

record TmBlock =
  block_header :: Header
  block_txs :: "bytes list"

record BlockResponse =
  resp_blockId :: BlockId
  resp_block :: TmBlock

record TmEvent =
  tm_type :: string
  tm_attributes :: "(string \<times> string) list"

record TxData =
  code :: int
  tx_log :: "string option"
  tx_events :: "TmEvent list"
  gasUsed :: int
  gasWanted :: int

record BlockResultsResponse =
  results :: "TxData list"
  res_beginBlockEvents :: "TmEvent list"
  res_endBlockEvents :: "TmEvent list"

record EncodeObject =
  any_typeUrl :: string
  any_value :: bytes

record DecodedTxRaw =
  body_messages :: "EncodeObject list"

record StargateEvent =
  event_type :: string
  attributes :: "(string \<times> string) list"

record RawLog =
  msg_index :: int
  log_events :: "StargateEvent list"

section \<open>Wrapped data handed to the handlers\<close>

record CosmosBlock =
  blockId :: BlockId
  block_id :: string
  block :: TmBlock
  header :: Header
  block_txData :: "TxData list"

text \<open>The plain fields of a wrapped transaction; its accessor \<^verbatim>\<open>decodedTx\<close> is kept beside them.\<close>

record CosmosTransaction =
  tx_idx :: nat
  tx_block :: CosmosBlock
  tx_hash :: string
  tx_data :: TxData

type_synonym tx_object = "CosmosTransaction \<times> DecodedTxRaw cell"

record CosmosMessage =
  msg_idx :: int
  msg_block :: CosmosBlock
  msg_tx :: CosmosTransaction
  typeUrl :: string
  decodedMsg :: "js cell"

text \<open>
  \<open>None\<close> stands for null (events of the begin and end of a block have no transaction, message
  and log) and for undefined (the message of an event that could not be located).
\<close>

record CosmosEvent =
  event_idx :: nat
  event_block :: CosmosBlock
  event_tx :: "CosmosTransaction option"
  event_msg :: "CosmosMessage option"
  event_log :: "RawLog option"
  event :: StargateEvent

section \<open>Kinds, filters and handlers\<close>

datatype CosmosHandlerKind = Block | Transaction | Message | Event

definition handlerKinds :: "CosmosHandlerKind list" where
  "handlerKinds = [Block, Transaction, Message, Event]"

fun kindValue :: "CosmosHandlerKind \<Rightarrow> string" where
  "kindValue Block = ''cosmos/BlockHandler''"
| "kindValue Transaction = ''cosmos/TransactionHandler''"
| "kindValue Message = ''cosmos/MessageHandler''"
| "kindValue Event = ''cosmos/EventHandler''"

definition RuntimeKind :: string where
  "RuntimeKind = ''cosmos/Runtime''"

record CosmosBlockFilter =
  modulo :: "int option"
  timestamp :: "string option"

record CosmosTxFilter =
  includeFailedTx :: bool

record CosmosMessageFilter = CosmosTxFilter +
  filter_type :: "string option"
  contractCall :: "string option"
  filter_values :: "(string \<times> js) list option"

record CosmosEventFilter =
  event_filter_type :: "string option"
  messageFilter :: "CosmosMessageFilter option"
  filter_attributes :: "(string \<times> js) list option"

text \<open>The filter object of a handler, or the base filter of a handler processor.\<close>

datatype handler_filter =
    BlockFilter CosmosBlockFilter
  | TxFilter CosmosTxFilter
  | MessageFilter CosmosMessageFilter
  | EventFilter CosmosEventFilter
  | CustomFilter js

text \<open>A parameter of type \<^verbatim>\<open>F | F[] | undefined\<close>.\<close>

datatype 'f one_or_many = Absent | One 'f | Many "'f list"

record CosmosHandler =
  kind :: string
  handler :: string
  handler_filter :: "handler_filter option"

record CosmosMapping =
  mapping_file :: string
  handlers :: "CosmosHandler list"

record Processor =
  processor_file :: string
  options :: "(string \<times> js) list"

record CosmosDatasource =
  ds_kind :: string
  startBlock :: "int option"
  mapping :: CosmosMapping
  processor :: "Processor option"
  assets :: "(string \<times> string) list option"

record DatasourceTemplate =
  template_name :: string
  template :: CosmosDatasource

lemma kindValue_inject [simp]: "kindValue a = kindValue b \<longleftrightarrow> a = b"
  by (cases a; cases b) simp_all

lemma kindValue_not_Runtime [simp]: "kindValue a \<noteq> RuntimeKind"
  by (cases a) (simp_all add: RuntimeKind_def)

lemma set_handlerKinds [simp]: "set handlerKinds = UNIV"
  by (auto simp: handlerKinds_def) (metis CosmosHandlerKind.exhaust)

end
