(* ===== verification/Samples.thy ===== *)
theory Samples
  imports Cosmos_Types
begin

text \<open>
  Small concrete chain data on which the witnesses of the properties are evaluated: a block at
  height 6 with two transactions, the first a successful contract execution, the second failed.
\<close>

definition sampleHeader :: Header where
  "sampleHeader =
     \<lparr>height = 6, chainId = ''juno-1'', header_time = 0, version_block = 11, version_app = 0,
      lastBlockId = None\<rparr>"

definition sampleTmBlock :: TmBlock where
  "sampleTmBlock = \<lparr>block_header = sampleHeader, block_txs = [[1, 2], [3]]\<rparr>"

definition okTx :: TxData where
  "okTx = \<lparr>code = 0, tx_log = Some ''ok'', tx_events = [], gasUsed = 1, gasWanted = 2\<rparr>"

definition failedTx :: TxData where
  "failedTx = \<lparr>code = 5, tx_log = Some ''out of gas'', tx_events = [], gasUsed = 2, gasWanted = 2\<rparr>"

definition sampleBlock :: CosmosBlock where
  "sampleBlock =
     \<lparr>blockId = \<lparr>hash = [10]\<rparr>, block_id = ''0A'', block = sampleTmBlock, header = sampleHeader,
      block_txData = [okTx, failedTx]\<rparr>"

definition sampleTx :: CosmosTransaction where
  "sampleTx = \<lparr>tx_idx = 0, tx_block = sampleBlock, tx_hash = ''AB'', tx_data = okTx\<rparr>"

definition sampleFailedTx :: CosmosTransaction where
  "sampleFailedTx = \<lparr>tx_idx = 1, tx_block = sampleBlock, tx_hash = ''CD'', tx_data = failedTx\<rparr>"

text \<open>A swap on a contract: \<^verbatim>\<open>{contract, codeId, msg: {swap: {input_token: 'Token1'}}}\<close>.\<close>

definition swapMsg :: js where
  "swapMsg =
     JObj [(''contract'', JStr ''juno1''), (''codeId'', JLong True 4),
           (''msg'', JObj [(''swap'', JObj [(''input_token'', JStr ''Token1'')])])]"

definition swapMessage :: CosmosMessage where
  "swapMessage =
     \<lparr>msg_idx = 0, msg_block = sampleBlock, msg_tx = sampleTx,
      typeUrl = ''/cosmwasm.wasm.v1.MsgExecuteContract'', decodedMsg = Getter (Inr swapMsg)\<rparr>"

definition failedMessage :: CosmosMessage where
  "failedMessage = swapMessage\<lparr>msg_tx := sampleFailedTx\<rparr>"

definition execFilter :: "string option \<Rightarrow> (string \<times> js) list option \<Rightarrow> CosmosMessageFilter" where
  "execFilter cc vs =
     \<lparr>includeFailedTx = False, filter_type = Some ''/cosmwasm.wasm.v1.MsgExecuteContract'',
      contractCall = cc, filter_values = vs\<rparr>"

definition wasmEvent :: CosmosEvent where
  "wasmEvent =
     \<lparr>event_idx = 0, event_block = sampleBlock, event_tx = Some sampleTx,
      event_msg = Some swapMessage, event_log = None,
      event = \<lparr>event_type = ''wasm'', attributes = [(''action'', ''swap''), (''amount'', ''7'')]\<rparr>\<rparr>"

lemmas sample_defs =
  sampleHeader_def sampleTmBlock_def okTx_def failedTx_def sampleBlock_def sampleTx_def
  sampleFailedTx_def swapMsg_def swapMessage_def failedMessage_def execFilter_def wasmEvent_def

end
