(* ===== verification/Filters.thy ===== *)
theory Filters
  imports Samples
begin

text \<open>
  The handler filters of \<^verbatim>\<open>packages/node/src/utils/cosmos.ts\<close>.  A filter may force the lazily
  decoded message, so the filters return, beside their verdict, the state the accessor property
  is left in.  The predicates of the packages \<^verbatim>\<open>long\<close> and \<^verbatim>\<open>lodash\<close> are parameters; the locale
  \<open>value_library\<close> states what their documentation promises.
\<close>

record value_lib =
  isLong :: "js \<Rightarrow> bool"
  toNumber :: "js \<Rightarrow> js"
  longToString :: "js \<Rightarrow> string"
  isObjectLike :: "js \<Rightarrow> bool"

section \<open>Filters of blocks and transactions\<close>

definition filterBlock :: "CosmosBlock \<Rightarrow> CosmosBlockFilter option \<Rightarrow> bool" where
  "filterBlock data filt =
     (case filt of
        None \<Rightarrow> True
      | Some f \<Rightarrow>
          (case modulo f of
             None \<Rightarrow> True
           | Some m \<Rightarrow>
               (if m \<noteq> 0 \<and> jsRem (height (block_header (block data))) m \<noteq> Some 0
                then False else True)))"

definition filterTx :: "CosmosTransaction \<Rightarrow> 'x CosmosTxFilter_scheme option \<Rightarrow> bool" where
  "filterTx data filt =
     (if (case filt of None \<Rightarrow> True | Some f \<Rightarrow> \<not> includeFailedTx f) \<and> code (tx_data data) \<noteq> 0
      then False else True)"

section \<open>Filters of messages\<close>

definition MsgExecuteContract :: string where
  "MsgExecuteContract = ''/cosmwasm.wasm.v1.MsgExecuteContract''"

text \<open>The value of the accessor property: \<^verbatim>\<open>undefined\<close> once it has been deleted.\<close>

definition orUndefined :: "js option \<Rightarrow> js" where
  "orUndefined d = (case d of None \<Rightarrow> JUndefined | Some v \<Rightarrow> v)"

definition stringifyLong :: "value_lib \<Rightarrow> js \<Rightarrow> js \<Rightarrow> js" where
  "stringifyLong L v x =
     (if isLong L x then (if isNumber v then toNumber L x else JStr (longToString L x)) else x)"

fun filterValues :: "value_lib \<Rightarrow> (string \<times> js) list \<Rightarrow> js cell \<Rightarrow> bool result \<times> js cell" where
  "filterValues L [] c = (Inr True, c)"
| "filterValues L ((key, v) # kvs) c =
     (case force c of
        (Inl e, c') \<Rightarrow> (Inl e, c')
      | (Inr d, c') \<Rightarrow>
          (case jsPath (orUndefined d) (splitOn (CHR ''.'') key) of
             Inl e \<Rightarrow> (Inl e, c')
           | Inr x \<Rightarrow>
               (if \<not> strictEq v (stringifyLong L v x) then (Inr False, c')
                else filterValues L kvs c')))"

definition callMatches :: "value_lib \<Rightarrow> string \<Rightarrow> js \<Rightarrow> bool" where
  "callMatches L cc msg = (strictEq (JStr cc) msg \<or> (isObjectLike L msg \<and> jsIn cc msg))"

text \<open>The last test; the repeated reads of the property after the first change nothing.\<close>

definition filterCall :: "value_lib \<Rightarrow> CosmosMessageFilter \<Rightarrow> js cell \<Rightarrow> bool result \<times> js cell" where
  "filterCall L f c =
     (case contractCall f of
        Some cc \<Rightarrow>
          (if filter_type f = Some MsgExecuteContract \<and> cc \<noteq> []
           then (case force c of
                   (Inl e, c') \<Rightarrow> (Inl e, c')
                 | (Inr d, c') \<Rightarrow>
                     (case jsGet (orUndefined d) ''msg'' of
                        Inl e \<Rightarrow> (Inl e, c')
                      | Inr msg \<Rightarrow> (if \<not> callMatches L cc msg then (Inr False, c') else (Inr True, c'))))
           else (Inr True, c))
      | None \<Rightarrow> (Inr True, c))"

definition filterMessageData ::
    "value_lib \<Rightarrow> CosmosMessage \<Rightarrow> CosmosMessageFilter option \<Rightarrow> bool result \<times> js cell" where
  "filterMessageData L data filt =
     (case filt of
        None \<Rightarrow> (Inr True, decodedMsg data)
      | Some f \<Rightarrow>
          (if \<not> filterTx (msg_tx data) (Some f) then (Inr False, decodedMsg data)
           else if filter_type f \<noteq> Some (typeUrl data) then (Inr False, decodedMsg data)
           else
             (case (case filter_values f of
                      None \<Rightarrow> (Inr True, decodedMsg data)
                    | Some kvs \<Rightarrow> filterValues L kvs (decodedMsg data)) of
                (Inl e, c) \<Rightarrow> (Inl e, c)
              | (Inr False, c) \<Rightarrow> (Inr False, c)
              | (Inr True, c) \<Rightarrow> filterCall L f c)))"

text \<open>\<^verbatim>\<open>filters.find(f => test(x, f))\<close>, where the test may throw and update the tested object.\<close>

fun findFilter :: "('a \<Rightarrow> 'f \<Rightarrow> bool result \<times> 'a) \<Rightarrow> 'a \<Rightarrow> 'f list \<Rightarrow> bool result \<times> 'a" where
  "findFilter t x [] = (Inr False, x)"
| "findFilter t x (f # fs) =
     (case t x f of
        (Inl e, x') \<Rightarrow> (Inl e, x')
      | (Inr True, x') \<Rightarrow> (Inr True, x')
      | (Inr False, x') \<Rightarrow> findFilter t x' fs)"

text \<open>\<^verbatim>\<open>xs.filter(p)\<close>: the kept elements, and the array with its elements as \<open>p\<close> left them.\<close>

fun filterArray :: "('a \<Rightarrow> bool result \<times> 'a) \<Rightarrow> 'a list \<Rightarrow> 'a list result \<times> 'a list" where
  "filterArray p [] = (Inr [], [])"
| "filterArray p (x # xs) =
     (case p x of
        (Inl e, x') \<Rightarrow> (Inl e, x' # xs)
      | (Inr b, x') \<Rightarrow>
          (case filterArray p xs of
             (Inl e, xs') \<Rightarrow> (Inl e, x' # xs')
           | (Inr ys, xs') \<Rightarrow> (Inr (if b then x' # ys else ys), x' # xs')))"

definition asFilters :: "'f one_or_many \<Rightarrow> 'f list" where
  "asFilters fo = (case fo of Absent \<Rightarrow> [] | One f \<Rightarrow> [f] | Many fs \<Rightarrow> fs)"

definition testMessage ::
    "value_lib \<Rightarrow> CosmosMessage \<Rightarrow> CosmosMessageFilter \<Rightarrow> bool result \<times> CosmosMessage" where
  "testMessage L m f = (case filterMessageData L m (Some f) of (r, c) \<Rightarrow> (r, m\<lparr>decodedMsg := c\<rparr>))"

definition filterMessages ::
    "value_lib \<Rightarrow> CosmosMessage list option \<Rightarrow> CosmosMessageFilter one_or_many \<Rightarrow>
     CosmosMessage list result \<times> CosmosMessage list" where
  "filterMessages L messages fo =
     (case messages of
        None \<Rightarrow> (Inr [], [])
      | Some ms \<Rightarrow>
          (if asFilters fo = [] then (Inr ms, ms)
           else filterArray (\<lambda>m. findFilter (testMessage L) m (asFilters fo)) ms))"

section \<open>Filters of events\<close>

fun filterAttributes :: "(string \<times> string) list \<Rightarrow> (string \<times> js) list \<Rightarrow> bool" where
  "filterAttributes attrs [] = True"
| "filterAttributes attrs ((filterKey, v) # fs) =
     (if \<not> list_ex (\<lambda>(key, val). key = filterKey \<and> strictEq (JStr val) v) attrs then False
      else filterAttributes attrs fs)"

definition filterEventMessage ::
    "value_lib \<Rightarrow> CosmosEvent \<Rightarrow> CosmosEventFilter \<Rightarrow> bool result \<times> CosmosEvent" where
  "filterEventMessage L evt f =
     (case messageFilter f of
        None \<Rightarrow> (Inr True, evt)
      | Some mf \<Rightarrow>
          (case event_msg evt of
             None \<Rightarrow> (Inr False, evt)
           | Some m \<Rightarrow>
               (case filterMessageData L m (Some mf) of
                  (r, c) \<Rightarrow> (r, evt\<lparr>event_msg := Some (m\<lparr>decodedMsg := c\<rparr>)\<rparr>))))"

definition filterEvent ::
    "value_lib \<Rightarrow> CosmosEvent \<Rightarrow> CosmosEventFilter option \<Rightarrow> bool result \<times> CosmosEvent" where
  "filterEvent L evt filt =
     (case filt of
        None \<Rightarrow> (Inr True, evt)
      | Some f \<Rightarrow>
          (if event_filter_type f \<noteq> Some (event_type (event evt)) then (Inr False, evt)
           else
             (case filterEventMessage L evt f of
                (Inl e, evt') \<Rightarrow> (Inl e, evt')
              | (Inr False, evt') \<Rightarrow> (Inr False, evt')
              | (Inr True, evt') \<Rightarrow>
                  (Inr (case filter_attributes f of
                          None \<Rightarrow> True
                        | Some fs \<Rightarrow> filterAttributes (attributes (event evt)) fs), evt'))))"

definition filterEvents ::
    "value_lib \<Rightarrow> CosmosEvent list \<Rightarrow> CosmosEventFilter one_or_many \<Rightarrow>
     CosmosEvent list result \<times> CosmosEvent list" where
  "filterEvents L events fo =
     (if asFilters fo = [] then (Inr events, events)
      else filterArray (\<lambda>e. findFilter (\<lambda>x f. filterEvent L x (Some f)) e (asFilters fo)) events)"

section \<open>What a filter means\<close>

text \<open>
  The declarative reading of the filters, without order of evaluation and without state: which
  messages and events a filter selects.
\<close>

definition coerceLong :: "js \<Rightarrow> js \<Rightarrow> js" where
  "coerceLong v x =
     (case x of
        JLong u n \<Rightarrow> (if isNumber v then JNum (toDouble n) else JStr (numberToString n))
      | _ \<Rightarrow> x)"

definition valueHolds :: "js \<Rightarrow> string \<times> js \<Rightarrow> bool" where
  "valueHolds d kv =
     (case jsPath d (splitOn (CHR ''.'') (fst kv)) of
        Inl e \<Rightarrow> False
      | Inr x \<Rightarrow> strictEq (snd kv) (coerceLong (snd kv) x))"

definition callHolds :: "string \<Rightarrow> js \<Rightarrow> bool" where
  "callHolds cc d =
     (case jsGet d ''msg'' of
        Inl e \<Rightarrow> False
      | Inr m \<Rightarrow> m = JStr cc \<or> (isTypeofObject m \<and> m \<noteq> JNull \<and> jsIn cc m))"

definition decoded :: "CosmosMessage \<Rightarrow> js result" where
  "decoded m = rbind (peek (decodedMsg m)) (\<lambda>d. Inr (orUndefined d))"

definition onDecoded :: "CosmosMessage \<Rightarrow> (js \<Rightarrow> bool) \<Rightarrow> bool" where
  "onDecoded m P = (case decoded m of Inl e \<Rightarrow> False | Inr d \<Rightarrow> P d)"

definition requiredValues :: "CosmosMessageFilter \<Rightarrow> (string \<times> js) list" where
  "requiredValues f = (case filter_values f of None \<Rightarrow> [] | Some kvs \<Rightarrow> kvs)"

definition requiredCall :: "CosmosMessageFilter \<Rightarrow> string option" where
  "requiredCall f =
     (case contractCall f of
        Some cc \<Rightarrow> (if filter_type f = Some MsgExecuteContract \<and> cc \<noteq> [] then Some cc else None)
      | None \<Rightarrow> None)"

definition txAccepted :: "CosmosMessageFilter \<Rightarrow> CosmosMessage \<Rightarrow> bool" where
  "txAccepted f m = (includeFailedTx f \<or> code (tx_data (msg_tx m)) = 0)"

definition messageMatches :: "CosmosMessageFilter \<Rightarrow> CosmosMessage \<Rightarrow> bool" where
  "messageMatches f m =
     (txAccepted f m \<and> filter_type f = Some (typeUrl m) \<and>
      list_all (\<lambda>kv. onDecoded m (\<lambda>d. valueHolds d kv)) (requiredValues f) \<and>
      (case requiredCall f of None \<Rightarrow> True | Some cc \<Rightarrow> onDecoded m (callHolds cc)))"

definition eventMatches :: "CosmosEventFilter \<Rightarrow> CosmosEvent \<Rightarrow> bool" where
  "eventMatches f e =
     (event_filter_type f = Some (event_type (event e)) \<and>
      (case messageFilter f of
         None \<Rightarrow> True
       | Some mf \<Rightarrow> (case event_msg e of None \<Rightarrow> False | Some m \<Rightarrow> messageMatches mf m)) \<and>
      list_all (\<lambda>(k, v). list_ex (\<lambda>(key, val). key = k \<and> v = JStr val) (attributes (event e)))
        (case filter_attributes f of None \<Rightarrow> [] | Some fs \<Rightarrow> fs))"

text \<open>A message or an event up to the state of its accessor property.\<close>

definition plainMessage :: "CosmosMessage \<Rightarrow> CosmosMessage" where
  "plainMessage m = m\<lparr>decodedMsg := Deleted\<rparr>"

definition plainEvent :: "CosmosEvent \<Rightarrow> CosmosEvent" where
  "plainEvent e = e\<lparr>event_msg := map_option plainMessage (event_msg e)\<rparr>"

section \<open>The contract of the libraries\<close>

locale value_library =
  fixes L :: value_lib
  assumes isLong_iff: "isLong L v \<longleftrightarrow> (\<exists>u n. v = JLong u n)"
    and toNumber_Long: "toNumber L (JLong u n) = JNum (toDouble n)"
    and longToString_Long: "longToString L (JLong u n) = numberToString n"
    and isObjectLike_iff: "isObjectLike L v \<longleftrightarrow> v \<noteq> JNull \<and> isTypeofObject v"
begin

lemma stringifyLong_coerce: "stringifyLong L v x = coerceLong v x"
  by (cases x)
    (auto simp: stringifyLong_def coerceLong_def isLong_iff toNumber_Long longToString_Long)

lemma callMatches_iff: "callMatches L cc m \<longleftrightarrow> m = JStr cc \<or> (isTypeofObject m \<and> m \<noteq> JNull \<and> jsIn cc m)"
  by (auto simp: callMatches_def isObjectLike_iff strictEq_JStr)

end

text \<open>A reference implementation of the documented behaviour.\<close>

definition std_value_lib :: value_lib where
  "std_value_lib =
     \<lparr>isLong = (\<lambda>v. case v of JLong u n \<Rightarrow> True | _ \<Rightarrow> False),
      toNumber = (\<lambda>v. case v of JLong u n \<Rightarrow> JNum (toDouble n) | _ \<Rightarrow> v),
      longToString = (\<lambda>v. case v of JLong u n \<Rightarrow> numberToString n | _ \<Rightarrow> []),
      isObjectLike = (\<lambda>v. v \<noteq> JNull \<and> isTypeofObject v)\<rparr>"

interpretation std_values: value_library std_value_lib
  by unfold_locales (auto simp: std_value_lib_def split: js.splits)

section \<open>Evaluation without state\<close>

fun evalValues :: "value_lib \<Rightarrow> (string \<times> js) list \<Rightarrow> js \<Rightarrow> bool result" where
  "evalValues L [] d = Inr True"
| "evalValues L ((key, v) # kvs) d =
     rbind (jsPath d (splitOn (CHR ''.'') key))
       (\<lambda>x. if strictEq v (stringifyLong L v x) then evalValues L kvs d else Inr False)"

definition evalCall :: "value_lib \<Rightarrow> string \<Rightarrow> js \<Rightarrow> bool result" where
  "evalCall L cc d = rbind (jsGet d ''msg'') (\<lambda>m. Inr (callMatches L cc m))"

lemma filterValues_state: "snd (filterValues L kvs c) = (if kvs = [] then c else snd (force c))"
proof (induction kvs arbitrary: c)
  case (Cons kv kvs)
  obtain key v where kv: "kv = (key, v)" by (cases kv)
  show ?case
    by (cases c rule: force.cases)
      (simp_all add: kv Cons.IH split: sum.splits if_splits)
qed simp

lemma filterValues_eval:
  "kvs \<noteq> [] \<Longrightarrow>
   fst (filterValues L kvs c) = rbind (peek c) (\<lambda>d. evalValues L kvs (orUndefined d))"
proof (induction kvs arbitrary: c)
  case (Cons kv kvs)
  obtain key v where kv: "kv = (key, v)" by (cases kv)
  show ?case
  proof (cases "kvs = []")
    case True
    then show ?thesis
      by (cases c rule: force.cases) (auto simp: kv split: sum.splits)
  next
    case False
    then have IH: "fst (filterValues L kvs c') =
        rbind (peek c') (\<lambda>d. evalValues L kvs (orUndefined d))" for c'
      by (rule Cons.IH)
    show ?thesis
      by (cases c rule: force.cases) (auto simp: kv IH split: sum.splits)
  qed
qed simp

lemma filterCall_eval:
  "filterCall L f c =
     (case requiredCall f of
        None \<Rightarrow> (Inr True, c)
      | Some cc \<Rightarrow> (rbind (peek c) (\<lambda>d. evalCall L cc (orUndefined d)), snd (force c)))"
  by (cases c rule: force.cases)
    (auto simp: filterCall_def requiredCall_def evalCall_def split: option.splits sum.splits)

definition preliminary :: "CosmosMessageFilter \<Rightarrow> CosmosMessage \<Rightarrow> bool" where
  "preliminary f m = (txAccepted f m \<and> filter_type f = Some (typeUrl m))"

definition readsMessage :: "CosmosMessageFilter \<Rightarrow> bool" where
  "readsMessage f = (requiredValues f \<noteq> [] \<or> requiredCall f \<noteq> None)"

definition messageVerdict :: "value_lib \<Rightarrow> CosmosMessageFilter \<Rightarrow> CosmosMessage \<Rightarrow> bool result" where
  "messageVerdict L f m =
     rbind (if requiredValues f = [] then Inr True
            else rbind (decoded m) (evalValues L (requiredValues f)))
       (\<lambda>b. if \<not> b then Inr False
            else case requiredCall f of
                   None \<Rightarrow> Inr True
                 | Some cc \<Rightarrow> rbind (decoded m) (evalCall L cc))"

lemma filterTx_Some: "filterTx (msg_tx m) (Some f) \<longleftrightarrow> txAccepted f m"
  by (simp add: filterTx_def txAccepted_def)

lemma valuesPhase:
  "(case filter_values f of None \<Rightarrow> (Inr True, c) | Some kvs \<Rightarrow> filterValues L kvs c) =
   (if requiredValues f = [] then Inr True
    else rbind (peek c) (\<lambda>d. evalValues L (requiredValues f) (orUndefined d)),
    if requiredValues f = [] then c else snd (force c))"
  by (auto simp: requiredValues_def filterValues_eval filterValues_state
      intro: prod_eqI split: option.splits)

lemma filterMessageData_eval:
  "filterMessageData L m (Some f) =
     (if \<not> preliminary f m then (Inr False, decodedMsg m)
      else (messageVerdict L f m,
            if readsMessage f then snd (force (decodedMsg m)) else decodedMsg m))"
proof (cases "preliminary f m")
  case False
  then show ?thesis
    by (simp add: filterMessageData_def filterTx_Some preliminary_def)
next
  case True
  then show ?thesis
    by (cases "decodedMsg m" rule: force.cases)
      (auto simp: filterMessageData_def filterTx_Some preliminary_def valuesPhase filterCall_eval
        messageVerdict_def readsMessage_def decoded_def result_simps
        split: sum.splits bool.splits option.splits)
qed

lemma filterMessageData_rejects:
  "\<not> preliminary f m \<Longrightarrow> filterMessageData L m (Some f) = (Inr False, decodedMsg m)"
  by (simp add: filterMessageData_eval)

lemma verdict_decoded:
  assumes "readsMessage f" and "messageVerdict L f m = Inr b"
  shows "\<exists>d. peek (decodedMsg m) = Inr d"
  using assms
  by (cases "peek (decodedMsg m)")
    (auto simp: readsMessage_def messageVerdict_def decoded_def split: if_splits)

lemma decoded_after:
  assumes "filterMessageData L m (Some f) = (Inr b, c)"
  shows "peek c = peek (decodedMsg m)"
proof (cases "preliminary f m \<and> readsMessage f")
  case True
  with assms have "messageVerdict L f m = Inr b" and c: "c = snd (force (decodedMsg m))"
    by (simp_all add: filterMessageData_eval)
  with True obtain d where "peek (decodedMsg m) = Inr d" using verdict_decoded by blast
  with c show ?thesis by (simp add: peek_force_Inr)
next
  case False
  with assms show ?thesis by (auto simp: filterMessageData_eval split: if_splits)
qed

context value_library
begin

lemma evalValues_True: "evalValues L kvs d = Inr True \<longleftrightarrow> list_all (valueHolds d) kvs"
proof (induction kvs)
  case (Cons kv kvs)
  obtain key v where "kv = (key, v)" by (cases kv)
  with Cons show ?case
    by (cases "jsPath d (splitOn (CHR ''.'') key)")
      (auto simp: valueHolds_def stringifyLong_coerce)
qed simp

lemma evalCall_True: "evalCall L cc d = Inr True \<longleftrightarrow> callHolds cc d"
  by (auto simp: evalCall_def callHolds_def callMatches_iff result_simps split: sum.splits)

lemma verdict_True:
  "messageVerdict L f m = Inr True \<longleftrightarrow>
     list_all (\<lambda>kv. onDecoded m (\<lambda>d. valueHolds d kv)) (requiredValues f) \<and>
     (case requiredCall f of None \<Rightarrow> True | Some cc \<Rightarrow> onDecoded m (callHolds cc))"
  by (cases "decoded m"; cases "requiredCall f"; cases "requiredValues f")
    (auto simp: messageVerdict_def onDecoded_def evalValues_True evalCall_True result_simps
      simp del: evalValues.simps split: if_splits)

lemma message_filter_iff:
  "fst (filterMessageData L m (Some f)) = Inr True \<longleftrightarrow> messageMatches f m"
  by (auto simp: filterMessageData_eval messageMatches_def verdict_True preliminary_def)

lemma message_filter_Inr:
  "filterMessageData L m (Some f) = (Inr b, c) \<Longrightarrow> b \<longleftrightarrow> messageMatches f m"
  using message_filter_iff [of m f] by (cases b) auto

end

section \<open>Selection from an array by any of several filters\<close>

text \<open>
  The interface \<^verbatim>\<open>filterMessages\<close> and \<^verbatim>\<open>filterEvents\<close> rely on: a test of one object by one filter
  whose verdict agrees with a matching relation, and which changes nothing of the object that a
  filter or a handler can tell.
\<close>

locale object_filter =
  fixes test :: "'a \<Rightarrow> 'f \<Rightarrow> bool result \<times> 'a"
    and matches :: "'f \<Rightarrow> 'a \<Rightarrow> bool"
    and plain :: "'a \<Rightarrow> 'a"
  assumes verdict: "test x f = (Inr b, x') \<Longrightarrow> b \<longleftrightarrow> matches f x"
    and keeps_matches: "test x f = (Inr b, x') \<Longrightarrow> matches g x' \<longleftrightarrow> matches g x"
    and keeps_plain: "test x f = (Inr b, x') \<Longrightarrow> plain x' = plain x"
begin

lemma find_correct:
  "findFilter test x fs = (Inr b, x') \<Longrightarrow>
   (b \<longleftrightarrow> list_ex (\<lambda>f. matches f x) fs) \<and> plain x' = plain x"
proof (induction fs arbitrary: x)
  case (Cons f fs)
  obtain r x1 where t: "test x f = (r, x1)" by fastforce
  show ?case
  proof (cases r)
    case (Inl e)
    with t Cons.prems show ?thesis by simp
  next
    case (Inr b1)
    with t have *: "test x f = (Inr b1, x1)" by simp
    have same: "(\<lambda>g. matches g x1) = (\<lambda>g. matches g x)"
      using keeps_matches [OF *] by blast
    show ?thesis
      using * Cons.prems Cons.IH [of x1] verdict [OF *] keeps_plain [OF *] same
      by (cases b1) auto
  qed
qed simp

lemma filterArray_correct:
  "fst (filterArray (\<lambda>x. findFilter test x fs) xs) = Inr ys \<Longrightarrow>
   map plain ys = map plain (filter (\<lambda>x. list_ex (\<lambda>f. matches f x) fs) xs)"
proof (induction xs arbitrary: ys)
  case (Cons x xs)
  obtain r x1 where f: "findFilter test x fs = (r, x1)" by fastforce
  obtain q xs1 where a: "filterArray (\<lambda>x. findFilter test x fs) xs = (q, xs1)" by fastforce
  from Cons.prems f a obtain b zs where
    "r = Inr b" and "q = Inr zs" and "ys = (if b then x1 # zs else zs)"
    by (auto split: sum.splits)
  with Cons.IH [of zs] find_correct [of x fs b x1] f a show ?case by auto
qed simp

lemma filterArray_array:
  "filterArray (\<lambda>x. findFilter test x fs) xs = (Inr ys, xs') \<Longrightarrow> map plain xs' = map plain xs"
proof (induction xs arbitrary: ys xs')
  case (Cons x xs)
  obtain r x1 where f: "findFilter test x fs = (r, x1)" by fastforce
  from Cons.prems f obtain b zs xs1 where "r = Inr b"
    and "filterArray (\<lambda>x. findFilter test x fs) xs = (Inr zs, xs1)" and "xs' = x1 # xs1"
    by (auto split: sum.splits prod.splits)
  with Cons.IH [of zs xs1] find_correct [of x fs b x1] f show ?case by auto
qed simp

end

lemma messageMatches_cong:
  "peek c = peek (decodedMsg m) \<Longrightarrow> messageMatches f (m\<lparr>decodedMsg := c\<rparr>) = messageMatches f m"
proof -
  assume "peek c = peek (decodedMsg m)"
  then have "onDecoded (m\<lparr>decodedMsg := c\<rparr>) P = onDecoded m P" for P
    by (simp add: onDecoded_def decoded_def)
  then show ?thesis by (simp add: messageMatches_def txAccepted_def split: option.split)
qed

sublocale value_library \<subseteq> messages: object_filter "testMessage L" messageMatches plainMessage
proof
  fix x f b x' g
  assume t: "testMessage L x f = (Inr b, x')"
  then obtain c where c: "filterMessageData L x (Some f) = (Inr b, c)" "x' = x\<lparr>decodedMsg := c\<rparr>"
    by (auto simp: testMessage_def split: prod.splits)
  then show "b \<longleftrightarrow> messageMatches f x" by (simp add: message_filter_Inr)
  show "messageMatches g x' \<longleftrightarrow> messageMatches g x"
    using c decoded_after [OF c(1)] by (simp add: messageMatches_cong)
  show "plainMessage x' = plainMessage x"
    using c by (simp add: plainMessage_def)
qed

lemma filterAttributes_iff:
  "filterAttributes attrs fs \<longleftrightarrow>
   list_all (\<lambda>(k, v). list_ex (\<lambda>(key, val). key = k \<and> v = JStr val) attrs) fs"
  by (induction attrs fs rule: filterAttributes.induct)
    (auto simp: strictEq_JStr list_ex_iff)

context value_library
begin

lemma filterEventMessage_Inr:
  assumes "filterEventMessage L e f = (Inr b, e')"
  shows "(b \<longleftrightarrow> (case messageFilter f of None \<Rightarrow> True
            | Some mf \<Rightarrow> (case event_msg e of None \<Rightarrow> False | Some m \<Rightarrow> messageMatches mf m)))
       \<and> (\<forall>g. eventMatches g e' \<longleftrightarrow> eventMatches g e) \<and> plainEvent e' = plainEvent e
       \<and> event e' = event e"
proof (cases "messageFilter f")
  case None
  with assms show ?thesis by (auto simp: filterEventMessage_def)
next
  case mf: (Some mf)
  show ?thesis
  proof (cases "event_msg e")
    case None
    with mf assms show ?thesis by (auto simp: filterEventMessage_def)
  next
    case (Some m)
    obtain r c where rc: "filterMessageData L m (Some mf) = (r, c)" by fastforce
    with Some mf assms have r: "r = Inr b" and e': "e' = e\<lparr>event_msg := Some (m\<lparr>decodedMsg := c\<rparr>)\<rparr>"
      by (auto simp: filterEventMessage_def)
    with rc Some mf show ?thesis
      by (auto simp: message_filter_Inr eventMatches_def messageMatches_cong decoded_after
          plainEvent_def plainMessage_def split: option.splits)
  qed
qed

lemma event_filter_Inr:
  assumes "filterEvent L e (Some f) = (Inr b, e')"
  shows "(b \<longleftrightarrow> eventMatches f e) \<and> (\<forall>g. eventMatches g e' \<longleftrightarrow> eventMatches g e)
       \<and> plainEvent e' = plainEvent e"
proof (cases "event_filter_type f = Some (event_type (event e))")
  case False
  with assms show ?thesis by (auto simp: filterEvent_def eventMatches_def)
next
  case True
  obtain r e1 where m: "filterEventMessage L e f = (r, e1)" by fastforce
  with True assms obtain b1 where "r = Inr b1"
    by (cases r) (auto simp: filterEvent_def)
  with m have *: "filterEventMessage L e f = (Inr b1, e1)" by simp
  note fm = filterEventMessage_Inr [OF *]
  from True assms * have e': "e' = e1" and
    b: "b \<longleftrightarrow> b1 \<and> list_all (\<lambda>(k, v). list_ex (\<lambda>(key, val). key = k \<and> v = JStr val)
            (attributes (event e))) (case filter_attributes f of None \<Rightarrow> [] | Some fs \<Rightarrow> fs)"
    by (cases b1; auto simp: filterEvent_def filterAttributes_iff split: option.splits)+
  with True fm have "b \<longleftrightarrow> eventMatches f e" by (simp add: eventMatches_def)
  with fm e' show ?thesis by blast
qed

end

sublocale value_library \<subseteq> events: object_filter
    "\<lambda>x f. filterEvent L x (Some f)" eventMatches plainEvent
  by unfold_locales (auto dest: event_filter_Inr)

definition selectedBy :: "('f \<Rightarrow> 'a \<Rightarrow> bool) \<Rightarrow> 'f list \<Rightarrow> 'a \<Rightarrow> bool" where
  "selectedBy matches fs x = (fs = [] \<or> list_ex (\<lambda>f. matches f x) fs)"

lemma selectedBy_Nil [simp]: "selectedBy matches [] = (\<lambda>x. True)"
  by (simp add: selectedBy_def fun_eq_iff)

lemma selectedBy_some: "fs \<noteq> [] \<Longrightarrow> selectedBy matches fs = (\<lambda>x. list_ex (\<lambda>f. matches f x) fs)"
  by (simp add: selectedBy_def fun_eq_iff)

context value_library
begin

lemma messages_selected:
  "fst (filterMessages L (Some ms) fo) = Inr ys \<Longrightarrow>
   map plainMessage ys = map plainMessage (filter (selectedBy messageMatches (asFilters fo)) ms)"
  by (cases "asFilters fo = []")
    (simp_all add: filterMessages_def selectedBy_some messages.filterArray_correct)

lemma events_selected:
  "fst (filterEvents L es fo) = Inr ys \<Longrightarrow>
   map plainEvent ys = map plainEvent (filter (selectedBy eventMatches (asFilters fo)) es)"
  by (cases "asFilters fo = []")
    (simp_all add: filterEvents_def selectedBy_some events.filterArray_correct)

end

section \<open>Properties\<close>

lemmas filter_eval_defs =
  sample_defs std_value_lib_def MsgExecuteContract_def messageMatches_def txAccepted_def
  requiredValues_def requiredCall_def onDecoded_def decoded_def orUndefined_def valueHolds_def
  coerceLong_def callHolds_def inherited_def objectPrototype_def

text \<open>
  C4: A message passes \<^verbatim>\<open>filterMessageData\<close> exactly when its transaction succeeded (or failed ones
  are included), its type is the filter's, every dotted path of \<^verbatim>\<open>values\<close> leads in the decoded
  message to the required value (a \<^verbatim>\<open>Long\<close> compared as number or as decimal string according to
  the filter value), and, for contract executions, the call is the message or one of its keys.
\<close>

theorem filterMessageData_iff:
  assumes "value_library L"
  shows "fst (filterMessageData L m (Some f)) = Inr True \<longleftrightarrow> messageMatches f m"
  using assms by (rule value_library.message_filter_iff)

theorem filterMessageData_iff_witness:
  "fst (filterMessageData std_value_lib swapMessage
     (Some (execFilter (Some ''swap'') (Some [(''msg.swap.input_token'', JStr ''Token1''),
                                              (''codeId'', JNum 4)])))) = Inr True"
proof -
  have "messageMatches (execFilter (Some ''swap'') (Some [(''msg.swap.input_token'', JStr ''Token1''),
      (''codeId'', JNum 4)])) swapMessage"
    by (simp add: filter_eval_defs toDouble_exact)
  then show ?thesis
    using filterMessageData_iff [OF std_values.value_library_axioms] by blast
qed

text \<open>
  C15: decoding is lazy.  A message whose transaction or type is filtered out is never decoded, and neither is a message
  whose filter names no value and no call (an empty one, or one for another type than contract executions, counts
  as none): the filter returns without an error and leaves the accessor property as it was, whatever decoding would
  have yielded or thrown.  Every other message is decoded.
\<close>

theorem filterMessageData_lazy:
  shows "(\<not> filterTx (msg_tx m) (Some f) \<or> filter_type f \<noteq> Some (typeUrl m) \<longrightarrow>
      filterMessageData L m (Some f) = (Inr False, decodedMsg m)) \<and>
    (filter_values f \<in> {None, Some []} \<and> (filter_type f \<noteq> Some MsgExecuteContract \<or> contractCall f \<in> {None, Some []}) \<longrightarrow>
      filterMessageData L m (Some f) =
        (Inr (filterTx (msg_tx m) (Some f) \<and> filter_type f = Some (typeUrl m)), decodedMsg m)) \<and>
    (filterTx (msg_tx m) (Some f) \<and> filter_type f = Some (typeUrl m) \<and>
     (filter_values f \<notin> {None, Some []} \<or> (filter_type f = Some MsgExecuteContract \<and> contractCall f \<notin> {None, Some []})) \<longrightarrow>
      snd (filterMessageData L m (Some f)) = snd (force (decodedMsg m)))"
proof (intro conjI impI)
  assume "\<not> filterTx (msg_tx m) (Some f) \<or> filter_type f \<noteq> Some (typeUrl m)"
  then show "filterMessageData L m (Some f) = (Inr False, decodedMsg m)"
    by (intro filterMessageData_rejects) (auto simp: preliminary_def filterTx_Some)
next
  assume "filter_values f \<in> {None, Some []} \<and> (filter_type f \<noteq> Some MsgExecuteContract \<or> contractCall f \<in> {None, Some []})"
  then have "requiredValues f = []" "requiredCall f = None"
    by (auto simp: requiredValues_def requiredCall_def split: option.splits)
  then show "filterMessageData L m (Some f) =
      (Inr (filterTx (msg_tx m) (Some f) \<and> filter_type f = Some (typeUrl m)), decodedMsg m)"
    by (auto simp: filterMessageData_eval readsMessage_def messageVerdict_def preliminary_def filterTx_Some)
next
  assume "filterTx (msg_tx m) (Some f) \<and> filter_type f = Some (typeUrl m) \<and>
     (filter_values f \<notin> {None, Some []} \<or> (filter_type f = Some MsgExecuteContract \<and> contractCall f \<notin> {None, Some []}))"
  then have "readsMessage f \<and> preliminary f m"
    by (auto simp: readsMessage_def requiredValues_def requiredCall_def preliminary_def filterTx_Some split: option.splits)
  then show "snd (filterMessageData L m (Some f)) = snd (force (decodedMsg m))"
    by (simp add: filterMessageData_eval)
qed

theorem filterMessageData_lazy_witness:
  "filterMessageData std_value_lib
     (failedMessage\<lparr>decodedMsg := Getter (Inl (JsError ''Error'' ''bad wire type''))\<rparr>)
     (Some (execFilter None (Some [(''a'', JNull)]))) =
     (Inr False, Getter (Inl (JsError ''Error'' ''bad wire type''))) \<and>
   filterMessageData std_value_lib swapMessage (Some (execFilter None None)) = (Inr True, decodedMsg swapMessage) \<and>
   snd (filterMessageData std_value_lib swapMessage (Some (execFilter (Some ''swap'') None))) =
     snd (force (decodedMsg swapMessage))"
proof (intro conjI)
  let ?m = "failedMessage\<lparr>decodedMsg := Getter (Inl (JsError ''Error'' ''bad wire type''))\<rparr>"
  have "\<not> filterTx (msg_tx ?m) (Some (execFilter None (Some [(''a'', JNull)])))"
    by (simp add: sample_defs filterTx_def)
  then have r: "\<not> filterTx (msg_tx ?m) (Some (execFilter None (Some [(''a'', JNull)]))) \<or>
      filter_type (execFilter None (Some [(''a'', JNull)])) \<noteq> Some (typeUrl ?m)" by (rule disjI1)
  show "filterMessageData std_value_lib ?m (Some (execFilter None (Some [(''a'', JNull)]))) =
      (Inr False, Getter (Inl (JsError ''Error'' ''bad wire type'')))"
    using mp [OF conjunct1 [OF filterMessageData_lazy] r] by simp
  have "filter_values (execFilter None None) \<in> {None, Some []} \<and>
      (filter_type (execFilter None None) \<noteq> Some MsgExecuteContract \<or> contractCall (execFilter None None) \<in> {None, Some []})"
    by (simp add: execFilter_def)
  from mp [OF conjunct1 [OF conjunct2 [OF filterMessageData_lazy]] this]
  show "filterMessageData std_value_lib swapMessage (Some (execFilter None None)) = (Inr True, decodedMsg swapMessage)"
    by (simp add: sample_defs filterTx_def)
  show "snd (filterMessageData std_value_lib swapMessage (Some (execFilter (Some ''swap'') None))) =
      snd (force (decodedMsg swapMessage))"
    by (rule mp [OF conjunct2 [OF conjunct2 [OF filterMessageData_lazy]]])
      (simp add: sample_defs filterTx_def MsgExecuteContract_def)
qed

text \<open>
  Memoisation is transparent: after a filter has run without throwing, every filter gives the
  same verdict on the message it leaves behind as on the message it was given.
\<close>

theorem filterMessageData_stable:
  assumes "filterMessageData L m (Some f) = (Inr b, c)"
  shows "fst (filterMessageData L (m\<lparr>decodedMsg := c\<rparr>) g) = fst (filterMessageData L m g)"
proof (cases g)
  case None
  then show ?thesis by (simp add: filterMessageData_def)
next
  case (Some h)
  from decoded_after [OF assms] have "decoded (m\<lparr>decodedMsg := c\<rparr>) = decoded m"
    by (simp add: decoded_def)
  then have "messageVerdict L h (m\<lparr>decodedMsg := c\<rparr>) = messageVerdict L h m"
    by (simp only: messageVerdict_def)
  then show ?thesis
    by (simp add: Some filterMessageData_eval preliminary_def txAccepted_def)
qed

theorem filterMessageData_stable_witness:
  "fst (filterMessageData std_value_lib (swapMessage\<lparr>decodedMsg := Value swapMsg\<rparr>)
     (Some (execFilter (Some ''swap'') None))) = Inr True"
proof -
  have run: "filterMessageData std_value_lib swapMessage
      (Some (execFilter None (Some [(''contract'', JStr ''x'')]))) = (Inr False, Value swapMsg)"
    by (simp add: filter_eval_defs filterMessageData_def filterTx_def stringifyLong_def)
  have "messageMatches (execFilter (Some ''swap'') None) swapMessage"
    by (simp add: filter_eval_defs)
  then have "fst (filterMessageData std_value_lib swapMessage
      (Some (execFilter (Some ''swap'') None))) = Inr True"
    by (simp only: std_values.message_filter_iff)
  with filterMessageData_stable [OF run, of "Some (execFilter (Some ''swap'') None)"]
  show ?thesis by simp
qed

text \<open>
  A path of \<^verbatim>\<open>values\<close> that leaves the decoded message before its last key does not make the
  filter reject the message: reading a member of the missing object throws a \<^verbatim>\<open>TypeError\<close> out of
  the filter.  So the filter on \<^verbatim>\<open>msg.swap.input_token\<close> throws on every execution that is no swap.
\<close>

theorem filterMessageData_missing_object_throws:
  assumes "filterTx (msg_tx m) (Some f)" and "filter_type f = Some (typeUrl m)"
    and "filter_values f = Some ((key, v) # kvs)" and "decodedMsg m = Getter (Inr d)"
    and "splitOn (CHR ''.'') key = ks @ k # ls" and "jsPath d ks = Inr JUndefined"
  shows "\<exists>text. filterMessageData L m (Some f) = (Inl (JsError ''TypeError'' text), Value d)"
proof -
  have "jsPath d (splitOn (CHR ''.'') key) =
      throwTypeError (''Cannot read properties of undefined (reading '' @ k @ '')'')"
    using assms(5,6) by (simp add: jsPath_append)
  with assms show ?thesis
    by (simp add: filterMessageData_def orUndefined_def)
qed

theorem filterMessageData_missing_object_throws_witness:
  "\<exists>text. filterMessageData std_value_lib
     (swapMessage\<lparr>decodedMsg := Getter (Inr (JObj [(''msg'', JObj [(''transfer'', JObj [])])]))\<rparr>)
     (Some (execFilter (Some ''swap'') (Some [(''msg.swap.input_token'', JStr ''Token1'')]))) =
   (Inl (JsError ''TypeError'' text), Value (JObj [(''msg'', JObj [(''transfer'', JObj [])])]))"
proof -
  let ?d = "JObj [(''msg'', JObj [(''transfer'', JObj [])])]"
  have path: "splitOn (CHR ''.'') ''msg.swap.input_token'' =
      [''msg'', ''swap''] @ ''input_token'' # []"
    by simp
  have missing: "jsPath ?d [''msg'', ''swap''] = Inr JUndefined"
    by (simp add: inherited_def objectPrototype_def)
  show ?thesis
    by (rule filterMessageData_missing_object_throws [OF _ _ _ _ path missing])
      (simp_all add: sample_defs filterTx_def)
qed

text \<open>
  The operator \<^verbatim>\<open>in\<close> sees inherited members: a filter whose \<^verbatim>\<open>contractCall\<close> is the name of a
  member of \<^verbatim>\<open>Object.prototype\<close>, such as \<^verbatim>\<open>constructor\<close>, accepts every contract execution whose
  message is a JSON object, although no such call is in the message.
\<close>

theorem filterMessageData_inherited_call:
  assumes "value_library L" and "filterTx (msg_tx m) (Some f)"
    and "typeUrl m = MsgExecuteContract" and "filter_type f = Some MsgExecuteContract"
    and "filter_values f = None" and "contractCall f = Some cc" and "cc \<in> set objectPrototype"
    and "decodedMsg m = Getter (Inr (JObj own))" and "map_of own ''msg'' = Some (JObj kvs)"
  shows "fst (filterMessageData L m (Some f)) = Inr True"
proof -
  have "onDecoded m (callHolds cc)"
    using assms(7,8,9) by (simp add: onDecoded_def decoded_def orUndefined_def callHolds_def)
  with assms have "messageMatches f m"
    by (simp add: messageMatches_def filterTx_Some requiredValues_def requiredCall_def)
  then show ?thesis by (simp add: value_library.message_filter_iff [OF assms(1)])
qed

theorem filterMessageData_inherited_call_witness:
  "fst (filterMessageData std_value_lib swapMessage (Some (execFilter (Some ''constructor'') None)))
   = Inr True"
  by (rule filterMessageData_inherited_call [OF std_values.value_library_axioms,
        of _ _ "''constructor''"
           "[(''contract'', JStr ''juno1''), (''codeId'', JLong True 4),
             (''msg'', JObj [(''swap'', JObj [(''input_token'', JStr ''Token1'')])])]"
           "[(''swap'', JObj [(''input_token'', JStr ''Token1'')])]"])
    (simp_all add: sample_defs filterTx_def MsgExecuteContract_def objectPrototype_def)

lemma filterEvent_Inl:
  "fst (filterEvent L e (Some f)) = Inl x \<longleftrightarrow>
     event_filter_type f = Some (event_type (event e)) \<and>
     (\<exists>mf m. messageFilter f = Some mf \<and> event_msg e = Some m \<and> fst (filterMessageData L m (Some mf)) = Inl x)"
  by (auto simp: filterEvent_def filterEventMessage_def split: prod.splits sum.splits bool.splits option.splits)

lemma filterEvent_True:
  assumes "value_library L"
  shows "fst (filterEvent L e (Some f)) = Inr True \<longleftrightarrow> eventMatches f e"
proof (cases "filterEvent L e (Some f)")
  case (Pair r e')
  show ?thesis
  proof (cases r)
    case (Inl x)
    with Pair obtain mf m where "messageFilter f = Some mf" "event_msg e = Some m"
      "fst (filterMessageData L m (Some mf)) = Inl x" using filterEvent_Inl [of L e f x] by auto
    moreover from this(3) have "\<not> messageMatches mf m"
      using value_library.message_filter_iff [OF assms, of m mf] by simp
    ultimately show ?thesis using Pair Inl by (simp add: eventMatches_def)
  next
    case (Inr b)
    then show ?thesis using Pair value_library.event_filter_Inr [OF assms, of e f b e'] by (cases b) auto
  qed
qed

text \<open>
  C11: An event passes \<^verbatim>\<open>filterEvent\<close> exactly when its type is the filter's, its message exists and
  passes the message filter if there is one, and it carries every required attribute with that
  very string value; the filter throws exactly when the type is the filter's and the message filter throws on the
  event's message, with that error.
\<close>

theorem filterEvent_iff:
  assumes "value_library L"
  shows "(fst (filterEvent L e (Some f)) = Inr True \<longleftrightarrow> eventMatches f e) \<and>
    (\<forall>x. fst (filterEvent L e (Some f)) = Inl x \<longleftrightarrow>
       event_filter_type f = Some (event_type (event e)) \<and>
       (\<exists>mf m. messageFilter f = Some mf \<and> event_msg e = Some m \<and> fst (filterMessageData L m (Some mf)) = Inl x))"
  using filterEvent_True [OF assms] filterEvent_Inl by blast

theorem filterEvent_iff_witness:
  "fst (filterEvent std_value_lib wasmEvent (Some \<lparr>event_filter_type = Some ''wasm'',
     messageFilter = Some (execFilter (Some ''swap'') None),
     filter_attributes = Some [(''action'', JStr ''swap'')]\<rparr>)) = Inr True \<and>
   eventMatches \<lparr>event_filter_type = Some ''wasm'',
     messageFilter = Some (execFilter (Some ''swap'') None),
     filter_attributes = Some [(''action'', JStr ''swap'')]\<rparr> wasmEvent"
proof -
  let ?f = "\<lparr>event_filter_type = Some ''wasm'',
     messageFilter = Some (execFilter (Some ''swap'') None),
     filter_attributes = Some [(''action'', JStr ''swap'')]\<rparr>"
  have run: "fst (filterEvent std_value_lib wasmEvent (Some ?f)) = Inr True"
    by (simp add: filter_eval_defs filterEvent_def filterEventMessage_def filterMessageData_def
        filterTx_def filterCall_def callMatches_def)
  from filterEvent_iff [OF std_values.value_library_axioms, of wasmEvent ?f] run show ?thesis by simp
qed

text \<open>
  The type of event filters admits numbers as attribute values, but attributes of events are
  strings and the comparison is strict: a filter with a numeric attribute accepts no event.
\<close>

theorem filterEvent_numeric_attribute:
  assumes "filter_attributes f = Some fs" and "(k, JNum n) \<in> set fs"
  shows "fst (filterEvent L e (Some f)) \<noteq> Inr True"
proof -
  from assms(2) have "\<not> filterAttributes attrs fs" for attrs
    by (auto simp: filterAttributes_iff list_all_iff list_ex_iff)
  with assms(1) show ?thesis
    by (auto simp: filterEvent_def split: prod.splits sum.splits bool.splits if_splits)
qed

theorem filterEvent_numeric_attribute_witness:
  "fst (filterEvent std_value_lib wasmEvent (Some \<lparr>event_filter_type = Some ''wasm'',
     messageFilter = None, filter_attributes = Some [(''amount'', JNum 7)]\<rparr>)) \<noteq> Inr True"
  by (rule filterEvent_numeric_attribute [of _ "[(''amount'', JNum 7)]" "''amount''" 7]) simp_all

text \<open>
  \<^verbatim>\<open>filterMessages\<close> returns, in the order of the block, exactly the messages that some filter
  accepts, and all of them when there is no filter.
\<close>

theorem filterMessages_selects:
  assumes "value_library L" and "fst (filterMessages L (Some ms) fo) = Inr ys"
  shows "map plainMessage ys =
         map plainMessage (filter (selectedBy messageMatches (asFilters fo)) ms)"
  using assms by (rule value_library.messages_selected)

theorem filterMessages_selects_witness:
  "map plainMessage [swapMessage\<lparr>decodedMsg := Value swapMsg\<rparr>] =
   map plainMessage (filter (selectedBy messageMatches [execFilter (Some ''swap'') None])
     [failedMessage, swapMessage])"
proof -
  have "fst (filterMessages std_value_lib (Some [failedMessage, swapMessage])
      (One (execFilter (Some ''swap'') None))) = Inr [swapMessage\<lparr>decodedMsg := Value swapMsg\<rparr>]"
    by (simp add: filter_eval_defs filterMessages_def asFilters_def testMessage_def
        filterMessageData_def filterTx_def filterCall_def callMatches_def)
  from filterMessages_selects [OF std_values.value_library_axioms this] show ?thesis
    by (simp add: asFilters_def)
qed

text \<open>
  \<^verbatim>\<open>filterEvents\<close> returns, in order, exactly the events that some filter accepts, and all of
  them when there is no filter.
\<close>

theorem filterEvents_selects:
  assumes "value_library L" and "fst (filterEvents L es fo) = Inr ys"
  shows "map plainEvent ys = map plainEvent (filter (selectedBy eventMatches (asFilters fo)) es)"
  using assms by (rule value_library.events_selected)

theorem filterEvents_selects_witness:
  "map plainEvent [wasmEvent] =
   map plainEvent (filter (selectedBy eventMatches
     [\<lparr>event_filter_type = Some ''transfer'', messageFilter = None, filter_attributes = None\<rparr>,
      \<lparr>event_filter_type = Some ''wasm'', messageFilter = None, filter_attributes = None\<rparr>])
     [wasmEvent])"
proof -
  let ?fs = "[\<lparr>event_filter_type = Some ''transfer'', messageFilter = None, filter_attributes = None\<rparr>,
      \<lparr>event_filter_type = Some ''wasm'', messageFilter = None, filter_attributes = None\<rparr>]"
  have "fst (filterEvents std_value_lib [wasmEvent] (Many ?fs)) = Inr [wasmEvent]"
    by (simp add: wasmEvent_def filterEvents_def asFilters_def filterEvent_def filterEventMessage_def)
  from filterEvents_selects [OF std_values.value_library_axioms this] show ?thesis
    by (simp add: asFilters_def)
qed

section \<open>When a filter throws\<close>

context value_library
begin

lemma first_failure_Cons:
  "(\<exists>pre k v post. (key, w) # kvs = pre @ (k, v) # post \<and> list_all P pre \<and> Q k) \<longleftrightarrow>
   Q key \<or> P (key, w) \<and> (\<exists>pre k v post. kvs = pre @ (k, v) # post \<and> list_all P pre \<and> Q k)"
  (is "?all \<longleftrightarrow> Q key \<or> P (key, w) \<and> ?rest")
proof
  assume ?all
  then obtain pre k v post where *: "(key, w) # kvs = pre @ (k, v) # post" "list_all P pre" "Q k" by blast
  then show "Q key \<or> P (key, w) \<and> ?rest" by (cases pre) auto
next
  assume "Q key \<or> P (key, w) \<and> ?rest"
  then show ?all
  proof
    assume "Q key"
    then show ?all by (intro exI [of _ "[]"]) simp
  next
    assume "P (key, w) \<and> ?rest"
    then obtain pre k v post where "P (key, w)" "kvs = pre @ (k, v) # post" "list_all P pre" "Q k" by blast
    then show ?all by (intro exI [of _ "(key, w) # pre"]) simp
  qed
qed

lemma evalValues_Inl:
  "evalValues L kvs d = Inl e \<longleftrightarrow>
   (\<exists>pre key v post. kvs = pre @ (key, v) # post \<and> list_all (valueHolds d) pre \<and>
      jsPath d (splitOn (CHR ''.'') key) = Inl e)"
proof (induction kvs)
  case (Cons kv kvs)
  obtain key v where kv: "kv = (key, v)" by (cases kv)
  have "evalValues L (kv # kvs) d = Inl e \<longleftrightarrow>
      jsPath d (splitOn (CHR ''.'') key) = Inl e \<or> valueHolds d (key, v) \<and> evalValues L kvs d = Inl e"
    by (cases "jsPath d (splitOn (CHR ''.'') key)") (simp_all add: kv valueHolds_def stringifyLong_coerce)
  then show ?case unfolding kv first_failure_Cons Cons.IH .
qed simp

lemma evalCall_Inl: "evalCall L cc d = Inl e \<longleftrightarrow> jsGet d ''msg'' = Inl e"
  by (auto simp: evalCall_def result_simps split: sum.splits)

lemma verdict_Inl:
  "messageVerdict L f m = Inl e \<longleftrightarrow>
     readsMessage f \<and> (decoded m = Inl e \<or> (\<exists>d. decoded m = Inr d \<and>
       (evalValues L (requiredValues f) d = Inl e \<or>
        list_all (valueHolds d) (requiredValues f) \<and> requiredCall f \<noteq> None \<and> jsGet d ''msg'' = Inl e)))"
proof (cases "decoded m")
  case (Inl e')
  then show ?thesis
    by (cases "requiredCall f") (auto simp: messageVerdict_def readsMessage_def)
next
  case (Inr d)
  show ?thesis
  proof (cases "requiredValues f = []")
    case True
    with Inr show ?thesis
      by (cases "requiredCall f") (auto simp: messageVerdict_def readsMessage_def evalCall_Inl)
  next
    case False
    have "messageVerdict L f m = rbind (evalValues L (requiredValues f) d)
        (\<lambda>b. if \<not> b then Inr False else case requiredCall f of None \<Rightarrow> Inr True | Some cc \<Rightarrow> evalCall L cc d)"
      using False Inr
      by (cases "requiredCall f"; cases "evalValues L (requiredValues f) d") (simp_all add: messageVerdict_def)
    with False Inr show ?thesis
      by (cases "evalValues L (requiredValues f) d"; cases "requiredCall f")
        (auto simp: readsMessage_def evalCall_Inl evalValues_True [symmetric] split: if_splits)
  qed
qed

lemma message_filter_Inl:
  "fst (filterMessageData L m (Some f)) = Inl e \<longleftrightarrow>
     preliminary f m \<and> readsMessage f \<and> (decoded m = Inl e \<or> (\<exists>d. decoded m = Inr d \<and>
       ((\<exists>pre key v post. requiredValues f = pre @ (key, v) # post \<and> list_all (valueHolds d) pre \<and>
           jsPath d (splitOn (CHR ''.'') key) = Inl e) \<or>
        list_all (valueHolds d) (requiredValues f) \<and> requiredCall f \<noteq> None \<and> jsGet d ''msg'' = Inl e)))"
  by (simp add: filterMessageData_eval verdict_Inl evalValues_Inl)

end

text \<open>
  C16: the errors of the message filter, exactly.  It throws only for a message whose transaction and type pass and of which
  the filter names a value or a call: the error of decoding, the error of reading the first path that cannot be followed
  while all values before it hold, or the error of reading \<^verbatim>\<open>msg\<close> of the decoded message once all values hold.
\<close>

theorem filterMessageData_throws_iff:
  assumes "value_library L"
  shows "fst (filterMessageData L m (Some f)) = Inl e \<longleftrightarrow>
     preliminary f m \<and> readsMessage f \<and> (decoded m = Inl e \<or> (\<exists>d. decoded m = Inr d \<and>
       ((\<exists>pre key v post. requiredValues f = pre @ (key, v) # post \<and> list_all (valueHolds d) pre \<and>
           jsPath d (splitOn (CHR ''.'') key) = Inl e) \<or>
        list_all (valueHolds d) (requiredValues f) \<and> requiredCall f \<noteq> None \<and> jsGet d ''msg'' = Inl e)))"
  using assms by (rule value_library.message_filter_Inl)

theorem filterMessageData_throws_iff_witness:
  "fst (filterMessageData std_value_lib swapMessage
     (Some (execFilter None (Some [(''codeId'', JNum 4), (''msg.transfer.amount'', JStr ''1'')])))) =
   throwTypeError ''Cannot read properties of undefined (reading amount)''"
proof -
  let ?f = "execFilter None (Some [(''codeId'', JNum 4), (''msg.transfer.amount'', JStr ''1'')])"
  have path: "splitOn (CHR ''.'') ''msg.transfer.amount'' = [''msg'', ''transfer'', ''amount'']" by simp
  have "preliminary ?f swapMessage \<and> readsMessage ?f \<and> decoded swapMessage = Inr swapMsg"
    by (simp add: preliminary_def readsMessage_def txAccepted_def decoded_def requiredValues_def orUndefined_def
        MsgExecuteContract_def sample_defs)
  moreover have "requiredValues ?f = [(''codeId'', JNum 4)] @ (''msg.transfer.amount'', JStr ''1'') # []"
    by (simp add: requiredValues_def execFilter_def)
  moreover have "list_all (valueHolds swapMsg) [(''codeId'', JNum 4)]"
    by (simp add: filter_eval_defs toDouble_exact)
  moreover have "jsPath swapMsg (splitOn (CHR ''.'') ''msg.transfer.amount'') =
      throwTypeError ''Cannot read properties of undefined (reading amount)''"
    unfolding path by (simp add: filter_eval_defs)
  ultimately show ?thesis
    by (intro filterMessageData_throws_iff [OF std_values.value_library_axioms, THEN iffD2] conjI disjI2
        exI [of _ swapMsg] disjI1 exI [of _ "[(''codeId'', JNum 4)]"] exI [of _ "''msg.transfer.amount''"]
        exI [of _ "JStr ''1''"] exI [of _ "[]"]) (blast | assumption)+
qed

end
