(* ===== verification/Client.thy ===== *)
theory Client
  imports Json Filters
begin

text \<open>
  The class \<^verbatim>\<open>CosmosClient\<close> of \<^verbatim>\<open>indexer/api.service.ts\<close>: the requests it forwards to the Tendermint
  client, the decoding of messages, and the rewriting of request errors.  The Tendermint client,
  the protobuf registry and \<^verbatim>\<open>JSON.parse\<close> are the fields of a client value.
\<close>

record CosmosClient =
  tendermint_block :: "int \<Rightarrow> BlockResponse promise"
  tendermint_blockResults :: "int \<Rightarrow> BlockResultsResponse promise"
  registry_decode :: "EncodeObject \<Rightarrow> (string \<times> js) list result"
  json_parse :: "string \<Rightarrow> js result"

section \<open>Operations\<close>

definition blockInfo :: "CosmosClient \<Rightarrow> int \<Rightarrow> BlockResponse promise" where
  "blockInfo api h = tendermint_block api h"

definition blockResults :: "CosmosClient \<Rightarrow> int \<Rightarrow> BlockResultsResponse promise" where
  "blockResults api h = tendermint_blockResults api h"

text \<open>The argument of \<^verbatim>\<open>TextDecoder.decode\<close>: bytes, or undefined, which reads as no input.\<close>

fun decodeText :: "js \<Rightarrow> string result" where
  "decodeText (JBytes bs) = Inr (textDecode bs)"
| "decodeText JUndefined = Inr []"
| "decodeText _ = throwTypeError ''The list argument must be an instance of ArrayBuffer or ArrayBufferView.''"

definition contractMsgTypes :: "string list" where
  "contractMsgTypes =
     [''/cosmwasm.wasm.v1.MsgExecuteContract'', ''/cosmwasm.wasm.v1.MsgMigrateContract'',
      ''/cosmwasm.wasm.v1.MsgInstantiateContract'']"

definition decodeMsg :: "CosmosClient \<Rightarrow> EncodeObject \<Rightarrow> js result" where
  "decodeMsg api m =
     rbind (registry_decode api m) (\<lambda>kvs.
       if any_typeUrl m \<in> set contractMsgTypes then
         rbind (jsGet (JObj kvs) ''msg'') (\<lambda>raw.
         rbind (decodeText raw) (\<lambda>text.
         rbind (json_parse api text) (\<lambda>v.
           Inr (JObj (setProp ''msg'' v kvs)))))
       else Inr (JObj kvs))"

text \<open>The conversion of a value to a string in a template literal.\<close>

fun templateString :: "js \<Rightarrow> string" where
  "templateString JUndefined = ''undefined''"
| "templateString JNull = ''null''"
| "templateString (JBool b) = (if b then ''true'' else ''false'')"
| "templateString (JNum n) = numberToString n"
| "templateString (JStr s) = s"
| "templateString (JLong u n) = numberToString n"
| "templateString (JBytes bs) = joinWith '','' (map (\<lambda>b. numberToString (uint b)) bs)"
| "templateString (JFun f) = ''function '' @ f @ ''() { [native code] }''"
| "templateString (JArr xs) =
     joinWith '','' (map (\<lambda>x. if x = JNull \<or> x = JUndefined then [] else templateString x) xs)"
| "templateString (JObj kvs) = ''[object Object]''"

text \<open>\<^verbatim>\<open>v.includes(s)\<close> on a parsed JSON value: strings and arrays have the method.\<close>

fun jsIncludesCall :: "js \<Rightarrow> string \<Rightarrow> bool result" where
  "jsIncludesCall (JStr t) s = Inr (jsIncludes t s)"
| "jsIncludesCall (JArr xs) s = Inr (list_ex (\<lambda>x. x = JStr s) xs)"
| "jsIncludesCall v s = throwTypeError ''message.data.includes is not a function''"

definition prunedText :: string where
  "prunedText = ''is not available, lowest height is''"

definition prunedInfo :: string where
  "prunedInfo =
     ''INFO: This most likely means the provided endpoint is a pruned node. An archive/full node is needed to access historical data''"

text \<open>The body of the try block: the new message, if it is rewritten; or a throw.\<close>

definition prunedMessage :: "(string \<Rightarrow> js result) \<Rightarrow> string \<Rightarrow> string option result" where
  "prunedMessage parse msg =
     rbind (parse msg) (\<lambda>message.
     rbind (jsGet message ''data'') (\<lambda>data.
       if truthy data then
         rbind (jsIncludesCall data prunedText) (\<lambda>pruned.
           Inr (if pruned then Some (templateString data @ CHR 0x0A # prunedInfo) else None))
       else Inr None))"

definition handleError :: "(string \<Rightarrow> js result) \<Rightarrow> js_error \<Rightarrow> js_error" where
  "handleError parse e =
     (case prunedMessage parse (err_message e) of
        Inr None \<Rightarrow> e
      | Inr (Some m) \<Rightarrow> JsError (err_name e) m
      | Inl _ \<Rightarrow>
          (if err_message e = ''Request failed with status code 429''
           then JsError ''RateLimitError'' (err_message e)
           else if err_message e = ''Request failed with status code 403''
           then JsError ''Forbidden'' (err_message e)
           else e))"

section \<open>Decoding of messages\<close>

lemma decodeMsg_plain:
  "any_typeUrl m \<notin> set contractMsgTypes \<Longrightarrow> decodeMsg api m = map_sum id JObj (registry_decode api m)"
  by (cases "registry_decode api m") (simp_all add: decodeMsg_def)

lemma decodeMsg_contract:
  assumes "any_typeUrl m \<in> set contractMsgTypes"
    and "registry_decode api m = Inr kvs" and "map_of kvs ''msg'' = Some (JBytes bs)"
  shows "decodeMsg api m =
    map_sum id (\<lambda>v. JObj (setProp ''msg'' v kvs)) (json_parse api (textDecode bs))"
  using assms by (cases "json_parse api (textDecode bs)") (simp_all add: decodeMsg_def)

text \<open>
  C14: a decoded contract message carries the value of its JSON payload under \<^verbatim>\<open>msg\<close> and every other
  field as the registry decoded it; the payload written as ASCII JSON text is read back.
\<close>

theorem decodeMsg_payload:
  assumes "any_typeUrl m \<in> set contractMsgTypes"
    and "registry_decode api m = Inr kvs"
    and "map_of kvs ''msg'' = Some (JBytes (map byteOfChar payload))"
    and "isAscii payload" and "json_parse api payload = Inr v"
  shows "\<exists>d. decodeMsg api m = Inr d \<and> jsGet d ''msg'' = Inr v \<and>
    (\<forall>k. k \<noteq> ''msg'' \<longrightarrow> jsGet d k = jsGet (JObj kvs) k)"
proof -
  from assms have "decodeMsg api m = Inr (JObj (setProp ''msg'' v kvs))"
    by (simp add: decodeMsg_contract textDecode_encode)
  then show ?thesis by (simp add: map_of_setProp)
qed

text \<open>A client whose registry knows one contract message, with its payload as JSON text.\<close>

definition sampleClient :: "string \<Rightarrow> CosmosClient" where
  "sampleClient payload =
     \<lparr>tendermint_block = (\<lambda>h. []), tendermint_blockResults = (\<lambda>h. []),
      registry_decode = (\<lambda>m. Inr [(''contract'', JStr ''juno1''), (''msg'', JBytes (map byteOfChar payload))]),
      json_parse = jsonParse\<rparr>"

definition sampleRaw :: EncodeObject where
  "sampleRaw = \<lparr>any_typeUrl = MsgExecuteContract, any_value = [1]\<rparr>"

definition swapText :: string where
  "swapText = ''{'' @ [CHR 0x22] @ ''swap'' @ [CHR 0x22] @ '':7}''"

lemma jsonParse_swapText: "jsonParse swapText = Inr (JObj [(''swap'', JNum 7)])"
  by (simp add: json_eval_simps swapText_def)

lemma isAscii_swapText: "isAscii swapText"
  by code_simp

lemmas client_sample_defs = sampleClient_def sampleRaw_def contractMsgTypes_def MsgExecuteContract_def

theorem decodeMsg_payload_witness:
  "\<exists>d. decodeMsg (sampleClient swapText) sampleRaw = Inr d \<and>
     jsGet d ''msg'' = Inr (JObj [(''swap'', JNum 7)]) \<and>
     (\<forall>k. k \<noteq> ''msg'' \<longrightarrow> jsGet d k =
        jsGet (JObj [(''contract'', JStr ''juno1''), (''msg'', JBytes (map byteOfChar swapText))]) k)"
  by (rule decodeMsg_payload [where payload = swapText])
    (simp_all add: client_sample_defs jsonParse_swapText isAscii_swapText)

text \<open>The contract execution of a successful transaction, filtered by the name of the call alone.\<close>

definition callFilter :: "string \<Rightarrow> CosmosMessageFilter" where
  "callFilter cc =
     \<lparr>includeFailedTx = False, filter_type = Some MsgExecuteContract, contractCall = Some cc,
      filter_values = None\<rparr>"

lemma callFilter_verdict:
  assumes "value_library L"
    and "code (tx_data (msg_tx data)) = 0" and "typeUrl data = MsgExecuteContract"
    and "decodedMsg data = Getter (decodeMsg api m)" and "any_typeUrl m = MsgExecuteContract"
    and "registry_decode api m = Inr kvs"
    and "map_of kvs ''msg'' = Some (JBytes (map byteOfChar payload))"
    and "isAscii payload" and "cc \<noteq> []"
  shows "fst (filterMessageData L data (Some (callFilter cc))) =
    (case json_parse api payload of
       Inl e \<Rightarrow> Inl e
     | Inr v \<Rightarrow> Inr (v = JStr cc \<or> (isTypeofObject v \<and> v \<noteq> JNull \<and> jsIn cc v)))"
proof -
  have m: "any_typeUrl m \<in> set contractMsgTypes"
    using assms(5) by (simp add: contractMsgTypes_def MsgExecuteContract_def)
  have "decodeMsg api m = map_sum id (\<lambda>v. JObj (setProp ''msg'' v kvs)) (json_parse api payload)"
    using decodeMsg_contract [OF m assms(6,7)] assms(8) by (simp add: textDecode_encode)
  with assms(2-4,9) show ?thesis
    by (cases "json_parse api payload") (simp_all add: filterMessageData_def filterTx_def filterCall_def
        callFilter_def orUndefined_def map_of_setProp value_library.callMatches_iff [OF assms(1)])
qed

text \<open>
  C13: the filter \<^verbatim>\<open>contractCall\<close> over the decoding of \<^verbatim>\<open>decodeMsg\<close>, on a successful execution whose payload is ASCII
  text.  A payload that is no JSON makes the filter throw the parser's error; a payload that is the JSON text of a
  string passes exactly if it is the call; one that is the text of an object passes exactly if the call is a key of
  the object or the name of a member every object inherits; and one that is the text of a number, a truth value or
  null never passes.
\<close>

theorem contractCall_reads_payload:
  assumes "value_library L"
    and "code (tx_data (msg_tx data)) = 0" and "typeUrl data = MsgExecuteContract"
    and "decodedMsg data = Getter (decodeMsg api m)" and "any_typeUrl m = MsgExecuteContract"
    and "registry_decode api m = Inr kvs"
    and "map_of kvs ''msg'' = Some (JBytes (map byteOfChar payload))"
    and "isAscii payload" and "cc \<noteq> []"
  shows "(\<forall>e. json_parse api payload = Inl e \<longrightarrow> fst (filterMessageData L data (Some (callFilter cc))) = Inl e) \<and>
    (\<forall>s. json_parse api payload = Inr (JStr s) \<longrightarrow> fst (filterMessageData L data (Some (callFilter cc))) = Inr (s = cc)) \<and>
    (\<forall>own. json_parse api payload = Inr (JObj own) \<longrightarrow>
       fst (filterMessageData L data (Some (callFilter cc))) = Inr (cc \<in> fst ` set own \<or> cc \<in> set objectPrototype)) \<and>
    (\<forall>n b. json_parse api payload \<in> {Inr (JNum n), Inr (JBool b), Inr JNull} \<longrightarrow>
       fst (filterMessageData L data (Some (callFilter cc))) = Inr False)"
  unfolding callFilter_verdict [OF assms] by auto

theorem contractCall_reads_payload_witness:
  "fst (filterMessageData std_value_lib
     (swapMessage\<lparr>decodedMsg := Getter (decodeMsg (sampleClient swapText) sampleRaw)\<rparr>)
     (Some (callFilter ''swap''))) = Inr True"
proof -
  let ?data = "swapMessage\<lparr>decodedMsg := Getter (decodeMsg (sampleClient swapText) sampleRaw)\<rparr>"
  have "json_parse (sampleClient swapText) swapText = Inr (JObj [(''swap'', JNum 7)]) \<longrightarrow>
      fst (filterMessageData std_value_lib ?data (Some (callFilter ''swap''))) =
        Inr (''swap'' \<in> fst ` set [(''swap'', JNum 7)] \<or> ''swap'' \<in> set objectPrototype)"
    by (rule spec [OF conjunct1 [OF conjunct2 [OF conjunct2 [OF contractCall_reads_payload [where m = sampleRaw
        and payload = swapText and kvs = "[(''contract'', JStr ''juno1''), (''msg'', JBytes (map byteOfChar swapText))]"]]]],
        of _ _ _ _ "[(''swap'', JNum 7)]"])
      (simp_all add: std_values.value_library_axioms sample_defs client_sample_defs isAscii_swapText)
  then show ?thesis by (simp add: client_sample_defs jsonParse_swapText)
qed

section \<open>Request errors\<close>

definition tooManyRequests :: string where
  "tooManyRequests = ''Request failed with status code 429''"

definition accessForbidden :: string where
  "accessForbidden = ''Request failed with status code 403''"

lemmas status_defs = tooManyRequests_def accessForbidden_def

context json_parser
begin

lemma prunedMessage_status:
  "msg = tooManyRequests \<or> msg = accessForbidden \<Longrightarrow> \<exists>e. prunedMessage parse msg = Inl e"
proof -
  assume "msg = tooManyRequests \<or> msg = accessForbidden"
  then obtain s where "msg = CHR ''R'' # s" by (auto simp: status_defs)
  moreover have "\<exists>e. parse (CHR ''R'' # s) = Inl e"
    by (rule parse_rejects) (simp_all add: jsonFirst_def isJsonBlank_def isDigit_def)
  ultimately show ?thesis by (auto simp: prunedMessage_def)
qed

lemma handleError_429: "handleError parse (JsError n tooManyRequests) = JsError ''RateLimitError'' tooManyRequests"
  using prunedMessage_status [of tooManyRequests] by (auto simp: handleError_def tooManyRequests_def)

lemma handleError_403: "handleError parse (JsError n accessForbidden) = JsError ''Forbidden'' accessForbidden"
  using prunedMessage_status [of accessForbidden] by (auto simp: handleError_def accessForbidden_def)

end

lemma handleError_other_name:
  "err_message e \<notin> {tooManyRequests, accessForbidden} \<Longrightarrow> err_name (handleError parse e) = err_name e"
  by (auto simp: handleError_def status_defs split: sum.splits option.splits)

lemma prunedMessage_Some:
  assumes "prunedMessage parse msg = Inr (Some m)"
  shows "\<exists>v d. parse msg = Inr v \<and> jsGet v ''data'' = Inr d \<and> jsIncludesCall d prunedText = Inr True \<and>
    m = templateString d @ CHR 0x0A # prunedInfo"
  using assms by (auto simp: prunedMessage_def result_simps split: if_splits)

lemma handleError_message:
  "err_message (handleError parse e) = err_message e \<or>
   (\<exists>v d. parse (err_message e) = Inr v \<and> jsGet v ''data'' = Inr d \<and>
      jsIncludesCall d prunedText = Inr True \<and>
      handleError parse e = JsError (err_name e) (templateString d @ CHR 0x0A # prunedInfo))"
  using prunedMessage_Some [of parse "err_message e"]
  by (auto simp: handleError_def split: sum.splits option.splits)

text \<open>
  \<^verbatim>\<open>CosmosClient.handleError\<close> names the errors of status 429 and 403, keeps the name of every
  other error, and changes a message only when it is the JSON of a response whose \<^verbatim>\<open>data\<close> reports
  a pruned height; then the new message is that text and the hint about archive nodes.
\<close>

theorem handleError_cases:
  assumes "json_parser parse"
  shows "(err_message e = tooManyRequests \<longrightarrow> handleError parse e = JsError ''RateLimitError'' (err_message e)) \<and>
    (err_message e = accessForbidden \<longrightarrow> handleError parse e = JsError ''Forbidden'' (err_message e)) \<and>
    (err_message e \<notin> {tooManyRequests, accessForbidden} \<longrightarrow> err_name (handleError parse e) = err_name e) \<and>
    (err_message (handleError parse e) = err_message e \<or>
     (\<exists>v d. parse (err_message e) = Inr v \<and> jsGet v ''data'' = Inr d \<and>
        jsIncludesCall d prunedText = Inr True \<and>
        err_message (handleError parse e) = templateString d @ CHR 0x0A # prunedInfo))"
proof (intro conjI impI)
  show "handleError parse e = JsError ''RateLimitError'' (err_message e)" if "err_message e = tooManyRequests"
    using json_parser.handleError_429 [OF assms, of "err_name e"] that by (cases e) simp
  show "handleError parse e = JsError ''Forbidden'' (err_message e)" if "err_message e = accessForbidden"
    using json_parser.handleError_403 [OF assms, of "err_name e"] that by (cases e) simp
  show "err_name (handleError parse e) = err_name e" if "err_message e \<notin> {tooManyRequests, accessForbidden}"
    using that by (rule handleError_other_name)
qed (use handleError_message [of parse e] in auto)

text \<open>The body of an RPC error for a height that has been pruned.\<close>

definition prunedBody :: string where
  "prunedBody = ''{'' @ [CHR 0x22] @ ''data'' @ [CHR 0x22] @ '':'' @ [CHR 0x22] @
     ''height 1 is not available, lowest height is 5'' @ [CHR 0x22] @ ''}''"

lemma jsonParse_prunedBody:
  "jsonParse prunedBody = Inr (JObj [(''data'', JStr ''height 1 is not available, lowest height is 5'')])"
  by (simp add: json_eval_simps prunedBody_def)

theorem handleError_cases_witness:
  "(let e = JsError ''Error'' prunedBody in
    (err_message e = tooManyRequests \<longrightarrow> handleError jsonParse e = JsError ''RateLimitError'' (err_message e)) \<and>
    (err_message e \<notin> {tooManyRequests, accessForbidden} \<longrightarrow> err_name (handleError jsonParse e) = err_name e)) \<and>
   err_message (handleError jsonParse (JsError ''Error'' prunedBody)) =
     ''height 1 is not available, lowest height is 5'' @ CHR 0x0A # prunedInfo"
proof -
  have "err_message (handleError jsonParse (JsError ''Error'' prunedBody)) =
     ''height 1 is not available, lowest height is 5'' @ CHR 0x0A # prunedInfo"
    by (simp add: handleError_def prunedMessage_def jsonParse_prunedBody prunedText_def
        jsIncludes_def indexOf_def startsWith_def)
  then show ?thesis
    using handleError_cases [OF std_json.json_parser_axioms, of "JsError ''Error'' prunedBody"]
    by (simp add: Let_def)
qed

end
