(* ===== verification/Wrap.thy ===== *)
theory Wrap
  imports Client
begin

text \<open>
  The wrapping of chain data in \<^verbatim>\<open>utils/cosmos.ts\<close>: \<^verbatim>\<open>wrapBlock\<close>, \<^verbatim>\<open>wrapTx\<close>, \<^verbatim>\<open>wrapMsg\<close>,
  \<^verbatim>\<open>wrapBlockBeginAndEndEvents\<close> and \<^verbatim>\<open>wrapEvent\<close>.  Transactions carry the accessor \<^verbatim>\<open>decodedTx\<close>,
  whose state the loops over messages and logs thread from one read to the next.  The functions of
  the \<^verbatim>\<open>@cosmjs\<close> packages are parameters.  The events of one log share their message object; in
  the model each holds its own copy, which no operation here tells apart.
\<close>

record cosmjs_lib =
  toHex :: "bytes \<Rightarrow> string"
  sha256 :: "bytes option \<Rightarrow> bytes result"
  decodeTxRaw :: "bytes option \<Rightarrow> DecodedTxRaw result"
  fromTendermintEvent :: "TmEvent \<Rightarrow> StargateEvent"
  parseRawLog :: "string option \<Rightarrow> RawLog list result"

section \<open>Operations\<close>

definition wrapBlock :: "cosmjs_lib \<Rightarrow> BlockResponse \<Rightarrow> TxData list \<Rightarrow> CosmosBlock" where
  "wrapBlock J resp txs =
     \<lparr>blockId = resp_blockId resp,
      block_id = toUpperCase (toHex J (hash (resp_blockId resp))),
      block = resp_block resp,
      header = block_header (resp_block resp),
      block_txData = txs\<rparr>"

definition wrapOneTx :: "cosmjs_lib \<Rightarrow> CosmosBlock \<Rightarrow> nat \<times> TxData \<Rightarrow> tx_object result" where
  "wrapOneTx J blk itx =
     (let raw = jsIndex (block_txs (block blk)) (int (fst itx)) in
      rbind (sha256 J raw) (\<lambda>digest.
        Inr (\<lparr>tx_idx = fst itx, tx_block = blk, tx_hash = toUpperCase (toHex J digest),
              tx_data = snd itx\<rparr>,
             Getter (decodeTxRaw J raw))))"

definition wrapTx :: "cosmjs_lib \<Rightarrow> CosmosBlock \<Rightarrow> TxData list \<Rightarrow> tx_object list result" where
  "wrapTx J blk txResults = rmap (wrapOneTx J blk) (List.enumerate 0 txResults)"

definition newMessage ::
    "CosmosClient \<Rightarrow> CosmosBlock \<Rightarrow> CosmosTransaction \<Rightarrow> int \<Rightarrow> EncodeObject \<Rightarrow> CosmosMessage" where
  "newMessage api blk tx i raw =
     \<lparr>msg_idx = i, msg_block = blk, msg_tx = tx, typeUrl = any_typeUrl raw,
      decodedMsg = Getter (decodeMsg api raw)\<rparr>"

text \<open>The message together with the state \<^verbatim>\<open>tx.decodedTx\<close> is left in.\<close>

definition wrapCosmosMsg ::
    "CosmosClient \<Rightarrow> CosmosBlock \<Rightarrow> tx_object \<Rightarrow> int \<Rightarrow> CosmosMessage result \<times> DecodedTxRaw cell" where
  "wrapCosmosMsg api blk txo idx =
     (case force (snd txo) of
        (Inl e, c) \<Rightarrow> (Inl e, c)
      | (Inr None, c) \<Rightarrow> (throwTypeError ''Cannot read properties of undefined (reading body)'', c)
      | (Inr (Some d), c) \<Rightarrow>
          (case jsIndex (body_messages d) idx of
             None \<Rightarrow> (throwTypeError ''Cannot read properties of undefined (reading typeUrl)'', c)
           | Some raw \<Rightarrow> (Inr (newMessage api blk (fst txo) idx raw), c)))"

text \<open>The loop over the messages of a transaction: the length is read first, then each message.\<close>

fun wrapMsgLoop ::
    "CosmosClient \<Rightarrow> CosmosBlock \<Rightarrow> CosmosTransaction \<Rightarrow> nat list \<Rightarrow> DecodedTxRaw cell \<Rightarrow>
     CosmosMessage list result \<times> DecodedTxRaw cell" where
  "wrapMsgLoop api blk tx [] c = (Inr [], c)"
| "wrapMsgLoop api blk tx (i # is) c =
     (case wrapCosmosMsg api blk (tx, c) (int i) of
        (Inl e, c') \<Rightarrow> (Inl e, c')
      | (Inr m, c') \<Rightarrow>
          (case wrapMsgLoop api blk tx is c' of
             (Inl e, c'') \<Rightarrow> (Inl e, c'')
           | (Inr ms, c'') \<Rightarrow> (Inr (m # ms), c'')))"

definition wrapTxMsg ::
    "CosmosClient \<Rightarrow> CosmosBlock \<Rightarrow> tx_object \<Rightarrow> CosmosMessage list result \<times> DecodedTxRaw cell" where
  "wrapTxMsg api blk txo =
     (case force (snd txo) of
        (Inl e, c) \<Rightarrow> (Inl e, c)
      | (Inr None, c) \<Rightarrow> (throwTypeError ''Cannot read properties of undefined (reading body)'', c)
      | (Inr (Some d), c) \<Rightarrow> wrapMsgLoop api blk (fst txo) [0..<length (body_messages d)] c)"

fun wrapMsg ::
    "CosmosClient \<Rightarrow> CosmosBlock \<Rightarrow> tx_object list \<Rightarrow> CosmosMessage list result \<times> tx_object list" where
  "wrapMsg api blk [] = (Inr [], [])"
| "wrapMsg api blk (txo # txs) =
     (case wrapTxMsg api blk txo of
        (Inl e, c) \<Rightarrow> (Inl e, (fst txo, c) # txs)
      | (Inr ms, c) \<Rightarrow>
          (case wrapMsg api blk txs of
             (Inl e, txs') \<Rightarrow> (Inl e, (fst txo, c) # txs')
           | (Inr ms', txs') \<Rightarrow> (Inr (ms @ ms'), (fst txo, c) # txs')))"

definition wrapBlockBeginAndEndEvents ::
    "cosmjs_lib \<Rightarrow> CosmosBlock \<Rightarrow> TmEvent list \<Rightarrow> nat \<Rightarrow> CosmosEvent list" where
  "wrapBlockBeginAndEndEvents J blk events idxOffset =
     map (\<lambda>(idx, ev). \<lparr>event_idx = idx, event_block = blk, event_tx = None, event_msg = None,
                       event_log = None, event = fromTendermintEvent J ev\<rparr>)
       (List.enumerate idxOffset events)"

definition newEvent ::
    "CosmosBlock \<Rightarrow> CosmosTransaction \<Rightarrow> CosmosMessage option \<Rightarrow> RawLog \<Rightarrow> nat \<times> StargateEvent \<Rightarrow> CosmosEvent" where
  "newEvent blk tx m log iev =
     \<lparr>event_idx = fst iev, event_block = blk, event_tx = Some tx, event_msg = m,
      event_log = Some log, event = snd iev\<rparr>"

fun wrapLogs ::
    "CosmosClient \<Rightarrow> CosmosBlock \<Rightarrow> CosmosTransaction \<Rightarrow> RawLog list \<Rightarrow> DecodedTxRaw cell \<Rightarrow> nat \<Rightarrow>
     CosmosEvent list \<times> DecodedTxRaw cell" where
  "wrapLogs api blk tx [] c off = ([], c)"
| "wrapLogs api blk tx (log # logs) c off =
     (case wrapCosmosMsg api blk (tx, c) (msg_index log) of
        (r, c') \<Rightarrow>
          (let m = (case r of Inl e \<Rightarrow> None | Inr m \<Rightarrow> Some m);
               evs = map (newEvent blk tx m log) (List.enumerate off (log_events log))
           in (case wrapLogs api blk tx logs c' (off + length (log_events log)) of
                 (evs', c'') \<Rightarrow> (evs @ evs', c''))))"

text \<open>A transaction whose raw log does not parse is skipped.\<close>

fun wrapEvent ::
    "cosmjs_lib \<Rightarrow> CosmosClient \<Rightarrow> CosmosBlock \<Rightarrow> tx_object list \<Rightarrow> nat \<Rightarrow>
     CosmosEvent list \<times> tx_object list" where
  "wrapEvent J api blk [] idxOffset = ([], [])"
| "wrapEvent J api blk ((tx, c) # txs) idxOffset =
     (case parseRawLog J (tx_log (tx_data tx)) of
        Inl e \<Rightarrow>
          (case wrapEvent J api blk txs idxOffset of (evs', txs') \<Rightarrow> (evs', (tx, c) # txs'))
      | Inr logs \<Rightarrow>
          (case wrapLogs api blk tx logs c idxOffset of
             (evs, c') \<Rightarrow>
               (case wrapEvent J api blk txs (idxOffset + length evs) of
                  (evs', txs') \<Rightarrow> (evs @ evs', (tx, c') # txs'))))"

section \<open>What the wrapping computes\<close>

text \<open>The messages of a transaction by position, and the message an event of a log belongs to.\<close>

definition messagesOf :: "CosmosClient \<Rightarrow> CosmosBlock \<Rightarrow> CosmosTransaction \<Rightarrow> DecodedTxRaw \<Rightarrow> CosmosMessage list" where
  "messagesOf api blk tx d =
     map (\<lambda>(i, raw). newMessage api blk tx (int i) raw) (List.enumerate 0 (body_messages d))"

definition locateMsg :: "CosmosClient \<Rightarrow> CosmosBlock \<Rightarrow> tx_object \<Rightarrow> int \<Rightarrow> CosmosMessage option" where
  "locateMsg api blk txo i =
     (case peek (snd txo) of
        Inr (Some d) \<Rightarrow> map_option (newMessage api blk (fst txo) i) (jsIndex (body_messages d) i)
      | _ \<Rightarrow> None)"

definition logEvents ::
    "CosmosClient \<Rightarrow> CosmosBlock \<Rightarrow> tx_object \<Rightarrow> RawLog \<Rightarrow> (nat \<Rightarrow> CosmosEvent) list" where
  "logEvents api blk txo log =
     map (\<lambda>ev i. newEvent blk (fst txo) (locateMsg api blk txo (msg_index log)) log (i, ev)) (log_events log)"

text \<open>The events of a transaction, each a function of the index it will get.\<close>

definition txEvents ::
    "cosmjs_lib \<Rightarrow> CosmosClient \<Rightarrow> CosmosBlock \<Rightarrow> tx_object \<Rightarrow> (nat \<Rightarrow> CosmosEvent) list" where
  "txEvents J api blk txo =
     (case parseRawLog J (tx_log (tx_data (fst txo))) of
        Inl e \<Rightarrow> []
      | Inr logs \<Rightarrow> concat (map (logEvents api blk txo) logs))"

definition numberFrom :: "nat \<Rightarrow> (nat \<Rightarrow> 'e) list \<Rightarrow> 'e list" where
  "numberFrom off fs = map (\<lambda>(i, f). f i) (List.enumerate off fs)"

lemma numberFrom_Nil [simp]: "numberFrom off [] = []"
  by (simp add: numberFrom_def)

lemma length_numberFrom [simp]: "length (numberFrom off fs) = length fs"
  by (simp add: numberFrom_def)

lemma numberFrom_append: "numberFrom off (xs @ ys) = numberFrom off xs @ numberFrom (off + length xs) ys"
  by (simp add: numberFrom_def enumerate_append_eq)

lemma nth_numberFrom: "k < length fs \<Longrightarrow> numberFrom off fs ! k = (fs ! k) (off + k)"
  by (simp add: numberFrom_def nth_enumerate_eq)

lemma wrapCosmosMsg_state: "snd (wrapCosmosMsg api blk txo i) = snd (force (snd txo))"
  by (cases "snd txo" rule: force.cases) (auto simp: wrapCosmosMsg_def split: option.splits)

lemma wrapCosmosMsg_located:
  "(case fst (wrapCosmosMsg api blk txo i) of Inl e \<Rightarrow> None | Inr m \<Rightarrow> Some m) = locateMsg api blk txo i"
  by (cases "snd txo" rule: force.cases) (auto simp: wrapCosmosMsg_def locateMsg_def split: option.splits)

text \<open>Reading the accessor once, even if it throws, does not change which message is located.\<close>

lemma locateMsg_force: "locateMsg api blk (tx, snd (force c)) i = locateMsg api blk (tx, c) i"
  by (cases c rule: force.cases) (simp_all add: locateMsg_def)

lemma logEvents_force: "logEvents api blk (tx, snd (force c)) = logEvents api blk (tx, c)"
  by (simp add: logEvents_def locateMsg_force fun_eq_iff)

lemma wrapLogs_spec:
  "wrapLogs api blk tx logs c off =
     (numberFrom off (concat (map (logEvents api blk (tx, c)) logs)),
      if logs = [] then c else snd (force c))"
proof (induction logs arbitrary: c off)
  case (Cons log logs)
  obtain r c' where w: "wrapCosmosMsg api blk (tx, c) (msg_index log) = (r, c')"
    by (cases "wrapCosmosMsg api blk (tx, c) (msg_index log)")
  have c': "c' = snd (force c)"
    using wrapCosmosMsg_state [of api blk "(tx, c)" "msg_index log"] w by simp
  have m: "(case r of Inl e \<Rightarrow> None | Inr m \<Rightarrow> Some m) = locateMsg api blk (tx, c) (msg_index log)"
    using wrapCosmosMsg_located [of api blk "(tx, c)" "msg_index log"] w by simp
  have e: "logEvents api blk (tx, c') = logEvents api blk (tx, c)"
    by (simp add: c' logEvents_force)
  have f: "snd (force c') = c'" by (simp add: c' force_done force_not_Getter)
  have n: "map (newEvent blk tx (locateMsg api blk (tx, c) (msg_index log)) log)
      (List.enumerate off (log_events log)) = numberFrom off (logEvents api blk (tx, c) log)"
    by (rule nth_equalityI)
      (simp_all add: logEvents_def nth_numberFrom nth_enumerate_eq)
  have l: "length (logEvents api blk (tx, c) log) = length (log_events log)"
    by (simp add: logEvents_def)
  show ?case
    by (simp add: w m n e f l Let_def Cons.IH numberFrom_append c'[symmetric])
qed simp

definition visited :: "cosmjs_lib \<Rightarrow> tx_object \<Rightarrow> tx_object" where
  "visited J txo =
     (fst txo,
      case parseRawLog J (tx_log (tx_data (fst txo))) of
        Inr (l # ls) \<Rightarrow> snd (force (snd txo))
      | _ \<Rightarrow> snd txo)"

lemma wrapEvent_spec:
  "wrapEvent J api blk txs off = (numberFrom off (concat (map (txEvents J api blk) txs)), map (visited J) txs)"
proof (induction J api blk txs off rule: wrapEvent.induct)
  case (2 J api blk tx c txs off)
  show ?case
  proof (cases "parseRawLog J (tx_log (tx_data tx))")
    case (Inl e)
    with 2 show ?thesis by (simp add: txEvents_def visited_def)
  next
    case (Inr logs)
    have "wrapLogs api blk tx logs c off =
        (numberFrom off (txEvents J api blk (tx, c)), snd (visited J (tx, c)))"
      by (cases logs) (simp_all add: wrapLogs_spec txEvents_def visited_def Inr)
    with 2(2) [OF Inr] Inr show ?thesis
      by (simp add: numberFrom_append visited_def)
  qed
qed simp

lemma wrapMsgLoop_Value:
  "\<forall>i \<in> set is. i < length (body_messages d) \<Longrightarrow>
   wrapMsgLoop api blk tx is (Value d) =
     (Inr (map (\<lambda>i. newMessage api blk tx (int i) (body_messages d ! i)) is), Value d)"
  by (induction "is") (simp_all add: wrapCosmosMsg_def)

lemma messagesOf_alt:
  "messagesOf api blk tx d =
     map (\<lambda>i. newMessage api blk tx (int i) (body_messages d ! i)) [0..<length (body_messages d)]"
  by (rule nth_equalityI) (simp_all add: messagesOf_def nth_enumerate_eq)

definition txMessages :: "CosmosClient \<Rightarrow> CosmosBlock \<Rightarrow> tx_object \<Rightarrow> CosmosMessage list result" where
  "txMessages api blk txo =
     rbind (peek (snd txo)) (\<lambda>d. case d of
        None \<Rightarrow> throwTypeError ''Cannot read properties of undefined (reading body)''
      | Some d \<Rightarrow> Inr (messagesOf api blk (fst txo) d))"

lemma wrapTxMsg_spec: "wrapTxMsg api blk txo = (txMessages api blk txo, snd (force (snd txo)))"
  by (cases "snd txo" rule: force.cases)
    (simp_all add: wrapTxMsg_def txMessages_def wrapMsgLoop_Value messagesOf_alt)

definition forced :: "tx_object \<Rightarrow> tx_object" where
  "forced txo = (fst txo, snd (force (snd txo)))"

lemma wrapMsg_result:
  "fst (wrapMsg api blk txs) = rbind (rmap (txMessages api blk) txs) (\<lambda>mss. Inr (concat mss))"
proof (induction txs)
  case (Cons txo txs)
  then show ?case
    by (cases "txMessages api blk txo"; cases "rmap (txMessages api blk) txs"; cases "wrapMsg api blk txs")
      (auto simp: wrapTxMsg_spec)
qed simp

lemma wrapMsg_state:
  "\<exists>n. snd (wrapMsg api blk txs) = map forced (take n txs) @ drop n txs \<and>
       (\<forall>ms. fst (wrapMsg api blk txs) = Inr ms \<longrightarrow> n = length txs)"
proof (induction txs)
  case (Cons txo txs)
  then obtain n where n: "snd (wrapMsg api blk txs) = map forced (take n txs) @ drop n txs"
    "\<And>ms. fst (wrapMsg api blk txs) = Inr ms \<Longrightarrow> n = length txs" by blast
  obtain r txs' where w: "wrapMsg api blk txs = (r, txs')" by (cases "wrapMsg api blk txs")
  show ?case
  proof (cases "txMessages api blk txo")
    case (Inl e)
    then show ?thesis by (intro exI [of _ 1]) (simp add: wrapTxMsg_spec forced_def)
  next
    case (Inr ms)
    with n w show ?thesis
      by (intro exI [of _ "Suc n"]) (auto simp: wrapTxMsg_spec forced_def split: sum.splits)
  qed
qed simp

lemma txEvents_forced: "txEvents J api blk (forced txo) = txEvents J api blk txo"
  by (cases txo) (simp add: txEvents_def forced_def logEvents_force split: sum.splits)

lemma txEvents_visited: "txEvents J api blk (visited J txo) = txEvents J api blk txo"
  using txEvents_forced [of J api blk txo]
  by (auto simp: visited_def forced_def split: sum.splits list.splits)

lemma txMessages_forced: "txMessages api blk txo = Inr ms \<Longrightarrow> txMessages api blk (forced txo) = Inr ms"
  by (cases txo; cases "snd txo" rule: force.cases) (simp_all add: txMessages_def forced_def)

lemma txMessages_forced_Inr: "txMessages api blk (forced txo) = Inr ms \<longleftrightarrow> txMessages api blk txo = Inr ms"
  by (cases txo; cases "snd txo" rule: force.cases) (auto simp: txMessages_def forced_def)

lemma rmap_Inr_cong:
  assumes "\<And>x y. x \<in> set xs \<Longrightarrow> f (h x) = Inr y \<longleftrightarrow> f x = Inr y"
  shows "rmap f (map h xs) = Inr ys \<longleftrightarrow> rmap f xs = Inr ys"
  using assms by (induction xs arbitrary: ys) (auto simp: result_simps)

lemma wrapMsg_visited:
  "fst (wrapMsg api blk (map (visited J) txs)) = Inr ms \<longleftrightarrow> fst (wrapMsg api blk txs) = Inr ms"
proof -
  have "txMessages api blk (visited J txo) = Inr y \<longleftrightarrow> txMessages api blk txo = Inr y" for txo y
    using txMessages_forced_Inr [of api blk txo y]
    by (auto simp: visited_def forced_def split: sum.splits list.splits)
  then have "rmap (txMessages api blk) (map (visited J) txs) = Inr mss \<longleftrightarrow>
      rmap (txMessages api blk) txs = Inr mss" for mss
    by (rule rmap_Inr_cong)
  then show ?thesis by (simp add: wrapMsg_result rbind_Inr_iff)
qed

lemma wrapEvent_after_wrapMsg:
  "fst (wrapEvent J api blk (snd (wrapMsg api blk txs)) off) = fst (wrapEvent J api blk txs off)"
proof -
  obtain n where n: "snd (wrapMsg api blk txs) = map forced (take n txs) @ drop n txs"
    using wrapMsg_state [of api blk txs] by blast
  let ?h = "txEvents J api blk"
  have "map ?h (map forced (take n txs) @ drop n txs) = map ?h (take n txs) @ map ?h (drop n txs)"
    by (simp add: txEvents_forced comp_def)
  also have "\<dots> = map ?h txs" by (metis append_take_drop_id map_append)
  finally have "map ?h (map forced (take n txs) @ drop n txs) = map ?h txs" .
  then show ?thesis by (simp only: n wrapEvent_spec fst_conv)
qed

section \<open>Properties of the wrapping\<close>

lemma wrapTx_total:
  assumes "\<And>b. \<exists>d. sha256 J (Some b) = Inr d" and "length txResults \<le> length (block_txs (block blk))"
  shows "\<exists>txs. wrapTx J blk txResults = Inr txs"
proof -
  have "\<exists>y. wrapOneTx J blk x = Inr y" if "x \<in> set (List.enumerate 0 txResults)" for x
  proof -
    from that assms(2) have "fst x < length (block_txs (block blk))"
      by (auto simp: in_set_enumerate_eq)
    with assms(1) [of "block_txs (block blk) ! fst x"] show ?thesis
      by (auto simp: wrapOneTx_def)
  qed
  then have "wrapOneTx J blk x = Inr (projr (wrapOneTx J blk x))" if "x \<in> set (List.enumerate 0 txResults)" for x
    using that by (metis sum.sel(2))
  then have "rmap (wrapOneTx J blk) (List.enumerate 0 txResults) =
      Inr (map (\<lambda>x. projr (wrapOneTx J blk x)) (List.enumerate 0 txResults))"
    by (rule rmap_total)
  then show ?thesis unfolding wrapTx_def by blast
qed

lemma wrapTx_nth:
  assumes "wrapTx J blk txResults = Inr txs" and "k < length txResults"
  shows "length txs = length txResults \<and> wrapOneTx J blk (k, txResults ! k) = Inr (txs ! k)"
proof -
  from assms(1) have m: "map (wrapOneTx J blk) (List.enumerate 0 txResults) = map Inr txs"
    by (simp add: wrapTx_def rmap_Inr_iff)
  then have l: "length txs = length txResults" by (metis length_map length_enumerate)
  with m assms(2) have "wrapOneTx J blk (List.enumerate 0 txResults ! k) = Inr (txs ! k)"
    by (metis length_map length_enumerate nth_map)
  with l assms(2) show ?thesis by (simp add: nth_enumerate_eq)
qed

text \<open>
  For a block with as many raw transactions as results, wrapping succeeds, and the k-th wrapped
  transaction has index k, the k-th result, the upper-case hexadecimal hash of the k-th raw
  transaction and, behind its accessor, the decoding of that same raw transaction.
\<close>

theorem wrapTx_correct:
  assumes "\<And>b. \<exists>d. sha256 J (Some b) = Inr d" and "length txResults = length (block_txs (block blk))"
  shows "\<exists>txs. wrapTx J blk txResults = Inr txs \<and> length txs = length txResults \<and>
    (\<forall>k < length txResults. \<exists>d. sha256 J (Some (block_txs (block blk) ! k)) = Inr d \<and>
       txs ! k = (\<lparr>tx_idx = k, tx_block = blk, tx_hash = toUpperCase (toHex J d), tx_data = txResults ! k\<rparr>,
                  Getter (decodeTxRaw J (Some (block_txs (block blk) ! k)))))"
proof -
  obtain txs where t: "wrapTx J blk txResults = Inr txs" using wrapTx_total assms by (metis order_refl)
  have "\<exists>d. sha256 J (Some (block_txs (block blk) ! k)) = Inr d \<and>
       txs ! k = (\<lparr>tx_idx = k, tx_block = blk, tx_hash = toUpperCase (toHex J d), tx_data = txResults ! k\<rparr>,
                  Getter (decodeTxRaw J (Some (block_txs (block blk) ! k))))"
    if "k < length txResults" for k
    using wrapTx_nth [OF t that] that assms by (auto simp: wrapOneTx_def Let_def rbind_Inr_iff)
  moreover have "length txs = length txResults"
    using t by (auto simp: wrapTx_def dest: rmap_length)
  ultimately show ?thesis using t by blast
qed

text \<open>A concrete instance of the libraries, on which the properties are evaluated.\<close>

definition hexDigit :: "nat \<Rightarrow> char" where
  "hexDigit d = (if d < 10 then char_of (48 + d) else char_of (87 + d))"

definition hexEncode :: "bytes \<Rightarrow> string" where
  "hexEncode bs = concat (map (\<lambda>b. [hexDigit (unat b div 16), hexDigit (unat b mod 16)]) bs)"

definition transferRaw :: EncodeObject where
  "transferRaw = \<lparr>any_typeUrl = ''/cosmos.bank.v1beta1.MsgSend'', any_value = [7]\<rparr>"

definition sampleEvent :: StargateEvent where
  "sampleEvent = \<lparr>event_type = ''wasm'', attributes = [(''action'', ''swap'')]\<rparr>"

text \<open>
  Transaction \<^verbatim>\<open>[1, 2]\<close> holds two messages and a log of two entries, of which the second points at
  no message; the log of the failed transaction does not parse.
\<close>

definition sampleLib :: cosmjs_lib where
  "sampleLib =
     \<lparr>toHex = hexEncode,
      sha256 = (\<lambda>b. case b of None \<Rightarrow> Inr [] | Some bs \<Rightarrow> Inr bs),
      decodeTxRaw = (\<lambda>b. Inr \<lparr>body_messages =
        (if b = Some [1, 2] then [sampleRaw, transferRaw] else [transferRaw])\<rparr>),
      fromTendermintEvent = (\<lambda>e. \<lparr>event_type = tm_type e, attributes = tm_attributes e\<rparr>),
      parseRawLog = (\<lambda>l. if l = Some ''ok''
        then Inr [\<lparr>msg_index = 0, log_events = [sampleEvent]\<rparr>, \<lparr>msg_index = 5, log_events = [sampleEvent]\<rparr>]
        else throwError ''Unexpected token o in JSON'')\<rparr>"

lemma sampleLib_sha256: "\<exists>d. sha256 sampleLib (Some b) = Inr d"
  by (simp add: sampleLib_def)

theorem wrapTx_correct_witness:
  "\<exists>txs. wrapTx sampleLib sampleBlock [okTx, failedTx] = Inr txs \<and> length txs = length [okTx, failedTx] \<and>
    (\<forall>k < length [okTx, failedTx]. \<exists>d. sha256 sampleLib (Some (block_txs (block sampleBlock) ! k)) = Inr d \<and>
       txs ! k = (\<lparr>tx_idx = k, tx_block = sampleBlock, tx_hash = toUpperCase (toHex sampleLib d),
                   tx_data = [okTx, failedTx] ! k\<rparr>,
                  Getter (decodeTxRaw sampleLib (Some (block_txs (block sampleBlock) ! k)))))"
  by (rule wrapTx_correct [OF sampleLib_sha256]) (simp add: sample_defs)

text \<open>The position of a message: the index of its transaction and its index in it.\<close>

definition msgPosition :: "CosmosMessage \<Rightarrow> nat \<times> int" where
  "msgPosition m = (tx_idx (msg_tx m), msg_idx m)"

lemma positions_messagesOf:
  "map msgPosition (messagesOf api blk tx d) =
     map (\<lambda>i. (tx_idx tx, int i)) [0..<length (body_messages d)]"
  by (simp add: messagesOf_alt newMessage_def msgPosition_def)

lemma txMessages_Inr:
  "txMessages api blk txo = Inr ms \<longleftrightarrow>
   (\<exists>d. peek (snd txo) = Inr (Some d) \<and> ms = messagesOf api blk (fst txo) d)"
  by (auto simp: txMessages_def rbind_Inr_iff split: option.splits)

lemma txMessages_positions:
  "txMessages api blk txo = Inr ms \<Longrightarrow>
   distinct (map msgPosition ms) \<and> (\<forall>m \<in> set ms. tx_idx (msg_tx m) = tx_idx (fst txo))"
  unfolding txMessages_Inr
proof (elim exE conjE, intro conjI)
  fix d assume ms: "ms = messagesOf api blk (fst txo) d"
  show "distinct (map msgPosition ms)"
    unfolding ms positions_messagesOf by (simp add: distinct_map inj_on_def)
  show "\<forall>m \<in> set ms. tx_idx (msg_tx m) = tx_idx (fst txo)"
    unfolding ms messagesOf_alt by (auto simp: newMessage_def)
qed

lemma wrapMsg_decoded:
  assumes "list_all2 (\<lambda>t d. peek (snd t) = Inr (Some d)) txs ds"
  shows "fst (wrapMsg api blk txs) = Inr (concat (map2 (\<lambda>t d. messagesOf api blk (fst t) d) txs ds))"
proof -
  from assms have "rmap (txMessages api blk) txs = Inr (map2 (\<lambda>t d. messagesOf api blk (fst t) d) txs ds)"
    by (induction rule: list_all2_induct) (auto simp: txMessages_def)
  then show ?thesis by (simp add: wrapMsg_result)
qed

lemma distinct_blocks:
  assumes "distinct (map g xs)" and "distinct (map g ys)" and "set (map g xs) \<subseteq> {k} \<times> UNIV"
    and "fst ` g ` set ys \<subseteq> I" and "k \<notin> I"
  shows "distinct (map g (xs @ ys)) \<and> fst ` g ` set (xs @ ys) \<subseteq> insert k I"
proof -
  have "g ` set xs \<inter> g ` set ys = {}" using assms(3-5) by fastforce
  then have "distinct (map g (xs @ ys))" using assms(1,2) by simp
  moreover have "fst ` g ` set (xs @ ys) \<subseteq> insert k I" using assms(3,4) by fastforce
  ultimately show ?thesis ..
qed

lemma distinct_positions:
  assumes "length txs = length ds" and "distinct (map (\<lambda>t. tx_idx (fst t)) txs)"
  shows "distinct (map msgPosition (concat (map2 (\<lambda>t d. messagesOf api blk (fst t) d) txs ds))) \<and>
    fst ` msgPosition ` set (concat (map2 (\<lambda>t d. messagesOf api blk (fst t) d) txs ds))
      \<subseteq> (\<lambda>t. tx_idx (fst t)) ` set txs"
  using assms
proof (induction txs ds rule: list_induct2)
  case (Cons t txs d ds)
  let ?ms = "messagesOf api blk (fst t) d" and ?rest = "concat (map2 (\<lambda>t d. messagesOf api blk (fst t) d) txs ds)"
  have 1: "set (map msgPosition ?ms) \<subseteq> {tx_idx (fst t)} \<times> UNIV" and "distinct (map msgPosition ?ms)"
    unfolding positions_messagesOf by (auto simp: distinct_map inj_on_def)
  moreover have "tx_idx (fst t) \<notin> (\<lambda>t. tx_idx (fst t)) ` set txs" using Cons.prems by simp
  moreover have "distinct (map msgPosition ?rest)"
    and "fst ` msgPosition ` set ?rest \<subseteq> (\<lambda>t. tx_idx (fst t)) ` set txs" using Cons by simp_all
  ultimately show ?case
    using distinct_blocks [of msgPosition ?ms ?rest "tx_idx (fst t)" "(\<lambda>t. tx_idx (fst t)) ` set txs"]
    by simp
qed simp

text \<open>
  C10: when every transaction decodes, \<^verbatim>\<open>wrapMsg\<close> returns the messages of all transactions, in the order
  of the transactions and of the messages in each, and every position (transaction index, message
  index) is taken by exactly one of them.
\<close>

theorem wrapMsg_correct:
  assumes "list_all2 (\<lambda>t d. peek (snd t) = Inr (Some d)) txs ds"
    and "distinct (map (\<lambda>t. tx_idx (fst t)) txs)"
  shows "\<exists>ms. fst (wrapMsg api blk txs) = Inr ms \<and> distinct (map msgPosition ms) \<and>
    map (\<lambda>m. (msg_tx m, msg_idx m, typeUrl m)) ms =
      concat (map2 (\<lambda>t d. map (\<lambda>(i, raw). (fst t, int i, any_typeUrl raw))
        (List.enumerate 0 (body_messages d))) txs ds)"
proof -
  have "length txs = length ds" using assms(1) by (rule list_all2_lengthD)
  moreover have "map (\<lambda>m. (msg_tx m, msg_idx m, typeUrl m)) (messagesOf api blk t d) =
      map (\<lambda>(i, raw). (t, int i, any_typeUrl raw)) (List.enumerate 0 (body_messages d))" for t d
    by (simp add: messagesOf_def newMessage_def split_def)
  ultimately show ?thesis
    using wrapMsg_decoded [OF assms(1), of api blk] distinct_positions [of txs ds api blk] assms(2)
    by (simp add: map_concat comp_def split_def)
qed

definition sampleTxs :: "tx_object list" where
  "sampleTxs =
     [(sampleTx, Getter (Inr \<lparr>body_messages = [sampleRaw, transferRaw]\<rparr>)),
      (sampleFailedTx, Value \<lparr>body_messages = [transferRaw]\<rparr>)]"

theorem wrapMsg_correct_witness:
  "\<exists>ms. fst (wrapMsg (sampleClient swapText) sampleBlock sampleTxs) = Inr ms \<and> distinct (map msgPosition ms) \<and>
    map (\<lambda>m. (msg_tx m, msg_idx m, typeUrl m)) ms =
      [(sampleTx, 0, any_typeUrl sampleRaw), (sampleTx, 1, any_typeUrl transferRaw),
       (sampleFailedTx, 0, any_typeUrl transferRaw)]"
  using wrapMsg_correct [of sampleTxs
      "[\<lparr>body_messages = [sampleRaw, transferRaw]\<rparr>, \<lparr>body_messages = [transferRaw]\<rparr>]"
      "sampleClient swapText" sampleBlock]
  by (simp add: sampleTxs_def sampleTx_def sampleFailedTx_def)

lemma event_idx_txEvents:
  "f \<in> set (txEvents J api blk txo) \<Longrightarrow> event_idx (f i) = i \<and> event_block (f i) = blk \<and>
    event_tx (f i) = Some (fst txo) \<and>
    (\<exists>log. event_log (f i) = Some log \<and> event_msg (f i) = locateMsg api blk txo (msg_index log))"
  by (auto simp: txEvents_def logEvents_def newEvent_def split: sum.splits)

lemma map_numberFrom:
  "(\<And>f i. f \<in> set fs \<Longrightarrow> g (f i) = i) \<Longrightarrow> map g (numberFrom off fs) = [off..<off + length fs]"
  by (rule nth_equalityI) (simp_all add: nth_numberFrom)

lemma event_idx_numberFrom:
  "map event_idx (numberFrom off (concat (map (txEvents J api blk) txs))) =
     [off..<off + length (concat (map (txEvents J api blk) txs))]"
  by (rule map_numberFrom) (auto dest: event_idx_txEvents)

lemma set_numberFrom: "e \<in> set (numberFrom off fs) \<Longrightarrow> \<exists>f \<in> set fs. \<exists>i. e = f i"
  by (auto simp: numberFrom_def in_set_enumerate_eq) (metis less_diff_conv2 nth_mem)

lemma locateMsg_in_txMessages:
  "locateMsg api blk txo i = Some m \<Longrightarrow> \<exists>ms. txMessages api blk txo = Inr ms \<and> m \<in> set ms"
  by (auto simp: locateMsg_def txMessages_Inr messagesOf_alt result_simps
      split: sum.splits option.splits)

lemma wrapEvent_events:
  assumes "fst (wrapMsg api blk txs) = Inr ms"
  shows "map event_idx (fst (wrapEvent J api blk txs off)) =
      [off..<off + length (fst (wrapEvent J api blk txs off))] \<and>
    (\<forall>e \<in> set (fst (wrapEvent J api blk txs off)).
       \<exists>tx \<in> fst ` set txs. \<exists>log. event_tx e = Some tx \<and> event_log e = Some log \<and>
         (\<forall>m. event_msg e = Some m \<longrightarrow> m \<in> set ms \<and> msg_tx m = tx \<and> msg_idx m = msg_index log))"
proof (intro conjI ballI)
  show "map event_idx (fst (wrapEvent J api blk txs off)) =
      [off..<off + length (fst (wrapEvent J api blk txs off))]"
    by (simp add: wrapEvent_spec event_idx_numberFrom)
next
  fix e assume "e \<in> set (fst (wrapEvent J api blk txs off))"
  then obtain txo f i where t: "txo \<in> set txs" "f \<in> set (txEvents J api blk txo)" "e = f i"
    by (auto simp: wrapEvent_spec dest!: set_numberFrom)
  from event_idx_txEvents [OF t(2), of i] t(3) obtain log where l: "event_log e = Some log"
    "event_msg e = locateMsg api blk txo (msg_index log)" "event_tx e = Some (fst txo)" by auto
  have "m \<in> set ms \<and> msg_tx m = fst txo \<and> msg_idx m = msg_index log" if m: "event_msg e = Some m" for m
  proof -
    obtain mss where r: "rmap (txMessages api blk) txs = Inr mss" "ms = concat mss"
      using assms by (auto simp: wrapMsg_result rbind_Inr_iff)
    from m l obtain ms1 where ms1: "txMessages api blk txo = Inr ms1" "m \<in> set ms1"
      using locateMsg_in_txMessages by metis
    have "map (txMessages api blk) txs = map Inr mss" using r(1) by (simp add: rmap_Inr_iff)
    moreover have "txMessages api blk txo \<in> set (map (txMessages api blk) txs)" using t(1) by simp
    ultimately have "ms1 \<in> set mss" using ms1(1) by auto
    with ms1 r(2) have "m \<in> set ms" by auto
    moreover have "msg_tx m = fst txo \<and> msg_idx m = msg_index log"
      using m l(2) by (auto simp: locateMsg_def newMessage_def split: sum.splits option.splits)
    ultimately show ?thesis by simp
  qed
  with l t(1) show "\<exists>tx \<in> fst ` set txs. \<exists>log. event_tx e = Some tx \<and> event_log e = Some log \<and>
         (\<forall>m. event_msg e = Some m \<longrightarrow> m \<in> set ms \<and> msg_tx m = tx \<and> msg_idx m = msg_index log)"
    by blast
qed

text \<open>What the parsed logs of the transactions say of the events, in order.\<close>

definition parsedLogs :: "cosmjs_lib \<Rightarrow> CosmosTransaction \<Rightarrow> RawLog list" where
  "parsedLogs J tx = (case parseRawLog J (tx_log (tx_data tx)) of Inl e \<Rightarrow> [] | Inr logs \<Rightarrow> logs)"

lemma txEvents_parsed: "txEvents J api blk txo = concat (map (logEvents api blk txo) (parsedLogs J (fst txo)))"
  by (simp add: txEvents_def parsedLogs_def split: sum.splits)

text \<open>All fields of an event but its index.\<close>

abbreviation eventFields :: "CosmosEvent \<Rightarrow>
    CosmosBlock \<times> CosmosTransaction option \<times> RawLog option \<times> CosmosMessage option \<times> StargateEvent" where
  "eventFields e \<equiv> (event_block e, event_tx e, event_log e, event_msg e, event e)"

lemma numberFrom_fields:
  "(\<And>f i. f \<in> set fs \<Longrightarrow> g (f i) = h f) \<Longrightarrow> map g (numberFrom off fs) = map h fs"
  by (rule nth_equalityI) (simp_all add: nth_numberFrom)

lemma logEvents_fields:
  "map (\<lambda>f. eventFields (f 0)) (logEvents api blk txo log) =
     map (\<lambda>ev. (blk, Some (fst txo), Some log, locateMsg api blk txo (msg_index log), ev)) (log_events log)"
  by (simp add: logEvents_def newEvent_def)

lemma wrapEvent_fields:
  "map eventFields (fst (wrapEvent J api blk txs off)) =
     concat (map (\<lambda>txo. concat (map (\<lambda>log.
       map (\<lambda>ev. (blk, Some (fst txo), Some log, locateMsg api blk txo (msg_index log), ev)) (log_events log))
       (parsedLogs J (fst txo)))) txs)"
proof -
  have "map eventFields (numberFrom off (concat (map (txEvents J api blk) txs))) =
      map (\<lambda>f. eventFields (f 0)) (concat (map (txEvents J api blk) txs))"
    by (rule numberFrom_fields) (auto simp: txEvents_parsed logEvents_def newEvent_def)
  then show ?thesis
    by (simp add: wrapEvent_spec map_concat txEvents_parsed comp_def logEvents_fields)
qed

text \<open>The message at a position, found among the messages of all transactions.\<close>

lemma find_unique:
  assumes "x \<in> set xs" and "P x" and "\<And>y. y \<in> set xs \<Longrightarrow> P y \<Longrightarrow> y = x"
  shows "List.find P xs = Some x"
proof (cases "List.find P xs")
  case None
  with assms(1,2) show ?thesis by (simp add: find_None_iff)
next
  case (Some y)
  then have "y \<in> set xs" "P y" by (auto simp: find_Some_iff)
  with assms(3) Some show ?thesis by blast
qed

lemma txMessages_find:
  assumes "peek (snd txo) = Inr (Some d)"
  shows "List.find (\<lambda>m. msg_idx m = i) (messagesOf api blk (fst txo) d) = locateMsg api blk txo i"
proof (cases "jsIndex (body_messages d) i")
  case None
  then show ?thesis using assms
    by (auto simp: locateMsg_def find_None_iff messagesOf_alt newMessage_def jsIndex_def split: if_splits)
next
  case (Some raw)
  then have i: "0 \<le> i" "nat i < length (body_messages d)" "raw = body_messages d ! nat i"
    by (auto simp: jsIndex_def split: if_splits)
  then show ?thesis using assms Some
    by (intro trans [OF find_unique [of "newMessage api blk (fst txo) i raw"]])
      (auto simp: messagesOf_alt newMessage_def locateMsg_def image_iff intro!: bexI [of _ "nat i"])
qed

lemma find_in_concat:
  assumes "xs \<in> set xss" and "\<And>ys y. ys \<in> set xss \<Longrightarrow> y \<in> set ys \<Longrightarrow> P y \<Longrightarrow> ys = xs"
  shows "List.find P (concat xss) = List.find P xs"
  using assms
proof (induction xss)
  case (Cons zs xss)
  have a: "List.find P (us @ vs) = (case List.find P us of None \<Rightarrow> List.find P vs | Some u \<Rightarrow> Some u)" for us vs
    by (induction us) auto
  show ?case
  proof (cases "List.find P zs")
    case None
    show ?thesis
    proof (cases "xs \<in> set xss")
      case True
      with Cons.IH Cons.prems(2) have "List.find P (concat xss) = List.find P xs" by auto
      with None show ?thesis by (simp add: a)
    next
      case False
      with Cons.prems(1) have z: "zs = xs" by simp
      have "List.find P (concat xss) = None"
        using Cons.prems(2) False by (auto simp: find_None_iff)
      with None z show ?thesis by (simp add: a)
    qed
  next
    case (Some z)
    then have "z \<in> set zs" "P z" by (auto simp: find_Some_iff)
    with Cons.prems(2) [of zs z] Some show ?thesis by (simp add: a)
  qed
qed simp

lemma wrapMsg_find:
  assumes "fst (wrapMsg api blk txs) = Inr ms" and "distinct (map (\<lambda>t. tx_idx (fst t)) txs)" and "txo \<in> set txs"
  shows "List.find (\<lambda>m. msg_tx m = fst txo \<and> msg_idx m = i) ms = locateMsg api blk txo i"
proof -
  obtain mss where r: "rmap (txMessages api blk) txs = Inr mss" "ms = concat mss"
    using assms(1) by (auto simp: wrapMsg_result rbind_Inr_iff)
  then have m: "map (txMessages api blk) txs = map Inr mss" by (simp add: rmap_Inr_iff)
  have "txMessages api blk txo \<in> set (map (txMessages api blk) txs)" using assms(3) by simp
  then obtain ms1 where ms1: "txMessages api blk txo = Inr ms1" "ms1 \<in> set mss" unfolding m by auto
  have tx: "txo' = txo" if "txo' \<in> set txs" "fst txo' = fst txo" for txo'
    using assms(2,3) that unfolding distinct_map by (metis inj_onD)
  have owner: "\<exists>txo' \<in> set txs. txMessages api blk txo' = Inr ys \<and> (\<forall>y \<in> set ys. msg_tx y = fst txo')"
    if "ys \<in> set mss" for ys
  proof -
    from that have "Inr ys \<in> set (map (txMessages api blk) txs)" unfolding m by simp
    then obtain txo' where "txo' \<in> set txs" "txMessages api blk txo' = Inr ys" by auto
    then show ?thesis by (intro bexI [of _ txo']) (auto simp: txMessages_Inr messagesOf_alt newMessage_def)
  qed
  have "List.find (\<lambda>m. msg_tx m = fst txo \<and> msg_idx m = i) ms =
      List.find (\<lambda>m. msg_tx m = fst txo \<and> msg_idx m = i) ms1"
    unfolding r(2)
  proof (rule find_in_concat [OF ms1(2)])
    fix ys y assume "ys \<in> set mss" "y \<in> set ys" "msg_tx y = fst txo \<and> msg_idx y = i"
    moreover obtain txo' where "txo' \<in> set txs" "txMessages api blk txo' = Inr ys" "\<forall>y \<in> set ys. msg_tx y = fst txo'"
      using owner [OF \<open>ys \<in> set mss\<close>] by blast
    ultimately show "ys = ms1" using tx [of txo'] ms1(1) by simp
  qed
  also obtain d where d: "peek (snd txo) = Inr (Some d)" "ms1 = messagesOf api blk (fst txo) d"
    using ms1(1) by (auto simp: txMessages_Inr)
  then have "List.find (\<lambda>m. msg_tx m = fst txo \<and> msg_idx m = i) ms1 = List.find (\<lambda>m. msg_idx m = i) ms1"
    by (intro find_cong) (auto simp: messagesOf_alt newMessage_def)
  also have "\<dots> = locateMsg api blk txo i" unfolding d(2) by (rule txMessages_find [OF d(1)])
  finally show ?thesis .
qed

text \<open>
  C9: \<^verbatim>\<open>wrapEvent\<close> returns exactly the events of the parsed raw logs: for each transaction in order, each entry of its
  log in order (none if the raw log does not parse), each event of the entry in order, one event carrying the
  block, the transaction, the log entry and the event; they are numbered consecutively from the given offset.  When
  the messages of the transactions can be read, each event carries the message of its transaction at the index its
  log entry names, and no message exactly if there is none at that index.
\<close>

theorem wrapEvent_correct:
  assumes "fst (wrapMsg api blk txs) = Inr ms" and "distinct (map (\<lambda>t. tx_idx (fst t)) txs)"
  shows "map event_idx (fst (wrapEvent J api blk txs off)) =
      [off..<off + length (fst (wrapEvent J api blk txs off))] \<and>
    map eventFields (fst (wrapEvent J api blk txs off)) =
      concat (map (\<lambda>(tx, c). concat (map (\<lambda>log.
        map (\<lambda>ev. (blk, Some tx, Some log,
                    List.find (\<lambda>m. msg_tx m = tx \<and> msg_idx m = msg_index log) ms, ev)) (log_events log))
        (case parseRawLog J (tx_log (tx_data tx)) of Inl e \<Rightarrow> [] | Inr logs \<Rightarrow> logs))) txs)"
proof
  show "map event_idx (fst (wrapEvent J api blk txs off)) =
      [off..<off + length (fst (wrapEvent J api blk txs off))]"
    using wrapEvent_events [OF assms(1)] by blast
  show "map eventFields (fst (wrapEvent J api blk txs off)) =
      concat (map (\<lambda>(tx, c). concat (map (\<lambda>log.
        map (\<lambda>ev. (blk, Some tx, Some log,
                    List.find (\<lambda>m. msg_tx m = tx \<and> msg_idx m = msg_index log) ms, ev)) (log_events log))
        (case parseRawLog J (tx_log (tx_data tx)) of Inl e \<Rightarrow> [] | Inr logs \<Rightarrow> logs))) txs)"
    unfolding wrapEvent_fields parsedLogs_def
    using wrapMsg_find [OF assms, of "(_, _)"] by (intro arg_cong [where f = concat] map_cong) (auto split: prod.split)
qed

theorem wrapEvent_correct_witness:
  "\<exists>ms. fst (wrapMsg (sampleClient swapText) sampleBlock sampleTxs) = Inr ms \<and>
    map event_idx (fst (wrapEvent sampleLib (sampleClient swapText) sampleBlock sampleTxs 3)) = [3, 4] \<and>
    map (\<lambda>e. (event_tx e, map_option msg_idx (event_msg e), event e))
      (fst (wrapEvent sampleLib (sampleClient swapText) sampleBlock sampleTxs 3)) =
      [(Some sampleTx, Some 0, sampleEvent), (Some sampleTx, None, sampleEvent)]"
proof -
  let ?evs = "fst (wrapEvent sampleLib (sampleClient swapText) sampleBlock sampleTxs 3)"
  have 0: "distinct (map (\<lambda>t. tx_idx (fst t)) sampleTxs)" by (simp add: sampleTxs_def sample_defs)
  have 2: "length ?evs = 2"
    by (simp add: wrapEvent_spec sampleTxs_def txEvents_def sampleLib_def logEvents_def sample_defs)
  obtain ms where ms: "fst (wrapMsg (sampleClient swapText) sampleBlock sampleTxs) = Inr ms"
    and m: "List.find (\<lambda>m. msg_tx m = sampleTx \<and> msg_idx m = 0) ms \<noteq> None"
      "List.find (\<lambda>m. msg_tx m = sampleTx \<and> msg_idx m = 5) ms = None"
    by (auto simp: wrapTxMsg_spec sampleTxs_def txMessages_def messagesOf_alt newMessage_def sample_defs)
  note c = wrapEvent_correct [OF ms 0, of sampleLib 3]
  have "map (\<lambda>(b, t, l, m, e). (t, map_option msg_idx m, e)) (map eventFields ?evs) =
      [(Some sampleTx, Some 0, sampleEvent), (Some sampleTx, None, sampleEvent)]"
    unfolding conjunct2 [OF c] using m
    by (auto simp: sampleTxs_def sampleLib_def sampleTx_def sampleFailedTx_def okTx_def failedTx_def find_Some_iff)
  then show ?thesis using ms conjunct1 [OF c] by (intro exI [of _ ms]) (simp add: 2 comp_def)
qed

end
