(* ===== verification/Block_Content.thy ===== *)
theory Block_Content
  imports Wrap "HOL-Library.Multiset"
begin

text \<open>
  The fetching of blocks and the class \<^verbatim>\<open>LazyBlockContent\<close> of \<^verbatim>\<open>utils/cosmos.ts\<close>: a block's parts are
  wrapped when they are first read and cached, and one counter numbers the events of the begin
  of the block, of the transactions and of the end of the block, in the order in which they are
  read.  Every getter is a function of the state of the object that returns what is read, or the
  thrown error, and the new state.
\<close>

record LazyBlockContent =
  lbc_blockInfo :: BlockResponse
  lbc_results :: BlockResultsResponse
  wrappedBlock :: "CosmosBlock option"
  wrappedTransaction :: "tx_object list option"
  wrappedMessage :: "CosmosMessage list option"
  wrappedEvent :: "CosmosEvent list option"
  wrappedBeginBlockEvents :: "CosmosEvent list option"
  wrappedEndBlockEvents :: "CosmosEvent list option"
  eventIdx :: nat

section \<open>Operations\<close>

definition newLazyBlockContent :: "BlockResponse \<Rightarrow> BlockResultsResponse \<Rightarrow> LazyBlockContent" where
  "newLazyBlockContent info res =
     \<lparr>lbc_blockInfo = info, lbc_results = res, wrappedBlock = None, wrappedTransaction = None,
      wrappedMessage = None, wrappedEvent = None, wrappedBeginBlockEvents = None,
      wrappedEndBlockEvents = None, eventIdx = 0\<rparr>"

definition getBlock :: "cosmjs_lib \<Rightarrow> LazyBlockContent \<Rightarrow> CosmosBlock \<times> LazyBlockContent" where
  "getBlock J s =
     (case wrappedBlock s of
        Some b \<Rightarrow> (b, s)
      | None \<Rightarrow>
          (let b = wrapBlock J (lbc_blockInfo s) (results (lbc_results s)) in (b, s\<lparr>wrappedBlock := Some b\<rparr>)))"

definition getTransactions ::
    "cosmjs_lib \<Rightarrow> LazyBlockContent \<Rightarrow> tx_object list result \<times> LazyBlockContent" where
  "getTransactions J s =
     (case wrappedTransaction s of
        Some txs \<Rightarrow> (Inr txs, s)
      | None \<Rightarrow>
          (case getBlock J s of
             (b, s1) \<Rightarrow>
               (case wrapTx J b (results (lbc_results s1)) of
                  Inl e \<Rightarrow> (Inl e, s1)
                | Inr txs \<Rightarrow> (Inr txs, s1\<lparr>wrappedTransaction := Some txs\<rparr>))))"

definition getMessages ::
    "cosmjs_lib \<Rightarrow> CosmosClient \<Rightarrow> LazyBlockContent \<Rightarrow> CosmosMessage list result \<times> LazyBlockContent" where
  "getMessages J api s =
     (case wrappedMessage s of
        Some ms \<Rightarrow> (Inr ms, s)
      | None \<Rightarrow>
          (case getBlock J s of
             (b, s1) \<Rightarrow>
               (case getTransactions J s1 of
                  (Inl e, s2) \<Rightarrow> (Inl e, s2)
                | (Inr txs, s2) \<Rightarrow>
                    (case wrapMsg api b txs of
                       (Inl e, txs') \<Rightarrow> (Inl e, s2\<lparr>wrappedTransaction := Some txs'\<rparr>)
                     | (Inr ms, txs') \<Rightarrow>
                         (Inr ms, s2\<lparr>wrappedTransaction := Some txs', wrappedMessage := Some ms\<rparr>)))))"

definition getEvents ::
    "cosmjs_lib \<Rightarrow> CosmosClient \<Rightarrow> LazyBlockContent \<Rightarrow> CosmosEvent list result \<times> LazyBlockContent" where
  "getEvents J api s =
     (case wrappedEvent s of
        Some evs \<Rightarrow> (Inr evs, s)
      | None \<Rightarrow>
          (case getBlock J s of
             (b, s1) \<Rightarrow>
               (case getTransactions J s1 of
                  (Inl e, s2) \<Rightarrow> (Inl e, s2)
                | (Inr txs, s2) \<Rightarrow>
                    (case wrapEvent J api b txs (eventIdx s2) of
                       (evs, txs') \<Rightarrow>
                         (Inr evs, s2\<lparr>wrappedTransaction := Some txs', wrappedEvent := Some evs,
                                     eventIdx := eventIdx s2 + length evs\<rparr>)))))"

definition getBeginBlockEvents :: "cosmjs_lib \<Rightarrow> LazyBlockContent \<Rightarrow> CosmosEvent list \<times> LazyBlockContent" where
  "getBeginBlockEvents J s =
     (case wrappedBeginBlockEvents s of
        Some evs \<Rightarrow> (evs, s)
      | None \<Rightarrow>
          (case getBlock J s of
             (b, s1) \<Rightarrow>
               (let evs = wrapBlockBeginAndEndEvents J b (res_beginBlockEvents (lbc_results s1)) (eventIdx s1)
                in (evs, s1\<lparr>wrappedBeginBlockEvents := Some evs, eventIdx := eventIdx s1 + length evs\<rparr>))))"

definition getEndBlockEvents :: "cosmjs_lib \<Rightarrow> LazyBlockContent \<Rightarrow> CosmosEvent list \<times> LazyBlockContent" where
  "getEndBlockEvents J s =
     (case wrappedEndBlockEvents s of
        Some evs \<Rightarrow> (evs, s)
      | None \<Rightarrow>
          (case getBlock J s of
             (b, s1) \<Rightarrow>
               (let evs = wrapBlockBeginAndEndEvents J b (res_endBlockEvents (lbc_results s1)) (eventIdx s1)
                in (evs, s1\<lparr>wrappedEndBlockEvents := Some evs, eventIdx := eventIdx s1 + length evs\<rparr>))))"

text \<open>Fetching: both requests of a height run together, and all heights run together.\<close>

definition getBlockByHeight :: "CosmosClient \<Rightarrow> int \<Rightarrow> (BlockResponse \<times> BlockResultsResponse) promise" where
  "getBlockByHeight api h =
     promiseBoth (promiseCatch (handleError (json_parse api)) (blockInfo api h))
                 (promiseCatch (handleError (json_parse api)) (blockResults api h))"

definition fetchCosmosBlocksArray ::
    "CosmosClient \<Rightarrow> int list \<Rightarrow> (BlockResponse \<times> BlockResultsResponse) list promise" where
  "fetchCosmosBlocksArray api blockArray = promiseAll (map (getBlockByHeight api) blockArray)"

definition prepareBlock :: "BlockResponse \<times> BlockResultsResponse \<Rightarrow> LazyBlockContent result" where
  "prepareBlock ir =
     (case ir of (info, res) \<Rightarrow>
        (if length (results res) = length (block_txs (resp_block info))
         then Inr (newLazyBlockContent info res)
         else Inl (JsError ''AssertionError''
           (''txInfos doesn't match up with block ('' @ numberToString (height (block_header (resp_block info))) @
            '') transactions expected '' @ numberToString (int (length (block_txs (resp_block info)))) @
            '', received: '' @ numberToString (int (length (results res)))))))"

definition fetchBlocksBatches :: "CosmosClient \<Rightarrow> int list \<Rightarrow> LazyBlockContent list promise" where
  "fetchBlocksBatches api blockArray =
     promiseThen (fetchCosmosBlocksArray api blockArray) (rmap prepareBlock)"

section \<open>Accesses in any order\<close>

datatype access = ABlock | ATransactions | AMessages | AEvents | ABegin | AEnd

fun touch :: "cosmjs_lib \<Rightarrow> CosmosClient \<Rightarrow> access \<Rightarrow> LazyBlockContent \<Rightarrow> LazyBlockContent" where
  "touch J api ABlock s = snd (getBlock J s)"
| "touch J api ATransactions s = snd (getTransactions J s)"
| "touch J api AMessages s = snd (getMessages J api s)"
| "touch J api AEvents s = snd (getEvents J api s)"
| "touch J api ABegin s = snd (getBeginBlockEvents J s)"
| "touch J api AEnd s = snd (getEndBlockEvents J s)"

text \<open>The states of a content that was created from a response and read any number of times.\<close>

inductive reachable ::
    "cosmjs_lib \<Rightarrow> CosmosClient \<Rightarrow> BlockResponse \<Rightarrow> BlockResultsResponse \<Rightarrow> LazyBlockContent \<Rightarrow> bool"
  for J api info res where
  init: "reachable J api info res (newLazyBlockContent info res)"
| step: "reachable J api info res s \<Longrightarrow> reachable J api info res (touch J api a s)"

section \<open>The eager content of a block\<close>

definition eagerBlock :: "cosmjs_lib \<Rightarrow> BlockResponse \<Rightarrow> BlockResultsResponse \<Rightarrow> CosmosBlock" where
  "eagerBlock J info res = wrapBlock J info (results res)"

definition eagerTxs :: "cosmjs_lib \<Rightarrow> BlockResponse \<Rightarrow> BlockResultsResponse \<Rightarrow> tx_object list result" where
  "eagerTxs J info res = wrapTx J (eagerBlock J info res) (results res)"

definition eagerMessages ::
    "cosmjs_lib \<Rightarrow> CosmosClient \<Rightarrow> BlockResponse \<Rightarrow> BlockResultsResponse \<Rightarrow> CosmosMessage list result" where
  "eagerMessages J api info res =
     rbind (eagerTxs J info res) (\<lambda>txs. fst (wrapMsg api (eagerBlock J info res) txs))"

text \<open>The events of the three sources, numbered from an offset.\<close>

definition eagerEvents ::
    "cosmjs_lib \<Rightarrow> CosmosClient \<Rightarrow> BlockResponse \<Rightarrow> BlockResultsResponse \<Rightarrow> nat \<Rightarrow> CosmosEvent list result" where
  "eagerEvents J api info res off =
     rbind (eagerTxs J info res) (\<lambda>txs. Inr (fst (wrapEvent J api (eagerBlock J info res) txs off)))"

definition eagerBegin :: "cosmjs_lib \<Rightarrow> BlockResponse \<Rightarrow> BlockResultsResponse \<Rightarrow> nat \<Rightarrow> CosmosEvent list" where
  "eagerBegin J info res off =
     wrapBlockBeginAndEndEvents J (eagerBlock J info res) (res_beginBlockEvents res) off"

definition eagerEnd :: "cosmjs_lib \<Rightarrow> BlockResponse \<Rightarrow> BlockResultsResponse \<Rightarrow> nat \<Rightarrow> CosmosEvent list" where
  "eagerEnd J info res off =
     wrapBlockBeginAndEndEvents J (eagerBlock J info res) (res_endBlockEvents res) off"

text \<open>A transaction as wrapped, whose accessor may have been read since.\<close>

definition readTx :: "tx_object \<Rightarrow> tx_object \<Rightarrow> bool" where
  "readTx t t0 = (t = t0 \<or> t = forced t0)"

definition cached :: "'e list option \<Rightarrow> 'e list" where
  "cached eo = (case eo of None \<Rightarrow> [] | Some es \<Rightarrow> es)"

definition handedOut :: "LazyBlockContent \<Rightarrow> CosmosEvent list" where
  "handedOut s =
     cached (wrappedBeginBlockEvents s) @ cached (wrappedEvent s) @ cached (wrappedEndBlockEvents s)"

section \<open>Consistency of the caches\<close>

lemma forced_forced [simp]: "forced (forced t) = forced t"
  by (cases t) (simp add: forced_def force_done force_not_Getter)

lemma readTx_forced: "readTx t t0 \<Longrightarrow> readTx (forced t) t0"
  by (auto simp: readTx_def)

lemma visited_cases: "visited J t = t \<or> visited J t = forced t"
  by (cases t) (auto simp: visited_def forced_def split: sum.splits list.splits)

lemma readTx_visited: "readTx t t0 \<Longrightarrow> readTx (visited J t) t0"
  using visited_cases [of J t] readTx_forced [of t t0] by auto

lemma readTxs_forced:
  "list_all2 readTx txs base \<Longrightarrow> list_all2 readTx (map forced (take n txs) @ drop n txs) base"
  by (auto simp: list_all2_conv_all_nth nth_append readTx_forced min_def)

lemma readTxs_visited: "list_all2 readTx txs base \<Longrightarrow> list_all2 readTx (map (visited J) txs) base"
  by (auto simp: list_all2_conv_all_nth readTx_visited)

lemma readTxs_events: "list_all2 readTx txs base \<Longrightarrow> map (txEvents J api b) txs = map (txEvents J api b) base"
  by (induction rule: list_all2_induct) (auto simp: readTx_def txEvents_forced)

lemma readTxs_wrapEvent:
  "list_all2 readTx txs base \<Longrightarrow> fst (wrapEvent J api b txs off) = fst (wrapEvent J api b base off)"
  by (simp add: wrapEvent_spec readTxs_events)

lemma readTxs_messages:
  assumes "list_all2 readTx txs base"
  shows "fst (wrapMsg api b txs) = Inr ms \<longleftrightarrow> fst (wrapMsg api b base) = Inr ms"
proof -
  from assms have "rmap (txMessages api b) txs = Inr mss \<longleftrightarrow> rmap (txMessages api b) base = Inr mss" for mss
  proof (induction arbitrary: mss rule: list_all2_induct)
    case (Cons t txs t0 base)
    then have "txMessages api b t = Inr x \<longleftrightarrow> txMessages api b t0 = Inr x" for x
      by (auto simp: readTx_def txMessages_forced_Inr)
    with Cons.IH show ?case by (auto simp: rbind_Inr_iff)
  qed simp
  then show ?thesis by (simp add: wrapMsg_result rbind_Inr_iff)
qed

definition cachesAgree ::
    "cosmjs_lib \<Rightarrow> CosmosClient \<Rightarrow> BlockResponse \<Rightarrow> BlockResultsResponse \<Rightarrow> LazyBlockContent \<Rightarrow> bool" where
  "cachesAgree J api info res s \<longleftrightarrow>
     lbc_blockInfo s = info \<and> lbc_results s = res \<and>
     (\<forall>b. wrappedBlock s = Some b \<longrightarrow> b = eagerBlock J info res) \<and>
     (\<forall>txs. wrappedTransaction s = Some txs \<longrightarrow>
        (\<exists>base. eagerTxs J info res = Inr base \<and> list_all2 readTx txs base)) \<and>
     (\<forall>ms. wrappedMessage s = Some ms \<longrightarrow> eagerMessages J api info res = Inr ms) \<and>
     (\<forall>es. wrappedEvent s = Some es \<longrightarrow> (\<exists>off. eagerEvents J api info res off = Inr es)) \<and>
     (\<forall>es. wrappedBeginBlockEvents s = Some es \<longrightarrow> (\<exists>off. es = eagerBegin J info res off)) \<and>
     (\<forall>es. wrappedEndBlockEvents s = Some es \<longrightarrow> (\<exists>off. es = eagerEnd J info res off))"

text \<open>The counter: the indices handed out are the numbers below it, each once.\<close>

definition numbered :: "LazyBlockContent \<Rightarrow> bool" where
  "numbered s \<longleftrightarrow> mset (map event_idx (handedOut s)) = mset [0..<eventIdx s]"

lemma cached_simps [simp]: "cached None = []" "cached (Some es) = es"
  by (simp_all add: cached_def)

lemma mset_upt_extend: "mset [0..<n] + mset [n..<n + k] = mset [0..<n + k]"
  by (metis le_add1 le0 mset_append upt_add_eq_append)

lemma numbered_extend:
  assumes "numbered s" and "mset (handedOut s') = mset (handedOut s) + mset evs"
    and "map event_idx evs = [eventIdx s..<eventIdx s + length evs]" and "eventIdx s' = eventIdx s + length evs"
  shows "numbered s'"
proof -
  have "mset (map event_idx (handedOut s')) = mset (map event_idx (handedOut s)) + mset (map event_idx evs)"
    using assms(2) by simp
  also have "\<dots> = mset [0..<eventIdx s] + mset [eventIdx s..<eventIdx s + length evs]"
    using assms(1,3) by (simp only: numbered_def)
  finally show ?thesis by (simp only: numbered_def mset_upt_extend assms(4))
qed

lemma event_idx_begin_end: "map event_idx (wrapBlockBeginAndEndEvents J b evs off) = [off..<off + length evs]"
  by (rule nth_equalityI) (simp_all add: wrapBlockBeginAndEndEvents_def nth_enumerate_eq)

lemma length_begin_end [simp]: "length (wrapBlockBeginAndEndEvents J b evs off) = length evs"
  by (simp add: wrapBlockBeginAndEndEvents_def)

lemma event_idx_wrapEvent:
  "map event_idx (fst (wrapEvent J api b txs off)) = [off..<off + length (fst (wrapEvent J api b txs off))]"
  by (simp add: wrapEvent_spec event_idx_numberFrom)

lemma getBlock_state: "snd (getBlock J s) = s\<lparr>wrappedBlock := Some (fst (getBlock J s))\<rparr>"
  by (cases s) (auto simp: getBlock_def Let_def split: option.splits)

lemma getBlock_block: "cachesAgree J api info res s \<Longrightarrow> fst (getBlock J s) = eagerBlock J info res"
  by (auto simp: getBlock_def cachesAgree_def eagerBlock_def Let_def split: option.splits)

lemma getBlock_eq:
  "cachesAgree J api info res s \<Longrightarrow>
   getBlock J s = (eagerBlock J info res, s\<lparr>wrappedBlock := Some (eagerBlock J info res)\<rparr>)"
  using getBlock_state [of J s] getBlock_block [of J api info res s] by (metis prod.collapse)

lemma getBlock_agree:
  "cachesAgree J api info res s \<Longrightarrow>
   cachesAgree J api info res (s\<lparr>wrappedBlock := Some (eagerBlock J info res)\<rparr>)"
  by (simp add: cachesAgree_def)

text \<open>Reading the transactions: the state changes only in the two caches.\<close>

lemma getTransactions_eq:
  assumes "cachesAgree J api info res s"
  obtains e b where "eagerTxs J info res = Inl e"
      and "getTransactions J s = (Inl e, s\<lparr>wrappedBlock := Some b\<rparr>)" and "b = eagerBlock J info res"
  | base txs bo where "eagerTxs J info res = Inr base" and "list_all2 readTx txs base"
      and "getTransactions J s = (Inr txs, s\<lparr>wrappedBlock := bo, wrappedTransaction := Some txs\<rparr>)"
      and "\<And>b. bo = Some b \<Longrightarrow> b = eagerBlock J info res"
proof (cases "wrappedTransaction s")
  case (Some txs)
  then obtain base where "eagerTxs J info res = Inr base" "list_all2 readTx txs base"
    using assms by (auto simp: cachesAgree_def)
  moreover have "getTransactions J s = (Inr txs, s\<lparr>wrappedBlock := wrappedBlock s, wrappedTransaction := Some txs\<rparr>)"
    using Some by (cases s) (simp add: getTransactions_def)
  moreover have "\<And>b. wrappedBlock s = Some b \<Longrightarrow> b = eagerBlock J info res"
    using assms by (simp add: cachesAgree_def)
  ultimately show ?thesis by (rule that(2))
next
  case None
  let ?b = "eagerBlock J info res"
  have r: "lbc_results s = res" using assms by (simp add: cachesAgree_def)
  show ?thesis
  proof (cases "eagerTxs J info res")
    case (Inl e)
    with None show ?thesis
      by (intro that(1)) (simp_all add: getTransactions_def getBlock_eq [OF assms] r eagerTxs_def)
  next
    case (Inr txs)
    have "list_all2 readTx txs txs" by (simp add: list_all2_refl readTx_def)
    with Inr None show ?thesis
      by (intro that(2) [of txs txs "Some ?b"])
        (simp_all add: getTransactions_def getBlock_eq [OF assms] r eagerTxs_def)
  qed
qed

lemma getMessages_agree:
  assumes "cachesAgree J api info res s"
  shows "cachesAgree J api info res (snd (getMessages J api s)) \<and>
    (\<forall>ms. fst (getMessages J api s) = Inr ms \<longleftrightarrow> eagerMessages J api info res = Inr ms) \<and>
    handedOut (snd (getMessages J api s)) = handedOut s \<and> eventIdx (snd (getMessages J api s)) = eventIdx s"
proof (cases "wrappedMessage s")
  case (Some ms)
  with assms have "eagerMessages J api info res = Inr ms" by (simp add: cachesAgree_def)
  with assms Some show ?thesis by (auto simp: getMessages_def)
next
  case None
  let ?b = "eagerBlock J info res"
  let ?s1 = "s\<lparr>wrappedBlock := Some ?b\<rparr>"
  note s1 = getBlock_agree [OF assms]
  show ?thesis
  proof (rule getTransactions_eq [OF s1])
    fix e b assume "eagerTxs J info res = Inl e" "b = ?b"
      and "getTransactions J ?s1 = (Inl e, ?s1\<lparr>wrappedBlock := Some b\<rparr>)"
    then show ?thesis using None s1
      by (simp add: getMessages_def getBlock_eq [OF assms] eagerMessages_def handedOut_def)
  next
    fix base txs bo
    assume b: "eagerTxs J info res = Inr base" "list_all2 readTx txs base"
      and t: "getTransactions J ?s1 = (Inr txs, ?s1\<lparr>wrappedBlock := bo, wrappedTransaction := Some txs\<rparr>)"
      and bo: "\<And>b. bo = Some b \<Longrightarrow> b = ?b"
    obtain r txs' where w: "wrapMsg api ?b txs = (r, txs')" by (cases "wrapMsg api ?b txs")
    obtain n where "txs' = map forced (take n txs) @ drop n txs"
      using wrapMsg_state [of api ?b txs] w by auto
    then have txs': "list_all2 readTx txs' base" using b(2) by (simp add: readTxs_forced)
    have r: "r = Inr ms \<longleftrightarrow> eagerMessages J api info res = Inr ms" for ms
      using readTxs_messages [OF b(2), of api ?b ms] w b(1) by (simp add: eagerMessages_def)
    show ?thesis
      using None s1 txs' bo b(1) r
      by (cases r) (auto simp: getMessages_def getBlock_eq [OF assms] t w cachesAgree_def handedOut_def)
  qed
qed

lemma getEvents_fresh:
  assumes "cachesAgree J api info res s" and "wrappedEvent s = None"
  obtains e where "eagerTxs J info res = Inl e"
      and "getEvents J api s = (Inl e, s\<lparr>wrappedBlock := Some (eagerBlock J info res)\<rparr>)"
  | evs txs bo where "eagerEvents J api info res (eventIdx s) = Inr evs"
      and "getEvents J api s = (Inr evs, s\<lparr>wrappedBlock := bo, wrappedTransaction := Some txs,
             wrappedEvent := Some evs, eventIdx := eventIdx s + length evs\<rparr>)"
      and "cachesAgree J api info res (s\<lparr>wrappedBlock := bo, wrappedTransaction := Some txs\<rparr>)"
      and "map event_idx evs = [eventIdx s..<eventIdx s + length evs]"
proof -
  let ?b = "eagerBlock J info res"
  let ?s1 = "s\<lparr>wrappedBlock := Some ?b\<rparr>"
  note s1 = getBlock_agree [OF assms(1)]
  show ?thesis
  proof (rule getTransactions_eq [OF s1])
    fix e b assume "eagerTxs J info res = Inl e" "b = ?b"
      and "getTransactions J ?s1 = (Inl e, ?s1\<lparr>wrappedBlock := Some b\<rparr>)"
    then show ?thesis using assms(2)
      by (intro that(1)) (simp_all add: getEvents_def getBlock_eq [OF assms(1)])
  next
    fix base txs bo
    assume b: "eagerTxs J info res = Inr base" "list_all2 readTx txs base"
      and t: "getTransactions J ?s1 = (Inr txs, ?s1\<lparr>wrappedBlock := bo, wrappedTransaction := Some txs\<rparr>)"
      and bo: "\<And>b. bo = Some b \<Longrightarrow> b = ?b"
    let ?evs = "fst (wrapEvent J api ?b txs (eventIdx s))"
    have "getEvents J api s =
        (Inr ?evs, s\<lparr>wrappedBlock := bo, wrappedTransaction := Some (map (visited J) txs),
           wrappedEvent := Some ?evs, eventIdx := eventIdx s + length ?evs\<rparr>)"
      by (simp add: getEvents_def assms(2) getBlock_eq [OF assms(1)] t wrapEvent_spec)
    moreover have "eagerEvents J api info res (eventIdx s) = Inr ?evs"
      using readTxs_wrapEvent [OF b(2)] b(1) by (simp add: eagerEvents_def)
    moreover have "cachesAgree J api info res
        (s\<lparr>wrappedBlock := bo, wrappedTransaction := Some (map (visited J) txs)\<rparr>)"
      using assms(1) bo b(1) readTxs_visited [OF b(2), of J] by (simp add: cachesAgree_def)
    ultimately show ?thesis using event_idx_wrapEvent by (intro that(2))
  qed
qed

lemma getEvents_agree:
  assumes "cachesAgree J api info res s"
  shows "cachesAgree J api info res (snd (getEvents J api s)) \<and>
    (numbered s \<longrightarrow> numbered (snd (getEvents J api s)))"
proof (cases "wrappedEvent s")
  case None
  show ?thesis
  proof (rule getEvents_fresh [OF assms None])
    fix evs txs bo
    assume e: "eagerEvents J api info res (eventIdx s) = Inr evs"
      and g: "getEvents J api s = (Inr evs, s\<lparr>wrappedBlock := bo, wrappedTransaction := Some txs,
             wrappedEvent := Some evs, eventIdx := eventIdx s + length evs\<rparr>)"
      and a: "cachesAgree J api info res (s\<lparr>wrappedBlock := bo, wrappedTransaction := Some txs\<rparr>)"
      and i: "map event_idx evs = [eventIdx s..<eventIdx s + length evs]"
    have "numbered (snd (getEvents J api s))" if "numbered s"
      using that by (rule numbered_extend [where evs = evs]) (simp_all add: g handedOut_def None i)
    with e a show ?thesis by (auto simp: g cachesAgree_def)
  qed (use getBlock_agree [OF assms] in \<open>simp add: numbered_def handedOut_def\<close>)
qed (use assms in \<open>simp add: getEvents_def\<close>)

lemma getBegin_agree:
  assumes "cachesAgree J api info res s"
  shows "cachesAgree J api info res (snd (getBeginBlockEvents J s)) \<and>
    (numbered s \<longrightarrow> numbered (snd (getBeginBlockEvents J s)))"
proof (cases "wrappedBeginBlockEvents s")
  case None
  have r: "lbc_results s = res" using assms by (simp add: cachesAgree_def)
  let ?evs = "eagerBegin J info res (eventIdx s)"
  have g: "getBeginBlockEvents J s = (?evs, s\<lparr>wrappedBlock := Some (eagerBlock J info res),
      wrappedBeginBlockEvents := Some ?evs, eventIdx := eventIdx s + length ?evs\<rparr>)"
    by (simp add: getBeginBlockEvents_def None getBlock_eq [OF assms] r eagerBegin_def Let_def)
  have "numbered (snd (getBeginBlockEvents J s))" if "numbered s"
    using that by (rule numbered_extend [where evs = ?evs])
      (simp_all add: g handedOut_def None eagerBegin_def event_idx_begin_end)
  moreover have "cachesAgree J api info res (snd (getBeginBlockEvents J s))"
    using assms by (auto simp: g cachesAgree_def)
  ultimately show ?thesis by blast
qed (use assms in \<open>simp add: getBeginBlockEvents_def\<close>)

lemma getEnd_agree:
  assumes "cachesAgree J api info res s"
  shows "cachesAgree J api info res (snd (getEndBlockEvents J s)) \<and>
    (numbered s \<longrightarrow> numbered (snd (getEndBlockEvents J s)))"
proof (cases "wrappedEndBlockEvents s")
  case None
  have r: "lbc_results s = res" using assms by (simp add: cachesAgree_def)
  let ?evs = "eagerEnd J info res (eventIdx s)"
  have g: "getEndBlockEvents J s = (?evs, s\<lparr>wrappedBlock := Some (eagerBlock J info res),
      wrappedEndBlockEvents := Some ?evs, eventIdx := eventIdx s + length ?evs\<rparr>)"
    by (simp add: getEndBlockEvents_def None getBlock_eq [OF assms] r eagerEnd_def Let_def)
  have "numbered (snd (getEndBlockEvents J s))" if "numbered s"
    using that by (rule numbered_extend [where evs = ?evs])
      (simp_all add: g handedOut_def None eagerEnd_def event_idx_begin_end)
  moreover have "cachesAgree J api info res (snd (getEndBlockEvents J s))"
    using assms by (auto simp: g cachesAgree_def)
  ultimately show ?thesis by blast
qed (use assms in \<open>simp add: getEndBlockEvents_def\<close>)

lemma touch_agree:
  assumes "cachesAgree J api info res s"
  shows "cachesAgree J api info res (touch J api a s) \<and> (numbered s \<longrightarrow> numbered (touch J api a s))"
proof (cases a)
  case ABlock
  then show ?thesis using assms getBlock_agree [OF assms]
    by (simp add: getBlock_eq [OF assms] numbered_def handedOut_def)
next
  case ATransactions
  show ?thesis
    by (rule getTransactions_eq [OF assms])
      (use assms in \<open>auto simp: ATransactions cachesAgree_def numbered_def handedOut_def\<close>)
next
  case AMessages
  then show ?thesis using getMessages_agree [OF assms] by (simp add: numbered_def)
qed (use assms getEvents_agree getBegin_agree getEnd_agree in auto)

lemma new_agree: "cachesAgree J api info res (newLazyBlockContent info res) \<and> numbered (newLazyBlockContent info res)"
  by (simp add: cachesAgree_def newLazyBlockContent_def numbered_def handedOut_def)

lemma reachable_agree: "reachable J api info res s \<Longrightarrow> cachesAgree J api info res s \<and> numbered s"
  by (induction rule: reachable.induct) (use new_agree touch_agree in blast)+

section \<open>Caches are kept\<close>

definition keeps :: "LazyBlockContent \<Rightarrow> LazyBlockContent \<Rightarrow> bool" where
  "keeps s s' \<longleftrightarrow>
     (wrappedMessage s \<noteq> None \<longrightarrow> wrappedMessage s' = wrappedMessage s) \<and>
     (wrappedEvent s \<noteq> None \<longrightarrow> wrappedEvent s' = wrappedEvent s) \<and>
     (wrappedBeginBlockEvents s \<noteq> None \<longrightarrow> wrappedBeginBlockEvents s' = wrappedBeginBlockEvents s) \<and>
     (wrappedEndBlockEvents s \<noteq> None \<longrightarrow> wrappedEndBlockEvents s' = wrappedEndBlockEvents s)"

lemma keeps_refl [simp]: "keeps s s"
  by (simp add: keeps_def)

lemma keeps_trans: "keeps s s1 \<Longrightarrow> keeps s1 s2 \<Longrightarrow> keeps s s2"
  by (auto simp: keeps_def)

lemma keeps_getBlock: "keeps s (snd (getBlock J s))"
  by (simp add: getBlock_state keeps_def)

lemma keeps_getTransactions: "keeps s (snd (getTransactions J s))"
proof (cases "wrappedTransaction s")
  case None
  obtain b s1 where b: "getBlock J s = (b, s1)" by (cases "getBlock J s")
  then have "keeps s s1" using keeps_getBlock [of s J] by simp
  with b None show ?thesis
    by (cases "wrapTx J b (results (lbc_results s1))") (simp_all add: getTransactions_def keeps_def)
qed (simp add: getTransactions_def)

text \<open>The state in which the getters of messages and events find the transactions.\<close>

lemma keeps_both:
  assumes "getBlock J s = (b, s1)" and "getTransactions J s1 = (r, s2)"
  shows "keeps s s2"
  using keeps_trans [OF keeps_getBlock keeps_getTransactions, of s J J] assms by simp

lemma keeps_getMessages: "keeps s (snd (getMessages J api s))"
proof (cases "wrappedMessage s")
  case None
  obtain b s1 where b: "getBlock J s = (b, s1)" by (cases "getBlock J s")
  obtain r s2 where t: "getTransactions J s1 = (r, s2)" by (cases "getTransactions J s1")
  from keeps_both [OF b t] None show ?thesis
    by (auto simp: getMessages_def b t keeps_def split: sum.splits prod.splits)
qed (simp add: getMessages_def)

lemma keeps_getEvents: "keeps s (snd (getEvents J api s))"
proof (cases "wrappedEvent s")
  case None
  obtain b s1 where b: "getBlock J s = (b, s1)" by (cases "getBlock J s")
  obtain r s2 where t: "getTransactions J s1 = (r, s2)" by (cases "getTransactions J s1")
  from keeps_both [OF b t] None show ?thesis
    by (auto simp: getEvents_def b t keeps_def split: sum.splits prod.splits)
qed (simp add: getEvents_def)

lemma keeps_getBegin: "keeps s (snd (getBeginBlockEvents J s))"
  using keeps_getBlock [of s J]
  by (cases "getBlock J s") (auto simp: getBeginBlockEvents_def keeps_def Let_def split: option.splits)

lemma keeps_getEnd: "keeps s (snd (getEndBlockEvents J s))"
  using keeps_getBlock [of s J]
  by (cases "getBlock J s") (auto simp: getEndBlockEvents_def keeps_def Let_def split: option.splits)

lemma keeps_touch: "keeps s (touch J api a s)"
  by (cases a) (simp_all add: keeps_getBlock keeps_getTransactions keeps_getMessages keeps_getEvents
      keeps_getBegin keeps_getEnd)

definition touches :: "cosmjs_lib \<Rightarrow> CosmosClient \<Rightarrow> access list \<Rightarrow> LazyBlockContent \<Rightarrow> LazyBlockContent" where
  "touches J api as s = foldl (\<lambda>s a. touch J api a s) s as"

lemma keeps_touches: "keeps s (touches J api as s)"
  unfolding touches_def
  by (induction "as" arbitrary: s) (auto intro: keeps_trans keeps_touch)

lemma reachable_touches: "reachable J api info res s \<Longrightarrow> reachable J api info res (touches J api as s)"
  unfolding touches_def by (induction "as" arbitrary: s) (auto intro: reachable.step)

lemma caches_after:
  "fst (getMessages J api s) = Inr ms \<Longrightarrow> wrappedMessage (snd (getMessages J api s)) = Some ms"
  "fst (getEvents J api s) = Inr es \<Longrightarrow> wrappedEvent (snd (getEvents J api s)) = Some es"
  "wrappedBeginBlockEvents (snd (getBeginBlockEvents J s)) = Some (fst (getBeginBlockEvents J s))"
  "wrappedEndBlockEvents (snd (getEndBlockEvents J s)) = Some (fst (getEndBlockEvents J s))"
  by (auto simp: getMessages_def getEvents_def getBeginBlockEvents_def getEndBlockEvents_def Let_def
      split: option.splits prod.splits sum.splits)

section \<open>Properties of the lazy content\<close>

text \<open>
  C2: in whatever order and however often the parts of a block are read, the indices of the events
  handed out so far are exactly the numbers below the counter, each on one event.
\<close>

theorem content_indices_unique:
  assumes "reachable J api info res s"
  shows "distinct (map event_idx (handedOut s)) \<and> set (map event_idx (handedOut s)) = {0..<eventIdx s}"
proof -
  have "mset (map event_idx (handedOut s)) = mset [0..<eventIdx s]"
    using reachable_agree [OF assms] by (simp add: numbered_def)
  then show ?thesis by (metis distinct_upt mset_eq_imp_distinct_iff mset_eq_setD atLeastLessThan_upt)
qed

definition sampleResponse :: BlockResponse where
  "sampleResponse = \<lparr>resp_blockId = \<lparr>hash = [10]\<rparr>, resp_block = sampleTmBlock\<rparr>"

definition mintEvent :: TmEvent where
  "mintEvent = \<lparr>tm_type = ''mint'', tm_attributes = []\<rparr>"

definition sampleResults :: BlockResultsResponse where
  "sampleResults =
     \<lparr>results = [okTx, failedTx], res_beginBlockEvents = [mintEvent], res_endBlockEvents = [mintEvent, mintEvent]\<rparr>"

text \<open>A content whose end block events are read before its transaction events.\<close>

definition sampleContent :: "access list \<Rightarrow> LazyBlockContent" where
  "sampleContent as =
     touches sampleLib (sampleClient swapText) as (newLazyBlockContent sampleResponse sampleResults)"

lemma sampleContent_reachable:
  "reachable sampleLib (sampleClient swapText) sampleResponse sampleResults (sampleContent as)"
  unfolding sampleContent_def by (intro reachable_touches reachable.init)

theorem content_indices_unique_witness:
  "distinct (map event_idx (handedOut (sampleContent [AEnd, AMessages, AEvents, AEnd, ABegin]))) \<and>
   set (map event_idx (handedOut (sampleContent [AEnd, AMessages, AEvents, AEnd, ABegin]))) =
     {0..<eventIdx (sampleContent [AEnd, AMessages, AEvents, AEnd, ABegin])}"
  by (rule content_indices_unique [OF sampleContent_reachable])

text \<open>
  C5: what a read returns does not depend on the reads before it.  The block and the messages are
  those of the eager evaluation; the transactions are the eager ones up to reads of their
  accessor; the events of each source are the eager ones numbered from some offset.
\<close>

theorem content_refines_eager:
  assumes "reachable J api info res s"
  shows "fst (getBlock J s) = eagerBlock J info res \<and>
    (\<forall>txs. fst (getTransactions J s) = Inr txs \<longrightarrow>
       (\<exists>base. eagerTxs J info res = Inr base \<and> list_all2 readTx txs base)) \<and>
    (\<forall>ms. fst (getMessages J api s) = Inr ms \<longleftrightarrow> eagerMessages J api info res = Inr ms) \<and>
    (\<forall>es. fst (getEvents J api s) = Inr es \<longrightarrow> (\<exists>off. eagerEvents J api info res off = Inr es)) \<and>
    (\<exists>off. fst (getBeginBlockEvents J s) = eagerBegin J info res off) \<and>
    (\<exists>off. fst (getEndBlockEvents J s) = eagerEnd J info res off)"
proof -
  have ag: "cachesAgree J api info res s" using reachable_agree [OF assms] by simp
  have tx: "\<exists>base. eagerTxs J info res = Inr base \<and> list_all2 readTx txs base"
    if "fst (getTransactions J s) = Inr txs" for txs
    by (rule getTransactions_eq [OF ag]) (use that in auto)
  have "\<exists>off. eagerEvents J api info res off = Inr es" if "fst (getEvents J api s) = Inr es" for es
    using getEvents_agree [OF ag] caches_after(2) [OF that] by (simp add: cachesAgree_def)
  moreover have "\<exists>off. fst (getBeginBlockEvents J s) = eagerBegin J info res off"
    using getBegin_agree [OF ag] caches_after(3) [of J s] by (auto simp: cachesAgree_def)
  moreover have "\<exists>off. fst (getEndBlockEvents J s) = eagerEnd J info res off"
    using getEnd_agree [OF ag] caches_after(4) [of J s] by (auto simp: cachesAgree_def)
  ultimately show ?thesis
    using getBlock_block [OF ag] getMessages_agree [OF ag] tx by blast
qed

theorem content_refines_eager_witness:
  "fst (getMessages sampleLib (sampleClient swapText) (sampleContent [AEnd, AEvents])) =
     eagerMessages sampleLib (sampleClient swapText) sampleResponse sampleResults \<and>
   fst (getBlock sampleLib (sampleContent [AEnd, AEvents])) = eagerBlock sampleLib sampleResponse sampleResults"
proof -
  have "\<exists>ms. eagerMessages sampleLib (sampleClient swapText) sampleResponse sampleResults = Inr ms"
    by (simp add: eagerMessages_def eagerTxs_def wrapTx_def wrapOneTx_def sampleLib_def sampleResults_def
        sampleResponse_def eagerBlock_def wrapBlock_def wrapTxMsg_spec txMessages_def sample_defs
        Let_def jsIndex_def)
  then show ?thesis
    using content_refines_eager [OF sampleContent_reachable, of "[AEnd, AEvents]"] by metis
qed

text \<open>
  A list of messages or events that has been read is the one every later read returns, whatever
  is read in between.
\<close>

theorem content_stable:
  "(fst (getMessages J api s) = Inr ms \<longrightarrow>
      fst (getMessages J api (touches J api as (snd (getMessages J api s)))) = Inr ms) \<and>
   (fst (getEvents J api s) = Inr es \<longrightarrow>
      fst (getEvents J api (touches J api as (snd (getEvents J api s)))) = Inr es) \<and>
   fst (getBeginBlockEvents J (touches J api as (snd (getBeginBlockEvents J s)))) = fst (getBeginBlockEvents J s) \<and>
   fst (getEndBlockEvents J (touches J api as (snd (getEndBlockEvents J s)))) = fst (getEndBlockEvents J s)"
proof (intro conjI impI)
  show "fst (getMessages J api (touches J api as (snd (getMessages J api s)))) = Inr ms"
    if "fst (getMessages J api s) = Inr ms"
    using caches_after(1) [OF that] keeps_touches [of "snd (getMessages J api s)" J api "as"]
    by (simp add: keeps_def getMessages_def)
  show "fst (getEvents J api (touches J api as (snd (getEvents J api s)))) = Inr es"
    if "fst (getEvents J api s) = Inr es"
    using caches_after(2) [OF that] keeps_touches [of "snd (getEvents J api s)" J api "as"]
    by (simp add: keeps_def getEvents_def)
  show "fst (getBeginBlockEvents J (touches J api as (snd (getBeginBlockEvents J s)))) = fst (getBeginBlockEvents J s)"
    using caches_after(3) [of J s] keeps_touches [of "snd (getBeginBlockEvents J s)" J api "as"]
    by (simp add: keeps_def getBeginBlockEvents_def)
  show "fst (getEndBlockEvents J (touches J api as (snd (getEndBlockEvents J s)))) = fst (getEndBlockEvents J s)"
    using caches_after(4) [of J s] keeps_touches [of "snd (getEndBlockEvents J s)" J api "as"]
    by (simp add: keeps_def getEndBlockEvents_def)
qed

lemma sampleContent_messages: "\<exists>ms. fst (getMessages sampleLib (sampleClient swapText) (sampleContent [])) = Inr ms"
proof -
  have "\<exists>ms. eagerMessages sampleLib (sampleClient swapText) sampleResponse sampleResults = Inr ms"
    by (simp add: eagerMessages_def eagerTxs_def wrapTx_def wrapOneTx_def sampleLib_def sampleResults_def
        sampleResponse_def eagerBlock_def wrapBlock_def wrapTxMsg_spec txMessages_def sample_defs
        Let_def jsIndex_def)
  then show ?thesis
    using getMessages_agree reachable_agree [OF sampleContent_reachable] by blast
qed

theorem content_stable_witness:
  "\<exists>ms. fst (getMessages sampleLib (sampleClient swapText) (sampleContent [])) = Inr ms \<and>
     fst (getMessages sampleLib (sampleClient swapText)
       (touches sampleLib (sampleClient swapText) [AEvents, AEnd]
         (snd (getMessages sampleLib (sampleClient swapText) (sampleContent []))))) = Inr ms"
  using sampleContent_messages content_stable by metis

lemma upt_three: "[0..<a] @ [a..<a + b] @ [a + b..<a + b + c] = [0..<a + b + c]"
  using upt_add_eq_append [of 0 a b] upt_add_eq_append [of 0 "a + b" c] by simp

text \<open>
  Reading the parts in the order in which the indexer does (begin, transactions, end) numbers the
  events of the block consecutively from 0 in the order begin, transactions, end.
\<close>

theorem content_canonical_order:
  assumes "(b, s1) = getBeginBlockEvents J (newLazyBlockContent info res)"
    and "(Inr es, s2) = getEvents J api s1" and "(e, s3) = getEndBlockEvents J s2"
  shows "map event_idx (b @ es @ e) = [0..<length b + length es + length e] \<and>
    eventIdx s3 = length b + length es + length e"
proof -
  let ?s0 = "newLazyBlockContent info res" and ?B = "eagerBlock J info res"
  have a0: "cachesAgree J api info res ?s0" using new_agree by simp
  have s1: "b = eagerBegin J info res 0" "s1 = ?s0\<lparr>wrappedBlock := Some ?B, wrappedBeginBlockEvents := Some b, eventIdx := length b\<rparr>"
    using assms(1) getBlock_eq [OF a0]
    by (simp_all add: getBeginBlockEvents_def newLazyBlockContent_def eagerBegin_def eagerBlock_def
        getBlock_def Let_def)
  have a1: "cachesAgree J api info res s1" using getBegin_agree [OF a0] assms(1) by (metis snd_conv)
  have n1: "wrappedEvent s1 = None" "eventIdx s1 = length b" "wrappedEndBlockEvents s1 = None"
    by (simp_all add: s1 newLazyBlockContent_def)
  have n2: "eventIdx s2 = length b + length es \<and> wrappedEndBlockEvents s2 = None \<and>
      map event_idx es = [length b..<length b + length es]"
    by (rule getEvents_fresh [OF a1 n1(1)]) (use assms(2) n1 in auto)
  have a2: "cachesAgree J api info res s2" using getEvents_agree [OF a1] assms(2) by (metis snd_conv)
  have r2: "lbc_results s2 = res" using a2 by (simp add: cachesAgree_def)
  have e: "e = eagerEnd J info res (length b + length es)" "eventIdx s3 = length b + length es + length e"
    using assms(3) n2 by (simp_all add: getEndBlockEvents_def getBlock_eq [OF a2] eagerEnd_def r2 Let_def)
  have "map event_idx b = [0..<length b]" using s1(1) by (simp add: eagerBegin_def event_idx_begin_end)
  moreover have "map event_idx e = [length b + length es..<length b + length es + length e]"
    using e(1) by (simp add: eagerEnd_def event_idx_begin_end)
  ultimately show ?thesis using e(2) n2 upt_three [of "length b" "length es" "length e"] by simp
qed

theorem content_canonical_order_witness:
  "\<exists>b s1 es s2 e s3.
    (b, s1) = getBeginBlockEvents sampleLib (newLazyBlockContent sampleResponse sampleResults) \<and>
    (Inr es, s2) = getEvents sampleLib (sampleClient swapText) s1 \<and> (e, s3) = getEndBlockEvents sampleLib s2 \<and>
    map event_idx (b @ es @ e) = [0..<length b + length es + length e]"
proof -
  let ?J = sampleLib and ?api = "sampleClient swapText"
  obtain b s1 where 1: "(b, s1) = getBeginBlockEvents ?J (newLazyBlockContent sampleResponse sampleResults)"
    by (metis surj_pair)
  have a1: "cachesAgree ?J ?api sampleResponse sampleResults s1"
    using getBegin_agree new_agree 1 by (metis snd_conv)
  have w1: "wrappedEvent s1 = None"
    using 1 by (simp add: getBeginBlockEvents_def newLazyBlockContent_def getBlock_def Let_def)
  have t: "\<exists>base. eagerTxs ?J sampleResponse sampleResults = Inr base"
    by (simp add: eagerTxs_def wrapTx_def wrapOneTx_def sampleLib_def sampleResults_def
        sampleResponse_def eagerBlock_def wrapBlock_def sample_defs Let_def jsIndex_def)
  have "\<exists>es s2. getEvents ?J ?api s1 = (Inr es, s2)"
    by (rule getEvents_fresh [OF a1 w1]) (use t in auto)
  then obtain es s2 where 2: "(Inr es, s2) = getEvents ?J ?api s1" by metis
  obtain e s3 where 3: "(e, s3) = getEndBlockEvents ?J s2" by (metis surj_pair)
  from content_canonical_order [OF 1 2 3] 1 2 3 show ?thesis by blast
qed

section \<open>Properties of fetching\<close>

lemma promiseCatch_Inr [result_simps]: "Inr v \<in> set (promiseCatch h p) \<longleftrightarrow> Inr v \<in> set p"
  by (force simp: promiseCatch_def map_sum_def split: sum.splits)

lemma promiseCatch_Inl [result_simps]:
  "Inl e \<in> set (promiseCatch h p) \<longleftrightarrow> (\<exists>e'. Inl e' \<in> set p \<and> e = h e')"
  by (force simp: promiseCatch_def map_sum_def split: sum.splits)

lemma prepareBlock_Inr:
  "prepareBlock (info, res) = Inr c \<longleftrightarrow>
   length (results res) = length (block_txs (resp_block info)) \<and> c = newLazyBlockContent info res"
  by (auto simp: prepareBlock_def)

lemma list_all2_through:
  "(\<exists>irs. list_all2 Q irs hs \<and> map f irs = map Inr cs) \<longleftrightarrow> list_all2 (\<lambda>c h. \<exists>ir. f ir = Inr c \<and> Q ir h) cs hs"
proof -
  have "map f irs = map Inr cs \<longleftrightarrow> list_all2 (\<lambda>c ir. f ir = Inr c) cs irs" for irs
    by (auto simp: list_all2_conv_all_nth list_eq_iff_nth_eq)
  moreover have "(\<lambda>c h. \<exists>ir. f ir = Inr c \<and> Q ir h) = (\<lambda>c ir. f ir = Inr c) OO Q"
    by (auto simp: fun_eq_iff relcompp_apply)
  ultimately show ?thesis by (simp add: list.rel_compp relcompp_apply conj_commute)
qed

lemma getBlockByHeight_Inr:
  "Inr (info, res) \<in> set (getBlockByHeight api h) \<longleftrightarrow>
   Inr info \<in> set (blockInfo api h) \<and> Inr res \<in> set (blockResults api h)"
  by (simp add: getBlockByHeight_def promiseBoth_Inr promiseCatch_Inr)

lemma getBlockByHeight_Inl:
  "Inl e \<in> set (getBlockByHeight api h) \<longleftrightarrow>
   (\<exists>e'. e = handleError (json_parse api) e' \<and> (Inl e' \<in> set (blockInfo api h) \<or> Inl e' \<in> set (blockResults api h)))"
  by (auto simp: getBlockByHeight_def promiseBoth_Inl promiseCatch_Inl)

lemma fetchBlocksBatches_Inr:
  "Inr cs \<in> set (fetchBlocksBatches api hs) \<longleftrightarrow>
   (\<exists>irs. Inr irs \<in> set (fetchCosmosBlocksArray api hs) \<and> rmap prepareBlock irs = Inr cs)"
  by (simp add: fetchBlocksBatches_def promiseThen_Inr)

lemma fetchBlocksBatches_contents:
  "Inr contents \<in> set (fetchBlocksBatches api heights) \<longleftrightarrow>
   list_all2 (\<lambda>c h. \<exists>info res. Inr info \<in> set (blockInfo api h) \<and> Inr res \<in> set (blockResults api h) \<and>
       length (results res) = length (block_txs (resp_block info)) \<and> c = newLazyBlockContent info res)
     contents heights" (is "_ \<longleftrightarrow> list_all2 ?P _ _")
proof -
  let ?Q = "\<lambda>ir h. Inr ir \<in> set (getBlockByHeight api h)"
  have "Inr contents \<in> set (fetchBlocksBatches api heights) \<longleftrightarrow>
      (\<exists>irs. list_all2 ?Q irs heights \<and> map prepareBlock irs = map Inr contents)"
    by (simp add: fetchBlocksBatches_Inr fetchCosmosBlocksArray_def promiseAll_Inr list_all2_map2 rmap_Inr_iff)
  also have "\<dots> \<longleftrightarrow> list_all2 ?P contents heights"
  proof -
    have "(\<exists>ir. prepareBlock ir = Inr c \<and> ?Q ir h) \<longleftrightarrow> ?P c h" for c h
      by (simp add: getBlockByHeight_Inr prepareBlock_Inr) blast
    then show ?thesis by (simp only: list_all2_through)
  qed
  finally show ?thesis .
qed

text \<open>
  C8: a batch fulfils with one content per requested height, in the order of the heights; each content
  is built from the responses the two requests for its height returned, and these have one
  result per raw transaction.
\<close>

theorem fetchBlocksBatches_fulfils:
  "Inr contents \<in> set (fetchBlocksBatches api heights) \<longleftrightarrow>
   list_all2 (\<lambda>c h. \<exists>info res. Inr info \<in> set (blockInfo api h) \<and> Inr res \<in> set (blockResults api h) \<and>
       length (results res) = length (block_txs (resp_block info)) \<and> c = newLazyBlockContent info res)
     contents heights"
  by (rule fetchBlocksBatches_contents)

lemma prepareBlock_Inl:
  "prepareBlock (info, res) = Inl e \<Longrightarrow>
   err_name e = ''AssertionError'' \<and> length (results res) \<noteq> length (block_txs (resp_block info))"
  by (cases e) (simp add: prepareBlock_def split: if_splits)

lemma rmap_prepareBlock_error:
  "rmap prepareBlock irs = Inl e \<Longrightarrow> err_name e = ''AssertionError'' \<and>
     (\<exists>info res. (info, res) \<in> set irs \<and> length (results res) \<noteq> length (block_txs (resp_block info)))"
proof -
  assume "rmap prepareBlock irs = Inl e"
  then have "Inl e \<in> prepareBlock ` set irs" by (rule rmap_Inl_mem)
  then obtain info res where "(info, res) \<in> set irs" "prepareBlock (info, res) = Inl e" by auto
  then show ?thesis using prepareBlock_Inl by blast
qed

text \<open>
  A batch rejects only with the rewritten error of one of its requests, or with an assertion error
  because the two responses of a height disagree on the number of transactions.
\<close>

theorem fetchBlocksBatches_rejects:
  assumes "Inl e \<in> set (fetchBlocksBatches api heights)"
  shows "(\<exists>h \<in> set heights. \<exists>e'. e = handleError (json_parse api) e' \<and>
      (Inl e' \<in> set (blockInfo api h) \<or> Inl e' \<in> set (blockResults api h))) \<or>
    (err_name e = ''AssertionError'' \<and> (\<exists>h \<in> set heights. \<exists>info res.
      Inr info \<in> set (blockInfo api h) \<and> Inr res \<in> set (blockResults api h) \<and>
      length (results res) \<noteq> length (block_txs (resp_block info))))"
proof -
  obtain r where r: "r \<in> set (fetchCosmosBlocksArray api heights)" "rbind r (rmap prepareBlock) = Inl e"
    using assms by (auto simp: fetchBlocksBatches_def promiseThen_def)
  show ?thesis
  proof (cases r)
    case (Inl e')
    with r have "Inl e \<in> set (fetchCosmosBlocksArray api heights)" by simp
    then obtain h where "h \<in> set heights" "Inl e \<in> set (getBlockByHeight api h)"
      by (auto simp: fetchCosmosBlocksArray_def promiseAll_Inl)
    then show ?thesis by (auto simp: getBlockByHeight_Inl)
  next
    case (Inr irs)
    with r(2) obtain info res where e: "err_name e = ''AssertionError''" "(info, res) \<in> set irs"
        "length (results res) \<noteq> length (block_txs (resp_block info))"
      by (auto dest: rmap_prepareBlock_error)
    have "list_all2 (\<lambda>ir h. Inr ir \<in> set (getBlockByHeight api h)) irs heights"
      using r(1) Inr by (simp add: fetchCosmosBlocksArray_def promiseAll_Inr list_all2_map2)
    with e(2) obtain h where "h \<in> set heights" "Inr (info, res) \<in> set (getBlockByHeight api h)"
      by (metis list_all2_iff in_set_impl_in_set_zip1 set_zip_rightD case_prodD)
    with e show ?thesis by (auto simp: getBlockByHeight_Inr)
  qed
qed

text \<open>A client whose second endpoint may answer or refuse because of too many requests.\<close>

definition fetchClient :: CosmosClient where
  "fetchClient =
     (sampleClient swapText)\<lparr>tendermint_block := (\<lambda>h. [Inr sampleResponse]),
        tendermint_blockResults := (\<lambda>h. [Inr sampleResults, Inl (JsError ''Error'' tooManyRequests)])\<rparr>"

theorem fetchBlocksBatches_rejects_witness:
  "Inl (JsError ''RateLimitError'' tooManyRequests) \<in> set (fetchBlocksBatches fetchClient [6, 7]) \<and>
   ((\<exists>h \<in> set [6, 7]. \<exists>e'. JsError ''RateLimitError'' tooManyRequests = handleError (json_parse fetchClient) e' \<and>
      (Inl e' \<in> set (blockInfo fetchClient h) \<or> Inl e' \<in> set (blockResults fetchClient h))) \<or>
    (err_name (JsError ''RateLimitError'' tooManyRequests) = ''AssertionError'' \<and> (\<exists>h \<in> set [6, 7]. \<exists>info res.
      Inr info \<in> set (blockInfo fetchClient h) \<and> Inr res \<in> set (blockResults fetchClient h) \<and>
      length (results res) \<noteq> length (block_txs (resp_block info)))))"
proof
  have "Inl (JsError ''RateLimitError'' tooManyRequests) \<in> set (getBlockByHeight fetchClient 6)"
    unfolding getBlockByHeight_Inl
    by (rule exI [of _ "JsError ''Error'' tooManyRequests"])
      (simp add: fetchClient_def sampleClient_def blockResults_def std_json.handleError_429)
  then have "Inl (JsError ''RateLimitError'' tooManyRequests) \<in> set (fetchCosmosBlocksArray fetchClient [6, 7])"
    by (auto simp: fetchCosmosBlocksArray_def promiseAll_Inl)
  then show *: "Inl (JsError ''RateLimitError'' tooManyRequests) \<in> set (fetchBlocksBatches fetchClient [6, 7])"
    by (force simp: fetchBlocksBatches_def promiseThen_def)
  show "(\<exists>h \<in> set [6, 7]. \<exists>e'. JsError ''RateLimitError'' tooManyRequests = handleError (json_parse fetchClient) e' \<and>
      (Inl e' \<in> set (blockInfo fetchClient h) \<or> Inl e' \<in> set (blockResults fetchClient h))) \<or>
    (err_name (JsError ''RateLimitError'' tooManyRequests) = ''AssertionError'' \<and> (\<exists>h \<in> set [6, 7]. \<exists>info res.
      Inr info \<in> set (blockInfo fetchClient h) \<and> Inr res \<in> set (blockResults fetchClient h) \<and>
      length (results res) \<noteq> length (block_txs (resp_block info))))"
    by (rule fetchBlocksBatches_rejects [OF *])
qed

text \<open>
  The transactions of a fetched block can always be wrapped, in every state of its content: the
  count check of the fetch leaves no result without a raw transaction to hash.
\<close>

theorem fetched_transactions_wrap:
  assumes "Inr contents \<in> set (fetchBlocksBatches api heights)" and "c \<in> set contents"
    and "reachable J api (lbc_blockInfo c) (lbc_results c) s"
    and "\<And>b. \<exists>d. sha256 J (Some b) = Inr d"
  shows "\<exists>txs. fst (getTransactions J s) = Inr txs \<and> length txs = length (block_txs (resp_block (lbc_blockInfo c)))"
proof -
  obtain k where k: "k < length contents" "c = contents ! k" using assms(2) by (metis in_set_conv_nth)
  obtain info res where c: "c = newLazyBlockContent info res"
      and l: "length (results res) = length (block_txs (resp_block info))"
    using list_all2_nthD [OF assms(1) [unfolded fetchBlocksBatches_contents] k(1)] k(2) by blast
  have i: "lbc_blockInfo c = info" "lbc_results c = res" by (simp_all add: c newLazyBlockContent_def)
  have ag: "cachesAgree J api info res s" using reachable_agree assms(3) i by blast
  obtain base where b: "eagerTxs J info res = Inr base" "length base = length (results res)"
  proof -
    have "length (results res) \<le> length (block_txs (block (eagerBlock J info res)))"
      by (simp add: l eagerBlock_def wrapBlock_def)
    then obtain base where "eagerTxs J info res = Inr base"
      unfolding eagerTxs_def using wrapTx_total [OF assms(4)] by metis
    then show ?thesis using that by (auto simp: eagerTxs_def wrapTx_def dest: rmap_length)
  qed
  show ?thesis
    by (rule getTransactions_eq [OF ag]) (use b l i in \<open>auto simp: list_all2_lengthD\<close>)
qed

theorem fetched_transactions_wrap_witness:
  "\<exists>txs. fst (getTransactions sampleLib (newLazyBlockContent sampleResponse sampleResults)) = Inr txs \<and>
     length txs = length (block_txs (resp_block sampleResponse))"
proof -
  let ?c = "newLazyBlockContent sampleResponse sampleResults"
  have c: "Inr [?c] \<in> set (fetchBlocksBatches fetchClient [6])"
    unfolding fetchBlocksBatches_contents
    by (auto simp: fetchClient_def sampleClient_def blockInfo_def blockResults_def sampleResults_def
        sampleResponse_def sample_defs)
  have r: "reachable sampleLib fetchClient (lbc_blockInfo ?c) (lbc_results ?c) ?c"
    using reachable.init [of sampleLib fetchClient sampleResponse sampleResults]
    by (simp add: newLazyBlockContent_def)
  show ?thesis
    using fetched_transactions_wrap [OF c _ r sampleLib_sha256] by (simp add: newLazyBlockContent_def)
qed

end
