(* ===== verification/Indexer.thy ===== *)
theory Indexer
  imports Block_Content
begin

text \<open>
  The class \<^verbatim>\<open>IndexerManager\<close> of \<^verbatim>\<open>indexer/indexer.manager.ts\<close>: the order in which the parts of a block
  are handed to the data sources, and the base filter of custom handlers.  The inherited
  \<^verbatim>\<open>indexData\<close> (which selects the handlers of a data source and runs them) is a parameter acting on
  a world of its own; what it reads of a block's objects does not include the caches of the
  content, and what it may force of their accessors does not change what is read here.
\<close>

datatype item =
    IBlock CosmosBlock
  | ITransaction CosmosTransaction
  | IMessage CosmosMessage
  | IEvent CosmosEvent

type_synonym ('ds, 'w) index_data = "CosmosHandlerKind \<Rightarrow> item \<Rightarrow> 'ds \<Rightarrow> 'w \<Rightarrow> 'w result"

section \<open>Operations\<close>

definition getBlockHeight :: "cosmjs_lib \<Rightarrow> LazyBlockContent \<Rightarrow> int" where
  "getBlockHeight J c = height (block_header (block (fst (getBlock J c))))"

definition getBlockHash :: "cosmjs_lib \<Rightarrow> LazyBlockContent \<Rightarrow> string" where
  "getBlockHash J c = block_id (fst (getBlock J c))"

definition indexBlockContent ::
    "('ds, 'w) index_data \<Rightarrow> 'ds list \<Rightarrow> CosmosBlock \<Rightarrow> 'w \<Rightarrow> 'w result" where
  "indexBlockContent indexData dataSources b w = rfold (indexData Block (IBlock b)) dataSources w"

definition indexTransaction ::
    "('ds, 'w) index_data \<Rightarrow> 'ds list \<Rightarrow> CosmosTransaction \<Rightarrow> 'w \<Rightarrow> 'w result" where
  "indexTransaction indexData dataSources tx w = rfold (indexData Transaction (ITransaction tx)) dataSources w"

definition indexMessage ::
    "('ds, 'w) index_data \<Rightarrow> 'ds list \<Rightarrow> CosmosMessage \<Rightarrow> 'w \<Rightarrow> 'w result" where
  "indexMessage indexData dataSources m w = rfold (indexData Message (IMessage m)) dataSources w"

definition indexEvent ::
    "('ds, 'w) index_data \<Rightarrow> 'ds list \<Rightarrow> CosmosEvent \<Rightarrow> 'w \<Rightarrow> 'w result" where
  "indexEvent indexData dataSources e w = rfold (indexData Event (IEvent e)) dataSources w"

text \<open>\<^verbatim>\<open>xs.filter(p)\<close> with a predicate that may throw.\<close>

fun rfilter :: "('a \<Rightarrow> bool result) \<Rightarrow> 'a list \<Rightarrow> 'a list result" where
  "rfilter p [] = Inr []"
| "rfilter p (x # xs) = rbind (p x) (\<lambda>b. rbind (rfilter p xs) (\<lambda>ys. Inr (if b then x # ys else ys)))"

text \<open>\<^verbatim>\<open>event.tx.hash === tx.hash && event.msg?.idx === msg.idx\<close>\<close>

definition eventOfMessage :: "CosmosTransaction \<Rightarrow> CosmosMessage \<Rightarrow> CosmosEvent \<Rightarrow> bool result" where
  "eventOfMessage tx m e =
     (case event_tx e of
        None \<Rightarrow> throwTypeError ''Cannot read properties of null (reading hash)''
      | Some etx \<Rightarrow> Inr (tx_hash etx = tx_hash tx \<and> map_option msg_idx (event_msg e) = Some (msg_idx m)))"

text \<open>The bodies of the loops, on the content of the block and the world.\<close>

definition indexMessageStep ::
    "cosmjs_lib \<Rightarrow> CosmosClient \<Rightarrow> ('ds, 'w) index_data \<Rightarrow> 'ds list \<Rightarrow> CosmosTransaction \<Rightarrow> CosmosMessage \<Rightarrow>
     LazyBlockContent \<times> 'w \<Rightarrow> (LazyBlockContent \<times> 'w) result" where
  "indexMessageStep J api indexData dataSources tx m cw =
     rbind (indexMessage indexData dataSources m (snd cw)) (\<lambda>w1.
       (case getEvents J api (fst cw) of
          (Inl e, c1) \<Rightarrow> Inl e
        | (Inr evs, c1) \<Rightarrow>
            rbind (rfilter (eventOfMessage tx m) evs) (\<lambda>events.
            rbind (rfold (indexEvent indexData dataSources) events w1) (\<lambda>w2. Inr (c1, w2)))))"

definition indexTransactionStep ::
    "cosmjs_lib \<Rightarrow> CosmosClient \<Rightarrow> ('ds, 'w) index_data \<Rightarrow> 'ds list \<Rightarrow> CosmosTransaction \<Rightarrow>
     LazyBlockContent \<times> 'w \<Rightarrow> (LazyBlockContent \<times> 'w) result" where
  "indexTransactionStep J api indexData dataSources tx cw =
     rbind (indexTransaction indexData dataSources tx (snd cw)) (\<lambda>w1.
       (case getMessages J api (fst cw) of
          (Inl e, c1) \<Rightarrow> Inl e
        | (Inr ms, c1) \<Rightarrow>
            rfold (indexMessageStep J api indexData dataSources tx)
              (filter (\<lambda>m. tx_hash (msg_tx m) = tx_hash tx) ms) (c1, w1)))"

definition indexBlockData ::
    "cosmjs_lib \<Rightarrow> CosmosClient \<Rightarrow> ('ds, 'w) index_data \<Rightarrow> 'ds list \<Rightarrow> LazyBlockContent \<times> 'w \<Rightarrow>
     (LazyBlockContent \<times> 'w) result" where
  "indexBlockData J api indexData dataSources cw =
     (case getBlock J (fst cw) of (b, c1) \<Rightarrow>
      rbind (indexBlockContent indexData dataSources b (snd cw)) (\<lambda>w1.
      (case getBeginBlockEvents J c1 of (begin_evs, c2) \<Rightarrow>
       rbind (rfold (indexEvent indexData dataSources) begin_evs w1) (\<lambda>w2.
       (case getTransactions J c2 of
          (Inl e, c3) \<Rightarrow> Inl e
        | (Inr txs, c3) \<Rightarrow>
            rbind (rfold (indexTransactionStep J api indexData dataSources) (map fst txs) (c3, w2)) (\<lambda>(c4, w3).
            (case getEndBlockEvents J c4 of (end_evs, c5) \<Rightarrow>
             rbind (rfold (indexEvent indexData dataSources) end_evs w3) (\<lambda>w4. Inr (c5, w4)))))))))"

text \<open>
  The input of a custom handler with the base filter of its processor, which may be absent, one filter or an array
  of filters.  For blocks and transactions the code hands the base filter on as it is, and an array has none of the
  fields that \<^verbatim>\<open>filterBlock\<close> and \<^verbatim>\<open>filterTx\<close> read: it acts as a filter without fields, whatever it contains.  The
  parameters \<^verbatim>\<open>kind\<close>, \<^verbatim>\<open>data\<close> and \<^verbatim>\<open>baseFilter\<close> are one value with a constructor for each case of the switch: the casts of
  the cases assert that data and filter are of the kind; \<open>OtherInput\<close> is the default case.
\<close>

datatype custom_input =
    BlockInput CosmosBlock "CosmosBlockFilter one_or_many"
  | TransactionInput CosmosTransaction "CosmosTxFilter one_or_many"
  | MessageInput CosmosMessage "CosmosMessageFilter one_or_many"
  | EventInput CosmosEvent "CosmosEventFilter one_or_many"
  | OtherInput string

definition uncheckedFilter :: "'f \<Rightarrow> 'f one_or_many \<Rightarrow> 'f option" where
  "uncheckedFilter noFields bf = (case bf of Absent \<Rightarrow> None | One f \<Rightarrow> Some f | Many fs \<Rightarrow> Some noFields)"

definition arrayAsBlockFilter :: CosmosBlockFilter where
  "arrayAsBlockFilter = \<lparr>modulo = None, timestamp = None\<rparr>"

definition arrayAsTxFilter :: CosmosTxFilter where
  "arrayAsTxFilter = \<lparr>includeFailedTx = False\<rparr>"

definition nonEmpty :: "'a list result \<Rightarrow> bool result" where
  "nonEmpty r = rbind r (\<lambda>xs. Inr (xs \<noteq> []))"

fun baseCustomHandlerFilter :: "value_lib \<Rightarrow> custom_input \<Rightarrow> bool result" where
  "baseCustomHandlerFilter L (BlockInput b f) = Inr (filterBlock b (uncheckedFilter arrayAsBlockFilter f))"
| "baseCustomHandlerFilter L (TransactionInput t f) = Inr (filterTx t (uncheckedFilter arrayAsTxFilter f))"
| "baseCustomHandlerFilter L (MessageInput m f) = nonEmpty (fst (filterMessages L (Some [m]) f))"
| "baseCustomHandlerFilter L (EventInput e f) = nonEmpty (fst (filterEvents L [e] f))"
| "baseCustomHandlerFilter L (OtherInput k) = throwError ''Unsuported handler kind''"

text \<open>
  The filter of a runtime handler, chosen by its kind in \<^verbatim>\<open>FilterTypeMap\<close>; an entry reads the data and one filter
  or none.  \<^verbatim>\<open>prepareFilteredData\<close> hands the data through.
\<close>

datatype handler_input =
    BlockHandlerInput CosmosBlock "CosmosBlockFilter option"
  | TransactionHandlerInput CosmosTransaction "CosmosTxFilter option"
  | MessageHandlerInput CosmosMessage "CosmosMessageFilter option"
  | EventHandlerInput CosmosEvent "CosmosEventFilter option"

fun FilterTypeMap :: "value_lib \<Rightarrow> handler_input \<Rightarrow> bool result" where
  "FilterTypeMap L (BlockHandlerInput b f) = Inr (filterBlock b f)"
| "FilterTypeMap L (TransactionHandlerInput t f) = Inr (filterTx t f)"
| "FilterTypeMap L (EventHandlerInput e f) = fst (filterEvent L e f)"
| "FilterTypeMap L (MessageHandlerInput m f) = fst (filterMessageData L m f)"

definition prepareFilteredData :: "CosmosHandlerKind \<Rightarrow> 'd \<Rightarrow> 'd promise" where
  "prepareFilteredData k data = [Inr data]"

section \<open>The schedule of a block\<close>

text \<open>
  The abstract view: the items of a block in the order in which they are handed to the data
  sources, each with the kind of handler it is for.
\<close>

definition eventItem :: "CosmosEvent \<Rightarrow> CosmosHandlerKind \<times> item" where
  "eventItem e = (Event, IEvent e)"

definition eventsOf :: "CosmosTransaction \<Rightarrow> CosmosMessage \<Rightarrow> CosmosEvent list \<Rightarrow> CosmosEvent list" where
  "eventsOf tx m evs = filter (\<lambda>e. eventOfMessage tx m e = Inr True) evs"

definition messageItems :: "CosmosEvent list \<Rightarrow> CosmosTransaction \<Rightarrow> CosmosMessage \<Rightarrow> (CosmosHandlerKind \<times> item) list" where
  "messageItems evs tx m = (Message, IMessage m) # map eventItem (eventsOf tx m evs)"

definition txItems ::
    "CosmosMessage list \<Rightarrow> CosmosEvent list \<Rightarrow> CosmosTransaction \<Rightarrow> (CosmosHandlerKind \<times> item) list" where
  "txItems ms evs tx =
     (Transaction, ITransaction tx) #
     concat (map (messageItems evs tx) (filter (\<lambda>m. tx_hash (msg_tx m) = tx_hash tx) ms))"

definition schedule ::
    "CosmosBlock \<Rightarrow> CosmosEvent list \<Rightarrow> CosmosTransaction list \<Rightarrow> CosmosMessage list \<Rightarrow> CosmosEvent list \<Rightarrow>
     CosmosEvent list \<Rightarrow> (CosmosHandlerKind \<times> item) list" where
  "schedule b begin_evs txs ms evs end_evs =
     (Block, IBlock b) # map eventItem begin_evs @ concat (map (txItems ms evs) txs) @ map eventItem end_evs"

definition indexItem :: "('ds, 'w) index_data \<Rightarrow> 'ds list \<Rightarrow> CosmosHandlerKind \<times> item \<Rightarrow> 'w \<Rightarrow> 'w result" where
  "indexItem indexData dataSources ki w = rfold (indexData (fst ki) (snd ki)) dataSources w"

lemma indexEvents_items:
  "rfold (indexEvent I D) evs w = rfold (indexItem I D) (map eventItem evs) w"
  unfolding rfold_map by (rule rfold_cong) (simp add: indexEvent_def indexItem_def eventItem_def)

lemma rfilter_total:
  "(\<And>x. x \<in> set xs \<Longrightarrow> \<exists>b. p x = Inr b) \<Longrightarrow> rfilter p xs = Inr (filter (\<lambda>x. p x = Inr True) xs)"
  by (induction xs) force+

lemma eventOfMessage_total: "event_tx e \<noteq> None \<Longrightarrow> \<exists>b. eventOfMessage tx m e = Inr b"
  by (auto simp: eventOfMessage_def)

section \<open>The loops follow the schedule\<close>

abbreviation withContent :: "LazyBlockContent \<Rightarrow> 'w result \<Rightarrow> (LazyBlockContent \<times> 'w) result" where
  "withContent c r \<equiv> rbind r (\<lambda>w. Inr (c, w))"

lemma getTransactions_frame: "\<exists>bo to. snd (getTransactions J s) = s\<lparr>wrappedBlock := bo, wrappedTransaction := to\<rparr>"
proof (cases "wrappedTransaction s")
  case (Some txs)
  then show ?thesis
    by (intro exI [of _ "wrappedBlock s"] exI [of _ "wrappedTransaction s"]) (simp add: getTransactions_def)
next
  case None
  obtain b s1 where b: "getBlock J s = (b, s1)" by (cases "getBlock J s")
  then have s1: "s1 = s\<lparr>wrappedBlock := Some b, wrappedTransaction := None\<rparr>"
    using getBlock_state [of J s] None by (cases s) simp
  have "snd (getTransactions J s) \<in> {s1, s1\<lparr>wrappedTransaction := Some (projr (wrapTx J b (results (lbc_results s1))))\<rparr>}"
    by (auto simp: getTransactions_def None b split: sum.splits)
  then show ?thesis by (auto simp: s1)
qed

lemma getMessages_frame:
  "wrappedEvent (snd (getMessages J api s)) = wrappedEvent s \<and>
   wrappedEndBlockEvents (snd (getMessages J api s)) = wrappedEndBlockEvents s \<and>
   eventIdx (snd (getMessages J api s)) = eventIdx s"
proof (cases "wrappedMessage s")
  case None
  obtain b s1 where b: "getBlock J s = (b, s1)" by (cases "getBlock J s")
  obtain r s2 where t: "getTransactions J s1 = (r, s2)" by (cases "getTransactions J s1")
  obtain bo to where "s2 = s1\<lparr>wrappedBlock := bo, wrappedTransaction := to\<rparr>"
    using getTransactions_frame [of J s1] t by auto
  moreover have "s1 = s\<lparr>wrappedBlock := Some b\<rparr>"
    using getBlock_state [of J s] b by simp
  ultimately have "wrappedEvent s2 = wrappedEvent s \<and> wrappedEndBlockEvents s2 = wrappedEndBlockEvents s \<and>
      eventIdx s2 = eventIdx s" by simp
  then show ?thesis
    by (simp add: getMessages_def None b t split: sum.splits prod.splits)
qed (simp add: getMessages_def)

text \<open>The states of the content inside the loop over the transactions.\<close>

definition inLoop ::
    "cosmjs_lib \<Rightarrow> CosmosClient \<Rightarrow> BlockResponse \<Rightarrow> BlockResultsResponse \<Rightarrow> nat \<Rightarrow> CosmosEvent list \<Rightarrow> LazyBlockContent \<Rightarrow> bool" where
  "inLoop J api info res n evs c \<longleftrightarrow>
     cachesAgree J api info res c \<and> wrappedEndBlockEvents c = None \<and>
     (wrappedEvent c = None \<and> eventIdx c = n \<or> wrappedEvent c = Some evs \<and> eventIdx c = n + length evs)"

lemma getMessages_inLoop:
  assumes "inLoop J api info res n evs c" and "eagerMessages J api info res = Inr ms"
  shows "\<exists>c'. getMessages J api c = (Inr ms, c') \<and> inLoop J api info res n evs c'"
proof -
  have a: "cachesAgree J api info res c" using assms(1) by (simp add: inLoop_def)
  obtain r c' where g: "getMessages J api c = (r, c')" by (cases "getMessages J api c")
  have "r = Inr ms" and "cachesAgree J api info res c'"
    using getMessages_agree [OF a] assms(2) g by auto
  then show ?thesis using assms(1) g getMessages_frame [of J api c] by (auto simp: inLoop_def)
qed

lemma getEvents_inLoop:
  assumes "inLoop J api info res n evs c" and "eagerEvents J api info res n = Inr evs"
  shows "\<exists>c'. getEvents J api c = (Inr evs, c') \<and> inLoop J api info res n evs c'"
proof (cases "wrappedEvent c")
  case (Some es)
  with assms(1) show ?thesis by (intro exI [of _ c]) (simp add: inLoop_def getEvents_def)
next
  case None
  have a: "cachesAgree J api info res c" and n: "eventIdx c = n" and e: "wrappedEndBlockEvents c = None"
    using assms(1) None by (auto simp: inLoop_def)
  obtain c' where c': "getEvents J api c = (Inr evs, c')" "wrappedEvent c' = Some evs"
      "eventIdx c' = n + length evs" "wrappedEndBlockEvents c' = None"
  proof (rule getEvents_fresh [OF a None])
    fix e assume "eagerTxs J info res = Inl e"
    with assms(2) show ?thesis by (simp add: eagerEvents_def)
  next
    fix es txs bo
    assume "eagerEvents J api info res (eventIdx c) = Inr es"
      and g: "getEvents J api c = (Inr es, c\<lparr>wrappedBlock := bo, wrappedTransaction := Some txs,
             wrappedEvent := Some es, eventIdx := eventIdx c + length es\<rparr>)"
    with assms(2) n have "es = evs" by simp
    with g n have g': "getEvents J api c = (Inr evs, c\<lparr>wrappedBlock := bo, wrappedTransaction := Some txs,
             wrappedEvent := Some evs, eventIdx := n + length evs\<rparr>)" by simp
    show ?thesis by (rule that [OF g']) (simp_all add: e)
  qed
  moreover have "cachesAgree J api info res c'" using getEvents_agree [OF a] c'(1) by simp
  ultimately show ?thesis by (auto simp: inLoop_def)
qed

lemma eagerEvents_have_tx: "eagerEvents J api info res n = Inr evs \<Longrightarrow> e \<in> set evs \<Longrightarrow> event_tx e \<noteq> None"
  by (auto simp: eagerEvents_def rbind_Inr_iff wrapEvent_spec dest!: set_numberFrom event_idx_txEvents)

lemma rbind_withContent [simp]: "rbind (withContent c r) f = rbind r (\<lambda>w. f (c, w))"
  by (cases r) simp_all

lemma messageStep_schedule:
  assumes "inLoop J api info res n evs c" and "eagerEvents J api info res n = Inr evs"
  shows "\<exists>c'. inLoop J api info res n evs c' \<and>
    (\<forall>w. indexMessageStep J api I D tx m (c, w) = withContent c' (rfold (indexItem I D) (messageItems evs tx m) w))"
proof -
  obtain c' where g: "getEvents J api c = (Inr evs, c')" "inLoop J api info res n evs c'"
    using getEvents_inLoop [OF assms] by blast
  have f: "rfilter (eventOfMessage tx m) evs = Inr (eventsOf tx m evs)"
    unfolding eventsOf_def
    by (intro rfilter_total eventOfMessage_total eagerEvents_have_tx [OF assms(2)])
  have "indexMessageStep J api I D tx m (c, w) = withContent c' (rfold (indexItem I D) (messageItems evs tx m) w)" for w
    by (simp add: indexMessageStep_def g f messageItems_def indexEvents_items rbind_assoc)
      (simp add: indexMessage_def indexItem_def)
  with g(2) show ?thesis by blast
qed

lemma messageLoop_schedule:
  assumes "inLoop J api info res n evs c" and "eagerEvents J api info res n = Inr evs"
  shows "\<exists>c'. inLoop J api info res n evs c' \<and>
    (\<forall>w. rfold (indexMessageStep J api I D tx) ms (c, w) =
         withContent c' (rfold (indexItem I D) (concat (map (messageItems evs tx) ms)) w))"
  using assms(1)
proof (induction ms arbitrary: c)
  case (Cons m ms)
  obtain c1 where c1: "inLoop J api info res n evs c1" "\<And>w. indexMessageStep J api I D tx m (c, w) =
      withContent c1 (rfold (indexItem I D) (messageItems evs tx m) w)"
    using messageStep_schedule [OF Cons.prems assms(2), of I D tx m] by blast
  obtain c2 where c2: "inLoop J api info res n evs c2" "\<And>w. rfold (indexMessageStep J api I D tx) ms (c1, w) =
      withContent c2 (rfold (indexItem I D) (concat (map (messageItems evs tx) ms)) w)"
    using Cons.IH [OF c1(1)] by blast
  then show ?case
    by (intro exI [of _ c2]) (simp add: c1(2) c2 rfold_append rbind_assoc cong: rbind_cong_fun)
qed auto

lemma txLoop_schedule:
  assumes "inLoop J api info res n evs c" and "eagerEvents J api info res n = Inr evs"
    and "eagerMessages J api info res = Inr ms"
  shows "\<exists>c'. inLoop J api info res n evs c' \<and>
    (\<forall>w. rfold (indexTransactionStep J api I D) txs (c, w) =
         withContent c' (rfold (indexItem I D) (concat (map (txItems ms evs) txs)) w))"
  using assms(1)
proof (induction txs arbitrary: c)
  case (Cons tx txs)
  obtain c0 where c0: "getMessages J api c = (Inr ms, c0)" "inLoop J api info res n evs c0"
    using getMessages_inLoop [OF Cons.prems assms(3)] by blast
  obtain c1 where c1: "inLoop J api info res n evs c1"
    "\<And>w. rfold (indexMessageStep J api I D tx) (filter (\<lambda>m. tx_hash (msg_tx m) = tx_hash tx) ms) (c0, w) =
      withContent c1 (rfold (indexItem I D) (concat (map (messageItems evs tx)
        (filter (\<lambda>m. tx_hash (msg_tx m) = tx_hash tx) ms))) w)"
    using messageLoop_schedule [OF c0(2) assms(2)] by blast
  obtain c2 where c2: "inLoop J api info res n evs c2" "\<And>w. rfold (indexTransactionStep J api I D) txs (c1, w) =
      withContent c2 (rfold (indexItem I D) (concat (map (txItems ms evs) txs)) w)"
    using Cons.IH [OF c1(1)] by blast
  have "indexTransactionStep J api I D tx (c, w) = withContent c1 (rfold (indexItem I D) (txItems ms evs tx) w)" for w
    by (simp add: indexTransactionStep_def c0 c1(2) txItems_def rbind_assoc)
      (simp add: indexTransaction_def indexItem_def)
  with c2 show ?case
    by (intro exI [of _ c2]) (simp add: rfold_append rbind_assoc cong: rbind_cong_fun)
qed auto

lemma readTxs_fst: "list_all2 readTx txs base \<Longrightarrow> map fst txs = map fst base"
  by (induction rule: list_all2_induct) (auto simp: readTx_def forced_def)

text \<open>The content after the block and the events of its begin have been read.\<close>

lemma begin_read:
  obtains c1 c2 where "getBlock J (newLazyBlockContent info res) = (eagerBlock J info res, c1)"
    and "getBeginBlockEvents J c1 = (eagerBegin J info res 0, c2)"
    and "cachesAgree J api info res c2" and "wrappedEvent c2 = None" and "wrappedEndBlockEvents c2 = None"
    and "eventIdx c2 = length (eagerBegin J info res 0)"
proof -
  have a0: "cachesAgree J api info res (newLazyBlockContent info res)" using new_agree by simp
  let ?c1 = "(newLazyBlockContent info res)\<lparr>wrappedBlock := Some (eagerBlock J info res)\<rparr>"
  have a1: "cachesAgree J api info res ?c1" by (rule getBlock_agree [OF a0])
  let ?c2 = "?c1\<lparr>wrappedBeginBlockEvents := Some (eagerBegin J info res 0), eventIdx := length (eagerBegin J info res 0)\<rparr>"
  have g: "getBeginBlockEvents J ?c1 = (eagerBegin J info res 0, ?c2)"
    by (simp add: getBeginBlockEvents_def getBlock_def eagerBegin_def newLazyBlockContent_def Let_def)
  have "cachesAgree J api info res ?c2" using getBegin_agree [OF a1] g by simp
  then show ?thesis using getBlock_eq [OF a0] g
    by (intro that [of ?c1 ?c2]) (simp_all add: newLazyBlockContent_def)
qed

lemma transactions_read:
  assumes "cachesAgree J api info res c" and "eagerTxs J info res = Inr base"
    and "wrappedEvent c = None" and "wrappedEndBlockEvents c = None" and "eventIdx c = n"
  obtains txs c' where "getTransactions J c = (Inr txs, c')" and "map fst txs = map fst base"
    and "inLoop J api info res n evs c'"
proof (rule getTransactions_eq [OF assms(1)])
  fix base' txs bo
  assume "eagerTxs J info res = Inr base'" "list_all2 readTx txs base'"
    and g: "getTransactions J c = (Inr txs, c\<lparr>wrappedBlock := bo, wrappedTransaction := Some txs\<rparr>)"
  then have "map fst txs = map fst base" using assms(2) readTxs_fst by simp
  moreover have "cachesAgree J api info res (c\<lparr>wrappedBlock := bo, wrappedTransaction := Some txs\<rparr>)"
    using touch_agree [OF assms(1), of ATransactions] g by simp
  ultimately show ?thesis using g assms(3-5) that by (simp add: inLoop_def)
qed (use assms(2) in simp)

lemma end_read:
  assumes "inLoop J api info res n evs c"
  shows "\<exists>off \<in> {n, n + length evs}. \<exists>c'. getEndBlockEvents J c = (eagerEnd J info res off, c')"
proof -
  have a: "cachesAgree J api info res c" "wrappedEndBlockEvents c = None" "eventIdx c \<in> {n, n + length evs}"
    using assms by (auto simp: inLoop_def)
  have "lbc_results c = res" using a(1) by (simp add: cachesAgree_def)
  then have "fst (getEndBlockEvents J c) = eagerEnd J info res (eventIdx c)"
    by (simp add: getEndBlockEvents_def a(2) getBlock_eq [OF a(1)] eagerEnd_def Let_def)
  then show ?thesis using a(3) by (metis prod.collapse)
qed

section \<open>Properties of the indexer\<close>

lemma indexBlockData_schedule:
  assumes "eagerTxs J info res = Inr txs" and "eagerMessages J api info res = Inr ms"
    and "eagerEvents J api info res (length (eagerBegin J info res 0)) = Inr evs"
  shows "\<exists>off \<in> {length (eagerBegin J info res 0), length (eagerBegin J info res 0) + length evs}.
    \<exists>c'. \<forall>w. indexBlockData J api I D (newLazyBlockContent info res, w) =
      rbind (rfold (indexItem I D) (schedule (eagerBlock J info res) (eagerBegin J info res 0)
        (map fst txs) ms evs (eagerEnd J info res off)) w) (\<lambda>w'. Inr (c', w'))"
proof -
  let ?b = "eagerBegin J info res 0" and ?B = "eagerBlock J info res"
  obtain c1 c2 where g1: "getBlock J (newLazyBlockContent info res) = (?B, c1)"
    and g2: "getBeginBlockEvents J c1 = (?b, c2)"
    and a2: "cachesAgree J api info res c2" "wrappedEvent c2 = None" "wrappedEndBlockEvents c2 = None"
      "eventIdx c2 = length ?b" by (rule begin_read)
  obtain txs' c3 where g3: "getTransactions J c2 = (Inr txs', c3)" "map fst txs' = map fst txs"
    and l3: "inLoop J api info res (length ?b) evs c3"
    by (rule transactions_read [OF a2(1) assms(1) a2(2-4)])
  obtain c4 where l4: "inLoop J api info res (length ?b) evs c4"
    and g4: "\<And>w. rfold (indexTransactionStep J api I D) (map fst txs) (c3, w) =
         withContent c4 (rfold (indexItem I D) (concat (map (txItems ms evs) (map fst txs))) w)"
    using txLoop_schedule [OF l3 assms(3,2), of I D "map fst txs"] by blast
  obtain off c5 where off: "off \<in> {length ?b, length ?b + length evs}"
    and g5: "getEndBlockEvents J c4 = (eagerEnd J info res off, c5)" using end_read [OF l4] by blast
  have "indexBlockData J api I D (newLazyBlockContent info res, w) =
      withContent c5 (rfold (indexItem I D) (schedule ?B ?b (map fst txs) ms evs (eagerEnd J info res off)) w)" for w
    by (simp add: indexBlockData_def g1 g2 g3 g4 g5 indexEvents_items schedule_def rfold_append rbind_assoc
        cong: rbind_cong_fun) (simp add: indexBlockContent_def indexItem_def)
  with off show ?thesis by blast
qed

text \<open>
  C1: indexing a fetched block runs the data sources over the schedule of the block: the block, the
  events of its begin, each transaction followed by its messages, each message followed by its
  events, and the events of its end; the first error stops the run and is its result.
\<close>

theorem indexBlockData_follows_schedule:
  assumes "eagerTxs J info res = Inr txs" and "eagerMessages J api info res = Inr ms"
    and "eagerEvents J api info res (length (eagerBegin J info res 0)) = Inr evs"
  shows "\<exists>off \<in> {length (eagerBegin J info res 0), length (eagerBegin J info res 0) + length evs}.
    \<exists>c'. \<forall>w. indexBlockData J api I D (newLazyBlockContent info res, w) =
      rbind (rfold (indexItem I D) (schedule (eagerBlock J info res) (eagerBegin J info res 0)
        (map fst txs) ms evs (eagerEnd J info res off)) w) (\<lambda>w'. Inr (c', w'))"
  using assms by (rule indexBlockData_schedule)

text \<open>
  What the data sources are handed is read off a recording \<^verbatim>\<open>indexData\<close>, which appends the kind of handler, the
  item and the data source to its world.
\<close>

type_synonym 'ds record_entry = "CosmosHandlerKind \<times> item \<times> 'ds"

definition recordItem :: "('ds, 'ds record_entry list) index_data" where
  "recordItem k i d w = Inr (w @ [(k, i, d)])"

definition handed :: "'ds list \<Rightarrow> (CosmosHandlerKind \<times> item) list \<Rightarrow> 'ds record_entry list" where
  "handed D sch = concat (map (\<lambda>ki. map (\<lambda>d. (fst ki, snd ki, d)) D) sch)"

definition messageItem :: "CosmosMessage \<Rightarrow> CosmosHandlerKind \<times> item" where
  "messageItem m = (Message, IMessage m)"

fun ofMessage :: "'ds record_entry \<Rightarrow> bool" where
  "ofMessage (k, IMessage m, d) = True"
| "ofMessage _ = False"

fun ofEvent :: "'ds record_entry \<Rightarrow> bool" where
  "ofEvent (k, IEvent e, d) = True"
| "ofEvent _ = False"

lemma rfold_record: "rfold (indexItem recordItem D) sch w = Inr (w @ handed D sch)"
proof -
  have "rfold (recordItem k i) ds w = Inr (w @ map (\<lambda>d. (k, i, d)) ds)" for k i w and ds :: "'a list"
    by (induction ds arbitrary: w) (simp_all add: recordItem_def)
  then show ?thesis by (induction sch arbitrary: w) (simp_all add: indexItem_def handed_def)
qed

lemma handed_append [simp]: "handed D (xs @ ys) = handed D xs @ handed D ys"
  by (simp add: handed_def)

lemma handed_Nil [simp]: "handed D [] = []"
  by (simp add: handed_def)

lemma handed_concat: "handed D (concat xss) = concat (map (handed D) xss)"
  by (induction xss) simp_all

lemma handed_Cons [simp]: "handed D ((k, i) # xs) = map (\<lambda>d. (k, i, d)) D @ handed D xs"
  by (simp add: handed_def)

lemma filter_rows [simp]:
  "filter ofMessage (map (\<lambda>d. (k, IMessage m, d)) D) = map (\<lambda>d. (k, IMessage m, d)) D"
  "filter ofMessage (map (\<lambda>d. (k, IBlock b, d)) D) = []"
  "filter ofMessage (map (\<lambda>d. (k, ITransaction t, d)) D) = []"
  "filter ofMessage (map (\<lambda>d. (k, IEvent e, d)) D) = []"
  "filter ofEvent (map (\<lambda>d. (k, IMessage m, d)) D) = []"
  "filter ofEvent (map (\<lambda>d. (k, IBlock b, d)) D) = []"
  "filter ofEvent (map (\<lambda>d. (k, ITransaction t, d)) D) = []"
  "filter ofEvent (map (\<lambda>d. (k, IEvent e, d)) D) = map (\<lambda>d. (k, IEvent e, d)) D"
  by (auto simp: filter_id_conv filter_empty_conv)

lemma filter_handed_events:
  "filter ofMessage (handed D (map eventItem evs)) = []"
  "filter ofEvent (handed D (map eventItem evs)) = handed D (map eventItem evs)"
  by (auto simp: handed_def eventItem_def filter_empty_conv filter_id_conv)

lemma handed_messages_schedule:
  "filter ofMessage (handed D (schedule b be txs ms evs ee)) =
     handed D (map messageItem (concat (map (\<lambda>tx. filter (\<lambda>m. tx_hash (msg_tx m) = tx_hash tx) ms) txs)))"
proof -
  have m: "filter ofMessage (handed D (concat (map (messageItems evs tx) ms'))) = handed D (map messageItem ms')" for tx ms'
    by (induction ms') (simp_all add: messageItems_def 
        filter_handed_events messageItem_def)
  have "filter ofMessage (handed D (concat (map (txItems ms evs) txs))) =
      handed D (map messageItem (concat (map (\<lambda>tx. filter (\<lambda>m. tx_hash (msg_tx m) = tx_hash tx) ms) txs)))"
    by (induction txs) (simp_all add: txItems_def m)
  then show ?thesis
    by (simp add: schedule_def filter_handed_events)
qed

lemma handed_events_schedule:
  "filter ofEvent (handed D (schedule b be txs ms evs ee)) =
     handed D (map eventItem be) @
     handed D (map eventItem (concat (map (\<lambda>tx. concat (map (\<lambda>m. eventsOf tx m evs)
       (filter (\<lambda>m. tx_hash (msg_tx m) = tx_hash tx) ms))) txs))) @
     handed D (map eventItem ee)"
proof -
  have m: "filter ofEvent (handed D (concat (map (messageItems evs tx) ms'))) =
      handed D (map eventItem (concat (map (\<lambda>m. eventsOf tx m evs) ms')))" for tx ms'
    by (induction ms') (simp_all add: messageItems_def filter_handed_events)
  have "filter ofEvent (handed D (concat (map (txItems ms evs) txs))) =
      handed D (map eventItem (concat (map (\<lambda>tx. concat (map (\<lambda>m. eventsOf tx m evs)
       (filter (\<lambda>m. tx_hash (msg_tx m) = tx_hash tx) ms))) txs)))"
    by (induction txs) (simp_all add: txItems_def m)
  then show ?thesis
    by (simp add: schedule_def filter_handed_events)
qed

lemma eagerEvents_exist:
  "eagerTxs J info res = Inr txs \<Longrightarrow> eagerEvents J api info res n = Inr (fst (wrapEvent J api (eagerBlock J info res) txs n))"
  by (simp add: eagerEvents_def)

text \<open>The record of indexing a fetched block is the schedule, each item handed to every data source in turn.\<close>

lemma indexBlockData_recorded:
  assumes "eagerTxs J info res = Inr txs" and "eagerMessages J api info res = Inr ms"
    and "eagerEvents J api info res (length (eagerBegin J info res 0)) = Inr evs"
  shows "\<exists>off \<in> {length (eagerBegin J info res 0), length (eagerBegin J info res 0) + length evs}.
    \<exists>c'. indexBlockData J api recordItem D (newLazyBlockContent info res, []) =
      Inr (c', handed D (schedule (eagerBlock J info res) (eagerBegin J info res 0) (map fst txs) ms evs
        (eagerEnd J info res off)))"
  using indexBlockData_schedule [OF assms, of recordItem D] unfolding rfold_record by auto

text \<open>Splitting a list by key and joining it again, when it is grouped by distinct keys.\<close>

lemma regroup:
  assumes "list_all2 (\<lambda>xs t. \<forall>x \<in> set xs. h x = g t) xss ts" and "distinct (map g ts)"
  shows "concat (map (\<lambda>t. filter (\<lambda>x. h x = g t) (concat xss)) ts) = concat xss"
  using assms
proof (induction rule: list_all2_induct)
  case (Cons xs xss t ts)
  have k: "\<forall>x \<in> set (concat xss). h x \<in> g ` set ts"
    using Cons.hyps(2) by (induction rule: list_all2_induct) auto
  have e1: "filter (\<lambda>x. h x = g t) (xs @ concat xss) = xs"
    using Cons.hyps(1) Cons.prems k by (auto simp: filter_id_conv filter_empty_conv) metis
  have "filter (\<lambda>x. h x = g t') (xs @ concat xss) = filter (\<lambda>x. h x = g t') (concat xss)"
    if "t' \<in> set ts" for t'
    using Cons.hyps(1) Cons.prems that by (auto simp: filter_empty_conv)
  then have e2: "map (\<lambda>t'. filter (\<lambda>x. h x = g t') (xs @ concat xss)) ts =
      map (\<lambda>t'. filter (\<lambda>x. h x = g t') (concat xss)) ts" by simp
  have "concat (map (\<lambda>t'. filter (\<lambda>x. h x = g t') (concat xss)) ts) = concat xss"
    using Cons.IH Cons.prems by simp
  then show ?case by (simp only: list.map concat.simps e1 e2)
qed simp

lemma txMessages_grouped:
  assumes "rmap (txMessages api b) txs = Inr mss"
  shows "list_all2 (\<lambda>ms tx. \<forall>m \<in> set ms. msg_tx m = tx) mss (map fst txs)"
  using assms
proof (induction txs arbitrary: mss)
  case (Cons t txs)
  then obtain ms mss' where "txMessages api b t = Inr ms" "rmap (txMessages api b) txs = Inr mss'" "mss = ms # mss'"
    by (auto simp: rbind_Inr_iff)
  with Cons.IH show ?case
    by (auto simp: txMessages_Inr messagesOf_alt newMessage_def)
qed simp

lemma eagerMessages_grouped:
  assumes "eagerTxs J info res = Inr txs" and "eagerMessages J api info res = Inr ms"
  obtains mss where "ms = concat mss" and "list_all2 (\<lambda>ms tx. \<forall>m \<in> set ms. msg_tx m = tx) mss (map fst txs)"
  using assms txMessages_grouped by (auto simp: eagerMessages_def wrapMsg_result rbind_Inr_iff)

lemma eagerMessages_txs:
  assumes "eagerTxs J info res = Inr txs" and "eagerMessages J api info res = Inr ms" and "m \<in> set ms"
  shows "\<exists>t \<in> set txs. msg_tx m = fst t"
proof -
  obtain mss where m: "ms = concat mss" "list_all2 (\<lambda>ms tx. \<forall>m \<in> set ms. msg_tx m = tx) mss (map fst txs)"
    by (rule eagerMessages_grouped [OF assms(1,2)])
  from m(2) have "\<forall>m \<in> set (concat mss). msg_tx m \<in> set (map fst txs)"
    by (induction rule: list_all2_induct) auto
  then show ?thesis using m(1) assms(3) by auto
qed

lemma messages_regrouped:
  assumes "eagerTxs J info res = Inr txs" and "eagerMessages J api info res = Inr ms"
    and "distinct (map (\<lambda>t. tx_hash (fst t)) txs)"
  shows "concat (map (\<lambda>tx. filter (\<lambda>m. tx_hash (msg_tx m) = tx_hash tx) ms) (map fst txs)) = ms"
proof -
  obtain mss where m: "ms = concat mss" "list_all2 (\<lambda>ms tx. \<forall>m \<in> set ms. msg_tx m = tx) mss (map fst txs)"
    by (rule eagerMessages_grouped [OF assms(1,2)])
  from m(2) have "list_all2 (\<lambda>ms tx. \<forall>m \<in> set ms. tx_hash (msg_tx m) = tx_hash tx) mss (map fst txs)"
    by (rule list_all2_mono) simp
  from regroup [OF this] assms(3) m(1) show ?thesis by (simp add: comp_def)
qed

text \<open>
  C7: when the transactions of a fetched block have different hashes, the messages that \<^verbatim>\<open>indexBlockData\<close> hands to
  the data sources are the messages of the block, each once to every data source, in their order, and to message
  handlers only.
\<close>

theorem messages_indexed_once:
  assumes "eagerTxs J info res = Inr txs" and "eagerMessages J api info res = Inr ms"
    and "distinct (map (\<lambda>t. tx_hash (fst t)) txs)"
  shows "\<exists>c' log. indexBlockData J api recordItem D (newLazyBlockContent info res, []) = Inr (c', log) \<and>
    filter ofMessage log = concat (map (\<lambda>m. map (\<lambda>d. (Message, IMessage m, d)) D) ms)"
proof -
  have "handed D (map messageItem ms) = concat (map (\<lambda>m. map (\<lambda>d. (Message, IMessage m, d)) D) ms)"
    by (induction ms) (simp_all add: handed_def messageItem_def)
  with indexBlockData_recorded [OF assms(1,2) eagerEvents_exist [OF assms(1)], of D] messages_regrouped [OF assms]
  show ?thesis by (auto simp: handed_messages_schedule)
qed

text \<open>
  In general a message is handed over once for every transaction of the block that has the hash
  of the message's transaction: equal raw transactions multiply their messages.
\<close>

theorem message_indexed_count:
  assumes "eagerTxs J info res = Inr txs" and "eagerMessages J api info res = Inr ms"
  shows "\<exists>c' log. indexBlockData J api recordItem [d] (newLazyBlockContent info res, []) = Inr (c', log) \<and>
    count_list log (Message, IMessage m, d) =
      length (filter (\<lambda>tx. tx_hash (fst tx) = tx_hash (msg_tx m)) txs) * count_list ms m"
proof -
  have c: "count_list (filter (\<lambda>m'. tx_hash (msg_tx m') = tx_hash tx) ms) m =
      (if tx_hash tx = tx_hash (msg_tx m) then count_list ms m else 0)" for tx
    by (induction ms) auto
  have f: "count_list log (Message, IMessage m, d) = count_list (filter ofMessage log) (Message, IMessage m, d)"
    for log :: "'a record_entry list"
    by (induction log) auto
  have h: "count_list (handed [d] (map messageItem ms')) (Message, IMessage m, d) = count_list ms' m" for ms'
    by (induction ms') (simp_all add: handed_def messageItem_def)
  have "count_list (concat (map (\<lambda>tx. filter (\<lambda>m'. tx_hash (msg_tx m') = tx_hash tx) ms) (map fst txs))) m =
      length (filter (\<lambda>tx. tx_hash (fst tx) = tx_hash (msg_tx m)) txs) * count_list ms m"
    by (induction txs) (simp_all add: c)
  then have "count_list (handed [d] (schedule b be (map fst txs) ms evs ee)) (Message, IMessage m, d) =
      length (filter (\<lambda>tx. tx_hash (fst tx) = tx_hash (msg_tx m)) txs) * count_list ms m" for b be evs ee
    by (subst f) (simp only: handed_messages_schedule h)
  with indexBlockData_recorded [OF assms eagerEvents_exist [OF assms(1)], of "[d]"] show ?thesis by auto
qed

text \<open>Distributing a list over predicates: an element appears once per predicate it satisfies.\<close>

lemma mset_distribute:
  assumes "\<And>e. e \<in> set es \<Longrightarrow> length (filter (\<lambda>p. P p e) ps) = (if Q e then 1 else 0)"
  shows "mset (concat (map (\<lambda>p. filter (P p) es) ps)) = mset (filter Q es)"
proof -
  have step: "mset (concat (map (\<lambda>p. filter (P p) (e # es)) ps)) =
      replicate_mset (length (filter (\<lambda>p. P p e) ps)) e + mset (concat (map (\<lambda>p. filter (P p) es) ps))" for e es
    by (induction ps) auto
  show ?thesis using assms
  proof (induction es)
    case Nil
    then show ?case by (induction ps) auto
  next
    case (Cons e es)
    then show ?case by (simp only: step) auto
  qed
qed

lemma matching_message_unique:
  assumes "m0 \<in> set ms" and "distinct (map msgPosition ms)" and "event_tx e = Some (msg_tx m0)"
    and "event_msg e = Some m0" and hash: "\<And>m. m \<in> set ms \<Longrightarrow> tx_hash (msg_tx m) = tx_hash (msg_tx m0) \<Longrightarrow> msg_tx m = msg_tx m0"
  shows "length (filter (\<lambda>m. eventOfMessage (msg_tx m) m e = Inr True) ms) = 1"
proof -
  have "eventOfMessage (msg_tx m) m e = Inr True \<longleftrightarrow> m = m0" if "m \<in> set ms" for m
  proof
    assume "eventOfMessage (msg_tx m) m e = Inr True"
    then have "tx_hash (msg_tx m) = tx_hash (msg_tx m0)" and "msg_idx m = msg_idx m0"
      using assms(3,4) by (auto simp: eventOfMessage_def)
    then have "msgPosition m = msgPosition m0" using hash [OF that] by (simp add: msgPosition_def)
    then show "m = m0" using assms(1,2) that by (metis distinct_map inj_onD)
  qed (use assms(3,4) in \<open>simp add: eventOfMessage_def\<close>)
  then have "filter (\<lambda>m. eventOfMessage (msg_tx m) m e = Inr True) ms = filter (\<lambda>m. m = m0) ms"
    by (simp cong: filter_cong)
  moreover have "length (filter (\<lambda>m. m = m0) ms) = 1"
  proof -
    have "distinct ms" using assms(2) by (simp add: distinct_map)
    then show ?thesis using assms(1) by (induction ms) (auto simp: filter_empty_conv)
  qed
  ultimately show ?thesis by simp
qed

lemma eventOfMessage_hash: "tx_hash a = tx_hash b \<Longrightarrow> eventOfMessage a m = eventOfMessage b m"
  by (auto simp: eventOfMessage_def fun_eq_iff split: option.splits)

lemma scheduled_tx_events:
  assumes "concat (map (\<lambda>tx. filter (\<lambda>m. tx_hash (msg_tx m) = tx_hash tx) ms) txs) = ms"
  shows "concat (map (\<lambda>tx. concat (map (\<lambda>m. eventsOf tx m evs)
       (filter (\<lambda>m. tx_hash (msg_tx m) = tx_hash tx) ms))) txs) =
    concat (map (\<lambda>m. filter (\<lambda>e. eventOfMessage (msg_tx m) m e = Inr True) evs) ms)"
proof -
  have "concat (map (\<lambda>tx. concat (map (\<lambda>m. eventsOf tx m evs)
       (filter (\<lambda>m. tx_hash (msg_tx m) = tx_hash tx) ms))) txs) =
      concat (map (\<lambda>m. eventsOf (msg_tx m) m evs)
        (concat (map (\<lambda>tx. filter (\<lambda>m. tx_hash (msg_tx m) = tx_hash tx) ms) txs)))"
  proof (induction txs)
    case (Cons tx txs)
    have "eventsOf tx m evs = eventsOf (msg_tx m) m evs" if "tx_hash (msg_tx m) = tx_hash tx" for m
      unfolding eventsOf_def using eventOfMessage_hash [OF that] by simp
    then have e: "map (\<lambda>m. eventsOf tx m evs) (filter (\<lambda>m. tx_hash (msg_tx m) = tx_hash tx) ms) =
        map (\<lambda>m. eventsOf (msg_tx m) m evs) (filter (\<lambda>m. tx_hash (msg_tx m) = tx_hash tx) ms)"
      by simp
    show ?case by (simp only: list.map concat.simps map_append concat_append e Cons.IH)
  qed simp
  then show ?thesis by (simp only: assms eventsOf_def)
qed

lemma eagerTxs_indices:
  assumes "eagerTxs J info res = Inr txs"
  shows "distinct (map (\<lambda>t. tx_idx (fst t)) txs)"
proof -
  have "tx_idx (fst (txs ! k)) = k" if "k < length txs" for k
  proof -
    have l: "length txs = length (results res)" using assms by (auto simp: eagerTxs_def wrapTx_def dest: rmap_length)
    with that wrapTx_nth [of J "eagerBlock J info res" "results res" txs k] assms
    have "wrapOneTx J (eagerBlock J info res) (k, results res ! k) = Inr (txs ! k)" by (simp add: eagerTxs_def)
    then show ?thesis by (auto simp: wrapOneTx_def Let_def rbind_Inr_iff dest!: sym [of _ "txs ! k"])
  qed
  then show ?thesis by (simp add: distinct_conv_nth)
qed

lemma eagerMessages_positions:
  assumes "eagerTxs J info res = Inr txs" and "eagerMessages J api info res = Inr ms"
  shows "distinct (map msgPosition ms)"
proof -
  obtain mss where r: "rmap (txMessages api (eagerBlock J info res)) txs = Inr mss" "ms = concat mss"
    using assms by (auto simp: eagerMessages_def wrapMsg_result rbind_Inr_iff)
  from r(1) have "\<exists>ds. list_all2 (\<lambda>t d. peek (snd t) = Inr (Some d)) txs ds"
  proof (induction txs arbitrary: mss)
    case (Cons t txs)
    then obtain d ds where "peek (snd t) = Inr (Some d)" "list_all2 (\<lambda>t d. peek (snd t) = Inr (Some d)) txs ds"
      by (auto simp: rbind_Inr_iff txMessages_Inr)
    then show ?case by (intro exI [of _ "d # ds"]) simp
  qed (rule exI [of _ "[]"], simp)
  then obtain ds where ds: "list_all2 (\<lambda>t d. peek (snd t) = Inr (Some d)) txs ds" ..
  have "ms = concat (map2 (\<lambda>t d. messagesOf api (eagerBlock J info res) (fst t) d) txs ds)"
    using wrapMsg_decoded [OF ds, of api "eagerBlock J info res"] assms by (simp add: eagerMessages_def)
  then show ?thesis
    using distinct_positions [OF list_all2_lengthD [OF ds] eagerTxs_indices [OF assms(1)]] by simp
qed

lemma events_distributed:
  assumes "eagerTxs J info res = Inr txs" and "eagerMessages J api info res = Inr ms"
    and "eagerEvents J api info res n = Inr evs" and "distinct (map (\<lambda>t. tx_hash (fst t)) txs)"
  shows "mset (concat (map (\<lambda>tx. concat (map (\<lambda>m. eventsOf tx m evs)
       (filter (\<lambda>m. tx_hash (msg_tx m) = tx_hash tx) ms))) (map fst txs))) = mset (filter (\<lambda>e. event_msg e \<noteq> None) evs)"
proof -
  let ?B = "eagerBlock J info res"
  have w: "fst (wrapMsg api ?B txs) = Inr ms" and ev: "evs = fst (wrapEvent J api ?B txs n)"
    using assms(1-3) by (simp_all add: eagerMessages_def eagerEvents_def)
  have inj: "msg_tx m = msg_tx m0" if m: "m \<in> set ms" "m0 \<in> set ms" "tx_hash (msg_tx m) = tx_hash (msg_tx m0)" for m m0
  proof -
    obtain t t0 where "t \<in> set txs" "t0 \<in> set txs" "msg_tx m = fst t" "msg_tx m0 = fst t0"
      using eagerMessages_txs [OF assms(1,2)] m(1,2) by blast
    moreover have "inj_on (\<lambda>t. tx_hash (fst t)) (set txs)" using assms(4) by (simp add: distinct_map)
    ultimately show ?thesis using m(3) by (metis inj_onD)
  qed
  have "length (filter (\<lambda>m. eventOfMessage (msg_tx m) m e = Inr True) ms) = (if event_msg e \<noteq> None then 1 else 0)"
    if "e \<in> set evs" for e
  proof (cases "event_msg e")
    case None
    then show ?thesis by (simp add: eventOfMessage_def filter_empty_conv split: option.splits)
  next
    case (Some m0)
    then have "m0 \<in> set ms" "event_tx e = Some (msg_tx m0)"
      using wrapEvent_events [OF w, of J n] that ev by auto
    then show ?thesis
      using matching_message_unique [OF _ eagerMessages_positions [OF assms(1,2)] _ Some] inj Some by simp
  qed
  from mset_distribute [OF this] show ?thesis
    using scheduled_tx_events [OF messages_regrouped [OF assms(1,2,4)]] by simp
qed

lemma mset_handed:
  "mset xs = mset ys \<Longrightarrow> mset (handed D (map f xs)) = mset (handed D (map f ys))"
proof -
  have "mset (handed D (map f xs)) = (\<Sum>x\<in>#mset xs. mset (handed D [f x]))" for xs
    by (induction xs) (simp_all add: handed_def)
  then show "mset xs = mset ys \<Longrightarrow> ?thesis" by simp
qed

text \<open>
  C6: when the transactions of a fetched block have different hashes, the events that \<^verbatim>\<open>indexBlockData\<close> hands to the
  data sources are first those of the begin of the block in order, then, each once to every data source, the
  transaction events whose message could be located, and last those of the end of the block in order; a
  transaction event without a message is never handed over, and events go to event handlers only.
\<close>

theorem events_indexed_once:
  assumes "eagerTxs J info res = Inr txs" and "eagerMessages J api info res = Inr ms"
    and "eagerEvents J api info res (length (eagerBegin J info res 0)) = Inr evs"
    and "distinct (map (\<lambda>t. tx_hash (fst t)) txs)"
  shows "\<exists>c' log mid. \<exists>off \<in> {length (eagerBegin J info res 0), length (eagerBegin J info res 0) + length evs}.
    indexBlockData J api recordItem D (newLazyBlockContent info res, []) = Inr (c', log) \<and>
    filter ofEvent log =
      concat (map (\<lambda>e. map (\<lambda>d. (Event, IEvent e, d)) D) (eagerBegin J info res 0)) @ mid @
      concat (map (\<lambda>e. map (\<lambda>d. (Event, IEvent e, d)) D) (eagerEnd J info res off)) \<and>
    mset mid = mset (concat (map (\<lambda>e. map (\<lambda>d. (Event, IEvent e, d)) D) (filter (\<lambda>e. event_msg e \<noteq> None) evs)))"
proof -
  have h: "handed D (map eventItem es) = concat (map (\<lambda>e. map (\<lambda>d. (Event, IEvent e, d)) D) es)" for es
    by (induction es) (simp_all add: handed_def eventItem_def)
  let ?offs = "{length (eagerBegin J info res 0), length (eagerBegin J info res 0) + length evs}"
  let ?mid = "handed D (map eventItem (concat (map (\<lambda>tx. concat (map (\<lambda>m. eventsOf tx m evs)
      (filter (\<lambda>m. tx_hash (msg_tx m) = tx_hash tx) ms))) (map fst txs))))"
  obtain off c' where "off \<in> ?offs" and i: "indexBlockData J api recordItem D (newLazyBlockContent info res, []) =
      Inr (c', handed D (schedule (eagerBlock J info res) (eagerBegin J info res 0) (map fst txs) ms evs
        (eagerEnd J info res off)))" (is "_ = Inr (c', ?log)")
    using indexBlockData_recorded [OF assms(1-3), of D] by blast
  moreover have "filter ofEvent ?log = handed D (map eventItem (eagerBegin J info res 0)) @ ?mid @
      handed D (map eventItem (eagerEnd J info res off))" by (rule handed_events_schedule)
  moreover have "mset ?mid = mset (handed D (map eventItem (filter (\<lambda>e. event_msg e \<noteq> None) evs)))"
    by (rule mset_handed [OF events_distributed [OF assms]])
  ultimately show ?thesis unfolding h [symmetric] by blast
qed

text \<open>The sample block on which the properties are instantiated.\<close>

lemma sample_eagerTxs:
  "\<exists>txs. eagerTxs sampleLib sampleResponse sampleResults = Inr txs \<and>
     distinct (map (\<lambda>t. tx_hash (fst t)) txs) \<and>
     (\<forall>t \<in> set txs. \<exists>d. snd t = Getter (Inr d))"
  by (simp add: eagerTxs_def wrapTx_def wrapOneTx_def sampleLib_def sampleResults_def
      sampleResponse_def eagerBlock_def wrapBlock_def sample_defs Let_def jsIndex_def
      toUpperCase_def upperChar_def hexEncode_def hexDigit_def)

lemma sample_eager:
  obtains txs ms evs where "eagerTxs sampleLib sampleResponse sampleResults = Inr txs"
    and "distinct (map (\<lambda>t. tx_hash (fst t)) txs)"
    and "eagerMessages sampleLib (sampleClient swapText) sampleResponse sampleResults = Inr ms"
    and "eagerEvents sampleLib (sampleClient swapText) sampleResponse sampleResults
      (length (eagerBegin sampleLib sampleResponse sampleResults 0)) = Inr evs"
proof -
  obtain txs where t: "eagerTxs sampleLib sampleResponse sampleResults = Inr txs"
      "distinct (map (\<lambda>t. tx_hash (fst t)) txs)" using sample_eagerTxs by blast
  moreover obtain ms where "eagerMessages sampleLib (sampleClient swapText) sampleResponse sampleResults = Inr ms"
    using sampleContent_messages getMessages_agree reachable_agree [OF sampleContent_reachable] by blast
  ultimately show ?thesis by (intro that) (simp_all add: eagerEvents_def)
qed

text \<open>A data source that counts what it is handed.\<close>

definition countItems :: "(unit, nat) index_data" where
  "countItems k i d w = Inr (Suc w)"

theorem indexBlockData_follows_schedule_witness:
  "\<exists>(txs :: tx_object list) ms evs off c'. \<forall>w.
     indexBlockData sampleLib (sampleClient swapText) countItems [()] (newLazyBlockContent sampleResponse sampleResults, w) =
       rbind (rfold (indexItem countItems [()]) (schedule (eagerBlock sampleLib sampleResponse sampleResults)
         (eagerBegin sampleLib sampleResponse sampleResults 0) (map fst txs) ms evs
         (eagerEnd sampleLib sampleResponse sampleResults off)) w) (\<lambda>w'. Inr (c', w'))"
proof (rule sample_eager)
  fix txs ms evs
  assume "eagerTxs sampleLib sampleResponse sampleResults = Inr (txs :: tx_object list)"
    and "eagerMessages sampleLib (sampleClient swapText) sampleResponse sampleResults = Inr ms"
    and "eagerEvents sampleLib (sampleClient swapText) sampleResponse sampleResults
      (length (eagerBegin sampleLib sampleResponse sampleResults 0)) = Inr evs"
  from indexBlockData_follows_schedule [OF this, of countItems "[()]"] show ?thesis by blast
qed

theorem messages_indexed_once_witness:
  "\<exists>c' log ms. eagerMessages sampleLib (sampleClient swapText) sampleResponse sampleResults = Inr ms \<and>
     indexBlockData sampleLib (sampleClient swapText) recordItem [False, True] (newLazyBlockContent sampleResponse sampleResults, []) =
       Inr (c', log) \<and>
     filter ofMessage log = concat (map (\<lambda>m. [(Message, IMessage m, False), (Message, IMessage m, True)]) ms)"
proof (rule sample_eager)
  fix txs ms evs
  assume "eagerTxs sampleLib sampleResponse sampleResults = Inr (txs :: tx_object list)"
    and d: "distinct (map (\<lambda>t. tx_hash (fst t)) txs)"
    and m: "eagerMessages sampleLib (sampleClient swapText) sampleResponse sampleResults = Inr ms"
  from messages_indexed_once [OF this(1) m d, of "[False, True]"] m show ?thesis by auto
qed

theorem events_indexed_once_witness:
  "\<exists>c' log. indexBlockData sampleLib (sampleClient swapText) recordItem [()]
       (newLazyBlockContent sampleResponse sampleResults, []) = Inr (c', log) \<and>
     set (filter ofEvent log) \<subseteq> {(Event, IEvent e, ()) | e. True}"
proof (rule sample_eager)
  fix txs ms evs
  assume a: "eagerTxs sampleLib sampleResponse sampleResults = Inr (txs :: tx_object list)"
    and d: "distinct (map (\<lambda>t. tx_hash (fst t)) txs)"
    and m: "eagerMessages sampleLib (sampleClient swapText) sampleResponse sampleResults = Inr ms"
    and e: "eagerEvents sampleLib (sampleClient swapText) sampleResponse sampleResults
      (length (eagerBegin sampleLib sampleResponse sampleResults 0)) = Inr evs"
  obtain c' log mid off where
    i: "indexBlockData sampleLib (sampleClient swapText) recordItem [()] (newLazyBlockContent sampleResponse sampleResults, []) = Inr (c', log)"
    and f: "filter ofEvent log =
      concat (map (\<lambda>e. map (\<lambda>d. (Event, IEvent e, d)) [()]) (eagerBegin sampleLib sampleResponse sampleResults 0)) @ mid @
      concat (map (\<lambda>e. map (\<lambda>d. (Event, IEvent e, d)) [()]) (eagerEnd sampleLib sampleResponse sampleResults off))"
    and g: "mset mid = mset (concat (map (\<lambda>e. map (\<lambda>d. (Event, IEvent e, d)) [()]) (filter (\<lambda>e. event_msg e \<noteq> None) evs)))"
    using events_indexed_once [OF a m e d, of "[()]"] by blast
  have "set (filter ofEvent log) \<subseteq> {(Event, IEvent e, ()) | e. True}"
    unfolding f set_append set_mset_mset [of mid, symmetric] g by auto
  with i show ?thesis by blast
qed

section \<open>The base filter of custom handlers\<close>

text \<open>
  The base filter of a custom message or event handler, when it returns, says whether one of the
  processor's base filters matches (or there is none); blocks and transactions never throw, and an array of
  filters on them is not looked into.
\<close>

theorem baseCustomHandlerFilter_correct:
  assumes "value_library L"
  shows "(baseCustomHandlerFilter L (MessageInput m mf) = Inr v \<longrightarrow> v = selectedBy messageMatches (asFilters mf) m) \<and>
    (baseCustomHandlerFilter L (EventInput e ef) = Inr v \<longrightarrow> v = selectedBy eventMatches (asFilters ef) e) \<and>
    baseCustomHandlerFilter L (BlockInput b (Many bfs)) = Inr True \<and>
    baseCustomHandlerFilter L (TransactionInput t tf) =
      Inr (code (tx_data t) = 0 \<or> (\<exists>f. tf = One f \<and> includeFailedTx f))"
proof (intro conjI impI)
  assume "baseCustomHandlerFilter L (MessageInput m mf) = Inr v"
  then obtain ys where y: "fst (filterMessages L (Some [m]) mf) = Inr ys" "v \<longleftrightarrow> ys \<noteq> []"
    by (auto simp: nonEmpty_def rbind_Inr_iff)
  from value_library.messages_selected [OF assms y(1)] y(2) show "v = selectedBy messageMatches (asFilters mf) m"
    by (auto split: if_splits)
next
  assume "baseCustomHandlerFilter L (EventInput e ef) = Inr v"
  then obtain ys where y: "fst (filterEvents L [e] ef) = Inr ys" "v \<longleftrightarrow> ys \<noteq> []"
    by (auto simp: nonEmpty_def rbind_Inr_iff)
  from value_library.events_selected [OF assms y(1)] y(2) show "v = selectedBy eventMatches (asFilters ef) e"
    by (auto split: if_splits)
qed (auto simp: filterTx_def filterBlock_def uncheckedFilter_def arrayAsTxFilter_def arrayAsBlockFilter_def
  split: one_or_many.splits)

theorem baseCustomHandlerFilter_correct_witness:
  "baseCustomHandlerFilter std_value_lib (EventInput wasmEvent Absent) = Inr True \<and>
   selectedBy eventMatches (asFilters Absent) wasmEvent"
  using baseCustomHandlerFilter_correct [OF std_values.value_library_axioms, of _ _ True wasmEvent Absent]
  by (simp add: nonEmpty_def filterEvents_def asFilters_def)

text \<open>The base filter of a custom handler that corresponds to the filter of a runtime handler.\<close>

definition oneFilter :: "'f option \<Rightarrow> 'f one_or_many" where
  "oneFilter f = (case f of None \<Rightarrow> Absent | Some g \<Rightarrow> One g)"

fun asCustomInput :: "handler_input \<Rightarrow> custom_input" where
  "asCustomInput (BlockHandlerInput b f) = BlockInput b (oneFilter f)"
| "asCustomInput (TransactionHandlerInput t f) = TransactionInput t (oneFilter f)"
| "asCustomInput (MessageHandlerInput m f) = MessageInput m (oneFilter f)"
| "asCustomInput (EventHandlerInput e f) = EventInput e (oneFilter f)"

lemma uncheckedFilter_one [simp]: "uncheckedFilter x (oneFilter f) = f"
  by (simp add: uncheckedFilter_def oneFilter_def split: option.splits)

lemma nonEmpty_filterArray:
  "nonEmpty (fst (filterArray (\<lambda>x. findFilter p x [g]) [x])) = fst (p x g)"
  by (auto simp: nonEmpty_def split: prod.splits sum.splits bool.splits)

lemma fst_testMessage: "fst (testMessage L m g) = fst (filterMessageData L m (Some g))"
  by (simp add: testMessage_def split: prod.split)

lemma runtime_filter_as_custom: "baseCustomHandlerFilter L (asCustomInput i) = FilterTypeMap L i"
proof (cases i)
  case (MessageHandlerInput m f)
  show ?thesis
  proof (cases f)
    case None
    then show ?thesis
      by (simp add: MessageHandlerInput oneFilter_def filterMessages_def asFilters_def filterMessageData_def nonEmpty_def)
  next
    case (Some g)
    then show ?thesis
      by (simp add: MessageHandlerInput oneFilter_def filterMessages_def asFilters_def nonEmpty_filterArray fst_testMessage
          del: filterArray.simps findFilter.simps)
  qed
next
  case (EventHandlerInput e f)
  show ?thesis
  proof (cases f)
    case None
    then show ?thesis by (simp add: EventHandlerInput oneFilter_def filterEvents_def asFilters_def filterEvent_def nonEmpty_def)
  next
    case (Some g)
    then show ?thesis
      by (simp add: EventHandlerInput oneFilter_def filterEvents_def asFilters_def nonEmpty_filterArray
          del: filterArray.simps findFilter.simps)
  qed
qed simp_all

text \<open>
  C12: runtime and custom handlers filter alike: for every kind of handler, the filter that \<^verbatim>\<open>FilterTypeMap\<close> selects
  decides, errors included, exactly as the base filter of a custom handler with that one filter does, although the
  two are evaluated by different code paths.
\<close>

theorem custom_filter_agrees: "baseCustomHandlerFilter L (asCustomInput i) = FilterTypeMap L i"
  by (rule runtime_filter_as_custom)

end
