(* ===== verification/Ds_Processor.thy ===== *)
theory Ds_Processor
  imports Indexer
begin

text \<open>
  Data sources and their processors: the classification of data sources and handlers
  (\<^verbatim>\<open>common-cosmos/src/project/utils.ts\<close>, \<^verbatim>\<open>node/src/utils/project.ts\<close>), the adaptation of old handler
  processors (\<^verbatim>\<open>indexer/ds-processor.service.ts\<close>), the creation of dynamic data sources
  (\<^verbatim>\<open>indexer/dynamic-ds.service.ts\<close>) and the sandboxes of the mapping files
  (\<^verbatim>\<open>indexer/sandbox.service.ts\<close>).
\<close>

section \<open>Classification\<close>

definition isCustomCosmosDs :: "CosmosDatasource \<Rightarrow> bool" where
  "isCustomCosmosDs ds = (ds_kind ds \<noteq> RuntimeKind \<and> processor ds \<noteq> None)"

definition isRuntimeCosmosDs :: "CosmosDatasource \<Rightarrow> bool" where
  "isRuntimeCosmosDs ds = (ds_kind ds = RuntimeKind)"

definition isBaseHandler :: "CosmosHandler \<Rightarrow> bool" where
  "isBaseHandler h = (kind h \<in> set (map kindValue handlerKinds))"

definition isCustomHandler :: "CosmosHandler \<Rightarrow> bool" where
  "isCustomHandler h = (\<not> isBaseHandler h)"

text \<open>The version comparison \<^verbatim>\<open>gte\<close> of the package \<^verbatim>\<open>semver\<close> is a parameter.\<close>

definition isCosmosTemplates :: "(string \<Rightarrow> string \<Rightarrow> bool) \<Rightarrow> CosmosDatasource list \<Rightarrow> string \<Rightarrow> bool result" where
  "isCosmosTemplates gte templatesData specVersion =
     (case templatesData of
        [] \<Rightarrow> throwTypeError ''Cannot read properties of undefined (reading kind)''
      | t # _ \<Rightarrow> Inr ((isRuntimeCosmosDs t \<or> isCustomCosmosDs t) \<and> gte specVersion ''0.2.1''))"

text \<open>The validator of file references: one valid entry suffices; null passes the test for an object.\<close>

definition isValidFileReference :: "js \<Rightarrow> bool result" where
  "isValidFileReference v =
     (if \<not> isTypeofObject v then Inr False
      else if v = JNull then throwTypeError ''Cannot use 'in' operator to search for 'file' in null''
      else if \<not> jsIn ''file'' v then Inr False
      else rbind (jsGet v ''file'') (\<lambda>f. Inr (case f of JStr s \<Rightarrow> True | _ \<Rightarrow> False)))"

fun findReference :: "js list \<Rightarrow> bool result" where
  "findReference [] = Inr False"
| "findReference (v # vs) =
     rbind (isValidFileReference v) (\<lambda>b. if b then Inr (truthy v) else findReference vs)"

fun validateFileReferences :: "js \<Rightarrow> bool result" where
  "validateFileReferences (JObj kvs) = findReference (map snd kvs)"
| "validateFileReferences (JArr vs) = findReference vs"
| "validateFileReferences v = Inr False"

section \<open>Handler processors\<close>

record processor_base =
  baseHandlerKind :: CosmosHandlerKind
  baseFilter :: "handler_filter one_or_many"

record handler_params =
  params_input :: item
  params_ds :: CosmosDatasource
  params_filter :: "js option"
  params_assets :: "(string \<times> string) list option"

text \<open>
  Processors without a version take positional arguments and transform an input to one value;
  processors of version 1.0.0 take an object of parameters and transform to a list of values.
  The client handed to a transformer is the same in both cases and is left out.
\<close>

datatype 'o handler_processor =
    Processor_0_0_0 processor_base
      "js option \<Rightarrow> item \<Rightarrow> CosmosDatasource \<Rightarrow> bool result"
      "item \<Rightarrow> CosmosDatasource \<Rightarrow> (string \<times> string) list option \<Rightarrow> 'o promise"
  | Processor_1_0_0 processor_base
      "handler_params \<Rightarrow> bool result"
      "handler_params \<Rightarrow> 'o list promise"
  | Processor_other string processor_base

fun specVersion :: "'o handler_processor \<Rightarrow> string option" where
  "specVersion (Processor_0_0_0 b f t) = None"
| "specVersion (Processor_1_0_0 b f t) = Some ''1.0.0''"
| "specVersion (Processor_other v b) = Some v"

definition isSecondLayerHandlerProcessor_0_0_0 :: "'o handler_processor \<Rightarrow> bool" where
  "isSecondLayerHandlerProcessor_0_0_0 p = (specVersion p = None)"

definition isSecondLayerHandlerProcessor_1_0_0 :: "'o handler_processor \<Rightarrow> bool" where
  "isSecondLayerHandlerProcessor_1_0_0 p = (specVersion p = Some ''1.0.0'')"

fun upgradeProcessor :: "'o handler_processor \<Rightarrow> 'o handler_processor" where
  "upgradeProcessor (Processor_0_0_0 b f t) =
     Processor_1_0_0 b
       (\<lambda>ps. f (params_filter ps) (params_input ps) (params_ds ps))
       (\<lambda>ps. promiseThen (t (params_input ps) (params_ds ps) (params_assets ps)) (\<lambda>r. Inr [r]))"
| "upgradeProcessor p = p"

definition asSecondLayerHandlerProcessor_1_0_0 :: "'o handler_processor \<Rightarrow> 'o handler_processor result" where
  "asSecondLayerHandlerProcessor_1_0_0 p =
     (if isSecondLayerHandlerProcessor_1_0_0 p then Inr p
      else if \<not> isSecondLayerHandlerProcessor_0_0_0 p then throwError ''Unsupported ds processor version''
      else Inr (upgradeProcessor p))"

text \<open>The tests by which the indexer picks the processors of a kind.\<close>

fun baseOf :: "'o handler_processor \<Rightarrow> processor_base" where
  "baseOf (Processor_0_0_0 b f t) = b"
| "baseOf (Processor_1_0_0 b f t) = b"
| "baseOf (Processor_other v b) = b"

definition isHandlerProcessorOf :: "CosmosHandlerKind \<Rightarrow> 'o handler_processor \<Rightarrow> bool" where
  "isHandlerProcessorOf k hp = (baseHandlerKind (baseOf hp) = k)"

definition isBlockHandlerProcessor :: "'o handler_processor \<Rightarrow> bool" where
  "isBlockHandlerProcessor hp = isHandlerProcessorOf Block hp"

definition isTransactionHandlerProcessor :: "'o handler_processor \<Rightarrow> bool" where
  "isTransactionHandlerProcessor hp = isHandlerProcessorOf Transaction hp"

definition isMessageHandlerProcessor :: "'o handler_processor \<Rightarrow> bool" where
  "isMessageHandlerProcessor hp = isHandlerProcessorOf Message hp"

definition isEventHandlerProcessor :: "'o handler_processor \<Rightarrow> bool" where
  "isEventHandlerProcessor hp = isHandlerProcessorOf Event hp"

definition ProcessorTypeMap :: "CosmosHandlerKind \<Rightarrow> 'o handler_processor \<Rightarrow> bool" where
  "ProcessorTypeMap k =
     (case k of
        Block \<Rightarrow> isBlockHandlerProcessor
      | Event \<Rightarrow> isEventHandlerProcessor
      | Transaction \<Rightarrow> isTransactionHandlerProcessor
      | Message \<Rightarrow> isMessageHandlerProcessor)"

section \<open>Dynamic data sources\<close>

record DatasourceParams =
  templateName :: string
  params_startBlock :: int
  params_args :: "(string \<times> js) list option"

text \<open>\<^verbatim>\<open>{...a, ...b}\<close>: the properties of \<open>b\<close> win.\<close>

definition spread :: "(string \<times> js) list \<Rightarrow> (string \<times> js) list \<Rightarrow> (string \<times> js) list" where
  "spread a b = foldl (\<lambda>kvs (k, v). setProp k v kvs) a b"

definition withArgs :: "Processor \<Rightarrow> (string \<times> js) list option \<Rightarrow> Processor" where
  "withArgs p args = p\<lparr>options := spread (options p) (case args of None \<Rightarrow> [] | Some kvs \<Rightarrow> kvs)\<rparr>"

text \<open>\<^verbatim>\<open>validateCustomDs\<close> of the base service is a parameter.  A missing template is destructured.\<close>

definition getDatasource ::
    "(CosmosDatasource list \<Rightarrow> unit result) \<Rightarrow> DatasourceTemplate list \<Rightarrow> DatasourceParams \<Rightarrow> CosmosDatasource result" where
  "getDatasource validateCustomDs templates params =
     (case List.find (\<lambda>t. template_name t = templateName params) templates of
        None \<Rightarrow> throwTypeError ''Cannot destructure property 'name' as it is undefined.''
      | Some t \<Rightarrow>
          (let dsObj = (template t)\<lparr>startBlock := Some (params_startBlock params)\<rparr> in
           if isCustomCosmosDs dsObj then
             (let ds = dsObj\<lparr>processor := map_option (\<lambda>p. withArgs p (params_args params)) (processor dsObj)\<rparr> in
              (case validateCustomDs [ds] of
                 Inl e \<Rightarrow> throwError (''Unable to create dynamic datasource.'' @ CHR 0x0A # '' '' @ err_message e)
               | Inr _ \<Rightarrow> Inr ds))
           else Inr dsObj))"

section \<open>Sandboxes\<close>

text \<open>
  The cache of sandboxes by mapping file.  The sandbox class of node-core is a parameter: its
  constructor and \<^verbatim>\<open>freeze\<close>, which sets a global of the sandbox.
\<close>

record ('sb, 'v) sandbox_lib =
  newSandbox :: "string \<Rightarrow> 'sb"
  freeze :: "'v \<Rightarrow> string \<Rightarrow> 'sb \<Rightarrow> 'sb"

definition getDataSourceEntry :: "CosmosDatasource \<Rightarrow> string" where
  "getDataSourceEntry ds = mapping_file (mapping ds)"

definition getDsProcessor ::
    "('sb, 'v) sandbox_lib \<Rightarrow> 'v \<Rightarrow> 'v option \<Rightarrow> 'v \<Rightarrow> CosmosDatasource \<Rightarrow> 'v \<Rightarrow> (string \<rightharpoonup> 'sb) \<Rightarrow>
     'sb \<times> (string \<rightharpoonup> 'sb)" where
  "getDsProcessor S registry unsafeApi chain ds api cache =
     (let entry = getDataSourceEntry ds;
          sb0 = (case cache entry of Some sb \<Rightarrow> sb | None \<Rightarrow> newSandbox S entry);
          sb1 = freeze S registry ''registry'' (freeze S api ''api'' sb0);
          sb2 = (case unsafeApi of None \<Rightarrow> sb1 | Some u \<Rightarrow> freeze S u ''unsafeApi'' sb1);
          sb3 = freeze S chain ''chainId'' sb2
      in (sb3, cache(entry \<mapsto> sb3)))"

section \<open>Properties\<close>

lemma kind_disjoint: "\<not> (isCustomCosmosDs ds \<and> isRuntimeCosmosDs ds)"
  by (auto simp: isCustomCosmosDs_def isRuntimeCosmosDs_def)

lemma isBaseHandler_iff: "isBaseHandler h \<longleftrightarrow> (\<exists>k. kind h = kindValue k)"
  by (auto simp: isBaseHandler_def)

lemma ProcessorTypeMap_iff: "ProcessorTypeMap k hp \<longleftrightarrow> baseHandlerKind (baseOf hp) = k"
  by (cases k) (auto simp: ProcessorTypeMap_def isBlockHandlerProcessor_def isEventHandlerProcessor_def
      isTransactionHandlerProcessor_def isMessageHandlerProcessor_def isHandlerProcessorOf_def)

lemma map_of_spread: "map_of (spread a b) k = (case map_of (rev b) k of Some v \<Rightarrow> Some v | None \<Rightarrow> map_of a k)"
  unfolding spread_def
  by (induction b arbitrary: a) (auto simp: map_of_setProp map_add_def split: option.splits)

text \<open>
  Adapting a handler processor yields one of version 1.0.0 with the same kind and base filter, or
  the error for unsupported versions; an adapted old processor filters as before and transforms
  an input to the list of the one value the old transformer gave, and adapting is idempotent.
\<close>

theorem asSecondLayer_correct:
  "(\<forall>q. asSecondLayerHandlerProcessor_1_0_0 p = Inr q \<longrightarrow>
      specVersion q = Some ''1.0.0'' \<and> baseOf q = baseOf p \<and> asSecondLayerHandlerProcessor_1_0_0 q = Inr q) \<and>
   ((\<exists>e. asSecondLayerHandlerProcessor_1_0_0 p = Inl e) \<longleftrightarrow> specVersion p \<notin> {None, Some ''1.0.0''}) \<and>
   (\<forall>b f t. p = Processor_0_0_0 b f t \<longrightarrow>
      (\<exists>f' t'. asSecondLayerHandlerProcessor_1_0_0 p = Inr (Processor_1_0_0 b f' t') \<and>
         (\<forall>ps. f' ps = f (params_filter ps) (params_input ps) (params_ds ps) \<and>
            (\<forall>rs. Inr rs \<in> set (t' ps) \<longleftrightarrow>
               (\<exists>r. rs = [r] \<and> Inr r \<in> set (t (params_input ps) (params_ds ps) (params_assets ps)))))))"
proof (intro conjI)
  show "\<forall>b f t. p = Processor_0_0_0 b f t \<longrightarrow>
      (\<exists>f' t'. asSecondLayerHandlerProcessor_1_0_0 p = Inr (Processor_1_0_0 b f' t') \<and>
         (\<forall>ps. f' ps = f (params_filter ps) (params_input ps) (params_ds ps) \<and>
            (\<forall>rs. Inr rs \<in> set (t' ps) \<longleftrightarrow>
               (\<exists>r. rs = [r] \<and> Inr r \<in> set (t (params_input ps) (params_ds ps) (params_assets ps))))))"
    by (auto simp: asSecondLayerHandlerProcessor_1_0_0_def isSecondLayerHandlerProcessor_1_0_0_def
        isSecondLayerHandlerProcessor_0_0_0_def promiseThen_Inr)
qed (cases p; auto simp: asSecondLayerHandlerProcessor_1_0_0_def isSecondLayerHandlerProcessor_1_0_0_def
    isSecondLayerHandlerProcessor_0_0_0_def)+

definition sampleBase :: processor_base where
  "sampleBase = \<lparr>baseHandlerKind = Message, baseFilter = One (MessageFilter (execFilter None None))\<rparr>"

definition oldProcessor :: "string handler_processor" where
  "oldProcessor =
     Processor_0_0_0 sampleBase (\<lambda>f i ds. Inr (f = None)) (\<lambda>i ds as. [Inr (ds_kind ds)])"

theorem asSecondLayer_correct_witness:
  "\<exists>f' t'. asSecondLayerHandlerProcessor_1_0_0 oldProcessor = Inr (Processor_1_0_0 sampleBase f' t') \<and>
     (\<forall>ps. f' ps = Inr (params_filter ps = None) \<and>
        (\<forall>rs. Inr rs \<in> set (t' ps) \<longleftrightarrow> rs = [ds_kind (params_ds ps)]))"
  using asSecondLayer_correct [of oldProcessor] by (simp add: oldProcessor_def)

text \<open>
  A dynamic data source is the first template of the given name started at the given block; for a
  custom template the arguments override the processor options of the same name and the result is
  one that validation accepts.
\<close>

theorem getDatasource_correct:
  assumes "getDatasource validateCustomDs templates params = Inr ds"
  shows "\<exists>t \<in> set templates. template_name t = templateName params \<and>
    startBlock ds = Some (params_startBlock params) \<and> ds_kind ds = ds_kind (template t) \<and>
    mapping ds = mapping (template t) \<and> assets ds = assets (template t) \<and>
    (if isCustomCosmosDs (template t)
     then \<exists>p q. processor (template t) = Some p \<and> processor ds = Some q \<and>
       processor_file q = processor_file p \<and> validateCustomDs [ds] = Inr () \<and>
       (\<forall>k. map_of (options q) k =
          (case map_of (rev (case params_args params of None \<Rightarrow> [] | Some kvs \<Rightarrow> kvs)) k of
             Some v \<Rightarrow> Some v | None \<Rightarrow> map_of (options p) k))
     else ds = (template t)\<lparr>startBlock := Some (params_startBlock params)\<rparr>)"
proof -
  obtain t where f: "List.find (\<lambda>t. template_name t = templateName params) templates = Some t"
    using assms by (cases "List.find (\<lambda>t. template_name t = templateName params) templates")
      (simp_all add: getDatasource_def)
  then have t: "t \<in> set templates" "template_name t = templateName params"
    by (auto simp: find_Some_iff)
  have c: "isCustomCosmosDs ((template t)\<lparr>startBlock := sb\<rparr>) \<longleftrightarrow> isCustomCosmosDs (template t)" for sb
    by (simp add: isCustomCosmosDs_def)
  show ?thesis
  proof (cases "isCustomCosmosDs (template t)")
    case True
    then obtain p where p: "processor (template t) = Some p" by (auto simp: isCustomCosmosDs_def)
    from assms have "ds = (template t)\<lparr>startBlock := Some (params_startBlock params),
        processor := Some (withArgs p (params_args params))\<rparr> \<and> validateCustomDs [ds] = Inr ()"
      by (auto simp: getDatasource_def f c True p Let_def split: sum.splits)
    with True t p show ?thesis
      by (intro bexI [of _ t]) (auto simp: withArgs_def map_of_spread)
  next
    case False
    with assms t show ?thesis by (intro bexI [of _ t]) (auto simp: getDatasource_def f c Let_def)
  qed
qed

definition sampleDs :: CosmosDatasource where
  "sampleDs =
     \<lparr>ds_kind = ''cosmos/EthermintEvm'', startBlock = Some 1,
      mapping = \<lparr>mapping_file = ''dist/index.js'', handlers = []\<rparr>,
      processor = Some \<lparr>processor_file = ''evm.js'', options = [(''abi'', JStr ''erc20'')]\<rparr>, assets = None\<rparr>"

definition sampleParams :: DatasourceParams where
  "sampleParams = \<lparr>templateName = ''evm'', params_startBlock = 9, params_args = Some [(''address'', JStr ''0x1'')]\<rparr>"

theorem getDatasource_correct_witness:
  "\<exists>ds. getDatasource (\<lambda>dss. Inr ()) [\<lparr>template_name = ''evm'', template = sampleDs\<rparr>] sampleParams = Inr ds \<and>
     startBlock ds = Some 9 \<and> (\<exists>q. processor ds = Some q \<and> map_of (options q) ''address'' = Some (JStr ''0x1'') \<and>
       map_of (options q) ''abi'' = Some (JStr ''erc20''))"
proof -
  have "\<exists>ds. getDatasource (\<lambda>dss. Inr ()) [\<lparr>template_name = ''evm'', template = sampleDs\<rparr>] sampleParams = Inr ds"
    by (simp add: getDatasource_def sampleParams_def sampleDs_def isCustomCosmosDs_def RuntimeKind_def Let_def)
  then obtain ds where
    ds: "getDatasource (\<lambda>dss. Inr ()) [\<lparr>template_name = ''evm'', template = sampleDs\<rparr>] sampleParams = Inr ds" ..
  from getDatasource_correct [OF ds] ds show ?thesis
    by (auto simp: sampleParams_def sampleDs_def isCustomCosmosDs_def RuntimeKind_def)
qed

text \<open>
  Asking for a template that does not exist fails with the TypeError of the destructuring; the
  error that names the template is never thrown.
\<close>

theorem getDatasource_missing_template:
  assumes "templateName params \<notin> template_name ` set templates"
  shows "\<exists>e. getDatasource validateCustomDs templates params = Inl e \<and> err_name e = ''TypeError''"
proof -
  have "List.find (\<lambda>t. template_name t = templateName params) templates = None"
    using assms by (auto simp: find_None_iff) (metis imageI)
  then show ?thesis by (simp add: getDatasource_def)
qed

theorem getDatasource_missing_template_witness:
  "\<exists>e. getDatasource (\<lambda>dss. Inr ()) [] sampleParams = Inl e \<and> err_name e = ''TypeError''"
  by (rule getDatasource_missing_template) simp

text \<open>One sandbox per mapping file: the cached one is reused, other entries are untouched.\<close>

lemma getDsProcessor_entry:
  "getDataSourceEntry ds' \<noteq> getDataSourceEntry ds \<Longrightarrow>
   snd (getDsProcessor S r u c ds api cache) (getDataSourceEntry ds') = cache (getDataSourceEntry ds')"
  by (simp add: getDsProcessor_def Let_def)

lemma getDsProcessor_cached:
  "snd (getDsProcessor S r u c ds api cache) (getDataSourceEntry ds) = Some (fst (getDsProcessor S r u c ds api cache))"
  by (simp add: getDsProcessor_def Let_def)

end
