(* ===== verification/Dictionary.thy ===== *)
theory Dictionary
  imports Ds_Processor
begin

text \<open>
  The dictionary queries of \<^verbatim>\<open>indexer/fetch.service.ts\<close>: which blocks a dictionary is asked for, given the
  handlers of the data sources.  \<^verbatim>\<open>setWith\<close>, \<^verbatim>\<open>sortBy\<close> and \<^verbatim>\<open>uniqBy\<close> of lodash and the text of
  \<^verbatim>\<open>JSON.stringify\<close> are parameters; the key by which entries are compared is kept as the pair of its
  two parts.  A filter that is not of its handler's kind has only the field \<^verbatim>\<open>type\<close> it declares.
\<close>

record DictionaryQueryCondition =
  field :: string
  cond_value :: js
  matcher :: string

record DictionaryQueryEntry =
  entity :: string
  conditions :: "DictionaryQueryCondition list"

record 'k lodash_lib =
  setWith :: "js \<Rightarrow> string \<Rightarrow> js \<Rightarrow> js"
  sortByField :: "DictionaryQueryCondition list \<Rightarrow> DictionaryQueryCondition list"
  stringify :: "DictionaryQueryCondition list \<Rightarrow> 'k"
  uniqBy :: "(DictionaryQueryEntry \<Rightarrow> string \<times> 'k) \<Rightarrow> DictionaryQueryEntry list \<Rightarrow> DictionaryQueryEntry list"

text \<open>The part of a data source processor the queries use.\<close>

record plugin_handler =
  plugin_base :: processor_base
  dictionaryQuery :: "(handler_filter option \<Rightarrow> CosmosDatasource \<Rightarrow> DictionaryQueryEntry option) option"

type_synonym ds_plugin = "string \<Rightarrow> plugin_handler option"

section \<open>Operations\<close>

definition typeValue :: "string option \<Rightarrow> js" where
  "typeValue t = (case t of None \<Rightarrow> JUndefined | Some s \<Rightarrow> JStr s)"

definition nestedValues :: "'k lodash_lib \<Rightarrow> (string \<times> js) list \<Rightarrow> js" where
  "nestedValues Q kvs = foldl (\<lambda>nested (key, v). setWith Q nested key v) (JObj []) kvs"

definition messageFilterToQueryEntry :: "'k lodash_lib \<Rightarrow> CosmosMessageFilter \<Rightarrow> DictionaryQueryEntry" where
  "messageFilterToQueryEntry Q f =
     \<lparr>entity = ''messages'',
      conditions =
        \<lparr>field = ''type'', cond_value = typeValue (filter_type f), matcher = ''equalTo''\<rparr> #
        (case filter_values f of
           None \<Rightarrow> []
         | Some kvs \<Rightarrow> [\<lparr>field = ''data'', cond_value = nestedValues Q kvs, matcher = ''contains''\<rparr>])\<rparr>"

definition eventFilterToQueryEntry :: "'k lodash_lib \<Rightarrow> CosmosEventFilter \<Rightarrow> DictionaryQueryEntry" where
  "eventFilterToQueryEntry Q f =
     \<lparr>entity = ''events'',
      conditions =
        \<lparr>field = ''type'', cond_value = typeValue (event_filter_type f), matcher = ''equalTo''\<rparr> #
        (case messageFilter f of
           None \<Rightarrow> []
         | Some mf \<Rightarrow>
             map (\<lambda>c. if field c = ''type'' then c\<lparr>field := ''msgType''\<rparr> else c)
               (conditions (messageFilterToQueryEntry Q mf)))\<rparr>"

definition getBaseHandlerKind ::
    "(CosmosDatasource \<Rightarrow> ds_plugin result) \<Rightarrow> CosmosDatasource \<Rightarrow> CosmosHandler \<Rightarrow> CosmosHandlerKind option result" where
  "getBaseHandlerKind getPlugin ds h =
     (if isRuntimeCosmosDs ds \<and> isBaseHandler h then
        Inr (List.find (\<lambda>k. kindValue k = kind h) handlerKinds)
      else if isCustomCosmosDs ds \<and> isCustomHandler h then
        rbind (getPlugin ds) (\<lambda>plugin.
          (case plugin (kind h) of
             None \<Rightarrow> throwError (''handler type '' @ kind h @ '' not found in processor for '' @ ds_kind ds)
           | Some p \<Rightarrow> Inr (Some (baseHandlerKind (plugin_base p)))))
      else Inr None)"

definition getBaseHandlerFilters ::
    "(CosmosDatasource \<Rightarrow> ds_plugin result) \<Rightarrow> CosmosDatasource \<Rightarrow> string \<Rightarrow> handler_filter option list result" where
  "getBaseHandlerFilters getPlugin ds handlerKind =
     (if isCustomCosmosDs ds then
        rbind (getPlugin ds) (\<lambda>plugin.
          (case plugin handlerKind of
             None \<Rightarrow> throwTypeError ''Cannot read properties of undefined (reading baseFilter)''
           | Some p \<Rightarrow>
               Inr (case baseFilter (plugin_base p) of
                      Absent \<Rightarrow> [None] | One f \<Rightarrow> [Some f] | Many fs \<Rightarrow> map Some fs)))
      else throwError ''Expected a custom datasource here'')"

text \<open>The fields of a filter as the code reads them, whatever its kind.\<close>

fun moduloOf :: "handler_filter \<Rightarrow> int option" where
  "moduloOf (BlockFilter f) = modulo f"
| "moduloOf _ = None"

fun asMessageFilter :: "handler_filter \<Rightarrow> CosmosMessageFilter" where
  "asMessageFilter (MessageFilter f) = f"
| "asMessageFilter (EventFilter f) =
     \<lparr>includeFailedTx = False, filter_type = event_filter_type f, contractCall = None, filter_values = None\<rparr>"
| "asMessageFilter (TxFilter f) =
     \<lparr>includeFailedTx = includeFailedTx f, filter_type = None, contractCall = None, filter_values = None\<rparr>"
| "asMessageFilter _ =
     \<lparr>includeFailedTx = False, filter_type = None, contractCall = None, filter_values = None\<rparr>"

fun asEventFilter :: "handler_filter \<Rightarrow> CosmosEventFilter" where
  "asEventFilter (EventFilter f) = f"
| "asEventFilter (MessageFilter f) =
     \<lparr>event_filter_type = filter_type f, messageFilter = None, filter_attributes = None\<rparr>"
| "asEventFilter _ = \<lparr>event_filter_type = None, messageFilter = None, filter_attributes = None\<rparr>"

text \<open>The loop over the filters of a message or event handler: \<open>None\<close> is the early \<^verbatim>\<open>return []\<close>.\<close>

fun pushEntries ::
    "(handler_filter \<Rightarrow> string option) \<Rightarrow> (handler_filter \<Rightarrow> DictionaryQueryEntry) \<Rightarrow> handler_filter list \<Rightarrow>
     DictionaryQueryEntry list option" where
  "pushEntries typ entry [] = Some []"
| "pushEntries typ entry (f # fs) =
     (if typ f \<noteq> None then map_option ((#) (entry f)) (pushEntries typ entry fs) else None)"

definition filterEntries ::
    "'k lodash_lib \<Rightarrow> CosmosHandlerKind option \<Rightarrow> handler_filter list \<Rightarrow> DictionaryQueryEntry list option" where
  "filterEntries Q k filterList =
     (if filterList = [] then None
      else case k of
             Some Block \<Rightarrow> (if list_ex (\<lambda>f. moduloOf f = None) filterList then None else Some [])
           | Some Message \<Rightarrow>
               pushEntries (\<lambda>f. filter_type (asMessageFilter f))
                 (\<lambda>f. messageFilterToQueryEntry Q (asMessageFilter f)) filterList
           | Some Event \<Rightarrow>
               pushEntries (\<lambda>f. event_filter_type (asEventFilter f))
                 (\<lambda>f. eventFilterToQueryEntry Q (asEventFilter f)) filterList
           | _ \<Rightarrow> Some [])"

definition definedFilters :: "handler_filter option list \<Rightarrow> handler_filter list" where
  "definedFilters fs = List.map_filter id fs"

text \<open>The body of the loop over handlers.\<close>

definition handlerEntries ::
    "'k lodash_lib \<Rightarrow> (CosmosDatasource \<Rightarrow> ds_plugin result) \<Rightarrow> CosmosDatasource \<Rightarrow> CosmosHandler \<Rightarrow>
     DictionaryQueryEntry list option result" where
  "handlerEntries Q getPlugin ds h =
     rbind (getBaseHandlerKind getPlugin ds h) (\<lambda>k.
       if isCustomCosmosDs ds then
         rbind (getPlugin ds) (\<lambda>plugin.
           (case plugin (kind h) of
              None \<Rightarrow> throwTypeError ''Cannot read properties of undefined (reading dictionaryQuery)''
            | Some p \<Rightarrow>
                (case (case dictionaryQuery p of None \<Rightarrow> None | Some q \<Rightarrow> q (handler_filter h) ds) of
                   Some entry \<Rightarrow> Inr (Some [entry])
                 | None \<Rightarrow>
                     rbind (getBaseHandlerFilters getPlugin ds (kind h)) (\<lambda>fs.
                       Inr (filterEntries Q k (definedFilters fs))))))
       else Inr (filterEntries Q k (definedFilters [handler_filter h])))"

text \<open>A loop that collects entries until it throws or returns early.\<close>

fun collectEntries :: "('a \<Rightarrow> 'e list option result) \<Rightarrow> 'a list \<Rightarrow> 'e list option result" where
  "collectEntries f [] = Inr (Some [])"
| "collectEntries f (x # xs) =
     rbind (f x) (\<lambda>r.
       (case r of
          None \<Rightarrow> Inr None
        | Some es \<Rightarrow> rbind (collectEntries f xs) (\<lambda>r'. Inr (map_option ((@) es) r'))))"

text \<open>The processor of a custom data source is looked up even if it has no handlers.\<close>

definition dsEntries ::
    "'k lodash_lib \<Rightarrow> (CosmosDatasource \<Rightarrow> ds_plugin result) \<Rightarrow> CosmosDatasource \<Rightarrow> DictionaryQueryEntry list option result" where
  "dsEntries Q getPlugin ds =
     rbind (if isCustomCosmosDs ds then rbind (getPlugin ds) (\<lambda>_. Inr ()) else Inr ())
       (\<lambda>_. collectEntries (handlerEntries Q getPlugin ds) (handlers (mapping ds)))"

definition entryKey :: "'k lodash_lib \<Rightarrow> DictionaryQueryEntry \<Rightarrow> string \<times> 'k" where
  "entryKey Q e = (entity e, stringify Q (sortByField Q (conditions e)))"

definition buildDictionaryQueryEntries ::
    "'k lodash_lib \<Rightarrow> (CosmosDatasource \<Rightarrow> ds_plugin result) \<Rightarrow> CosmosDatasource list \<Rightarrow> DictionaryQueryEntry list result" where
  "buildDictionaryQueryEntries Q getPlugin dataSources =
     rbind (collectEntries (dsEntries Q getPlugin) dataSources)
       (\<lambda>r. Inr (case r of None \<Rightarrow> [] | Some es \<Rightarrow> uniqBy Q (entryKey Q) es))"

section \<open>Nested values\<close>

text \<open>Containment of JSON values, on objects and scalars.\<close>

fun jsonContains :: "js \<Rightarrow> js \<Rightarrow> bool" where
  "jsonContains d (JObj kvs) =
     (case d of
        JObj dk \<Rightarrow> (\<forall>(k, v) \<in> set kvs. case map_of dk k of None \<Rightarrow> False | Some w \<Rightarrow> jsonContains w v)
      | _ \<Rightarrow> False)"
| "jsonContains d v = (d = v)"

text \<open>Own properties along a path.\<close>

fun ownPath :: "js \<Rightarrow> string list \<Rightarrow> js option" where
  "ownPath d [] = Some d"
| "ownPath (JObj kvs) (k # ks) = (case map_of kvs k of None \<Rightarrow> None | Some v \<Rightarrow> ownPath v ks)"
| "ownPath _ (k # ks) = None"

text \<open>Setting a value along a path, creating the objects on the way.\<close>

definition childObject :: "(string \<times> js) list \<Rightarrow> string \<Rightarrow> (string \<times> js) list" where
  "childObject kvs k = (case map_of kvs k of Some (JObj c) \<Rightarrow> c | _ \<Rightarrow> [])"

fun setPath :: "(string \<times> js) list \<Rightarrow> string list \<Rightarrow> js \<Rightarrow> (string \<times> js) list" where
  "setPath kvs [] v = kvs"
| "setPath kvs [k] v = setProp k v kvs"
| "setPath kvs (k # k2 # ks) v = setProp k (JObj (setPath (childObject kvs k) (k2 # ks) v)) kvs"

section \<open>The contract of the libraries\<close>

text \<open>A key whose components are plain names: no empty one, no array index, no bracket.\<close>

definition plainKey :: "string \<Rightarrow> bool" where
  "plainKey key =
     list_all (\<lambda>w. w \<noteq> [] \<and> arrayIndex w = None \<and> CHR ''['' \<notin> set w \<and> CHR '']'' \<notin> set w)
       (splitOn (CHR ''.'') key)"

definition dotFree :: "(string \<times> js) list \<Rightarrow> bool" where
  "dotFree kvs = (\<forall>k \<in> fst ` set kvs. CHR ''.'' \<notin> set k)"

fun isJson :: "js \<Rightarrow> bool" where
  "isJson (JObj kvs) = (\<forall>kv \<in> set kvs. isJson (snd kv))"
| "isJson (JArr xs) = (\<forall>x \<in> set xs. isJson x)"
| "isJson v = (v = JNull \<or> (\<exists>b. v = JBool b) \<or> (\<exists>n. v = JNum n) \<or> (\<exists>s. v = JStr s))"

definition jsonConditions :: "DictionaryQueryCondition list \<Rightarrow> bool" where
  "jsonConditions cs = (\<forall>c \<in> set cs. isJson (cond_value c))"

text \<open>
  \<^verbatim>\<open>setWith\<close> sets the value at the path of a key; \<^verbatim>\<open>sortBy\<close> permutes; the JSON text of JSON data determines
  it; \<^verbatim>\<open>uniqBy\<close> keeps elements of the list, one of each key.
\<close>

locale query_library =
  fixes Q :: "'k lodash_lib"
  assumes setWith_path:
      "plainKey key \<Longrightarrow> dotFree kvs \<Longrightarrow> setWith Q (JObj kvs) key v = JObj (setPath kvs (splitOn (CHR ''.'') key) v)"
    and sortByField_set: "set (sortByField Q cs) = set cs"
    and stringify_inject:
      "jsonConditions cs \<Longrightarrow> jsonConditions cs' \<Longrightarrow> stringify Q cs = stringify Q cs' \<Longrightarrow> cs = cs'"
    and uniqBy_subset: "set (uniqBy Q iteratee es) \<subseteq> set es"
    and uniqBy_keeps: "e \<in> set es \<Longrightarrow> \<exists>e' \<in> set (uniqBy Q iteratee es). iteratee e' = iteratee e"
begin

lemma uniqBy_represents:
  assumes "e \<in> set es" and "\<forall>e \<in> set es. jsonConditions (conditions e)"
  shows "\<exists>e' \<in> set (uniqBy Q (entryKey Q) es). entity e' = entity e \<and> set (conditions e') = set (conditions e)"
proof -
  obtain e' where e': "e' \<in> set (uniqBy Q (entryKey Q) es)" "entryKey Q e' = entryKey Q e"
    using uniqBy_keeps [OF assms(1)] by blast
  then have "e' \<in> set es" using uniqBy_subset by blast
  then have "jsonConditions (sortByField Q (conditions e'))" "jsonConditions (sortByField Q (conditions e))"
    using assms by (simp_all add: jsonConditions_def sortByField_set)
  with e'(2) have "sortByField Q (conditions e') = sortByField Q (conditions e)"
    by (simp add: entryKey_def stringify_inject)
  then have "set (conditions e') = set (conditions e)" by (metis sortByField_set)
  with e' show ?thesis by (auto simp: entryKey_def)
qed

end

text \<open>A reference implementation; the text of JSON data is represented by the data itself.\<close>

fun uniqByKey :: "('e \<Rightarrow> 'q) \<Rightarrow> 'q list \<Rightarrow> 'e list \<Rightarrow> 'e list" where
  "uniqByKey key seen [] = []"
| "uniqByKey key seen (e # es) =
     (if key e \<in> set seen then uniqByKey key seen es else e # uniqByKey key (key e # seen) es)"

lemma uniqByKey_subset: "set (uniqByKey key seen es) \<subseteq> set es"
  by (induction key seen es rule: uniqByKey.induct) auto

lemma uniqByKey_keeps: "e \<in> set es \<Longrightarrow> key e \<in> set seen \<or> (\<exists>e' \<in> set (uniqByKey key seen es). key e' = key e)"
  by (induction key seen es rule: uniqByKey.induct) auto

definition std_lodash :: "DictionaryQueryCondition list lodash_lib" where
  "std_lodash =
     \<lparr>setWith = (\<lambda>obj key v. case obj of JObj kvs \<Rightarrow> JObj (setPath kvs (splitOn (CHR ''.'') key) v) | _ \<Rightarrow> obj),
      sortByField = (\<lambda>cs. filter (\<lambda>c. field c = ''data'') cs @ filter (\<lambda>c. field c \<noteq> ''data'') cs),
      stringify = id,
      uniqBy = (\<lambda>key es. uniqByKey key [] es)\<rparr>"

interpretation std_query: query_library std_lodash
proof
  show "e \<in> set es \<Longrightarrow> \<exists>e' \<in> set (uniqBy std_lodash key es). key e' = key e" for e es and key :: "DictionaryQueryEntry \<Rightarrow> string \<times> DictionaryQueryCondition list"
    using uniqByKey_keeps [of e es key "[]"] by (auto simp: std_lodash_def)
  show "set (uniqBy std_lodash key es) \<subseteq> set es" for es and key :: "DictionaryQueryEntry \<Rightarrow> string \<times> DictionaryQueryCondition list"
    using uniqByKey_subset [of key "[]" es] by (simp add: std_lodash_def)
qed (auto simp: std_lodash_def)

section \<open>The nested object of the filter values\<close>

lemma dotFree_setPath: "dotFree kvs \<Longrightarrow> dotFree (setPath kvs (splitOn (CHR ''.'') key) v)"
proof -
  assume d: "dotFree kvs"
  have "\<forall>w \<in> set (splitOn (CHR ''.'') key). CHR ''.'' \<notin> set w" using splitOn_no_sep by blast
  with d show ?thesis
    by (cases "splitOn (CHR ''.'') key" rule: remdups_adj.cases)
      (auto simp: dotFree_def fst_set_setProp)
qed

lemma isJson_setProp: "isJson (JObj kvs) \<Longrightarrow> isJson v \<Longrightarrow> isJson (JObj (setProp k v kvs))"
  by (induction k v kvs rule: setProp.induct) auto

lemma isJson_childObject: "isJson (JObj kvs) \<Longrightarrow> isJson (JObj (childObject kvs k))"
proof -
  assume j: "isJson (JObj kvs)"
  have "isJson (JObj c)" if "map_of kvs k = Some (JObj c)" for c
    using j map_of_SomeD [OF that] by (metis isJson.simps(1) snd_conv)
  then show ?thesis by (auto simp: childObject_def simp del: isJson.simps(1) split: option.splits js.splits) simp_all
qed

lemma isJson_setPath: "isJson (JObj kvs) \<Longrightarrow> isJson v \<Longrightarrow> isJson (JObj (setPath kvs ks v))"
  by (induction kvs ks v rule: setPath.induct) (simp_all add: isJson_setProp isJson_childObject del: isJson.simps)

definition nestPaths :: "(string \<times> js) list \<Rightarrow> (string \<times> js) list \<Rightarrow> (string \<times> js) list" where
  "nestPaths kvs0 kvs = foldl (\<lambda>n (key, v). setPath n (splitOn (CHR ''.'') key) v) kvs0 kvs"

lemma isJson_nestPaths:
  "isJson (JObj kvs0) \<Longrightarrow> \<forall>kv \<in> set kvs. isJson (snd kv) \<Longrightarrow> isJson (JObj (nestPaths kvs0 kvs))"
  unfolding nestPaths_def
  by (induction kvs arbitrary: kvs0) (auto simp: isJson_setPath simp del: isJson.simps)

context query_library
begin

lemma nestedValues_nest_from:
  "dotFree kvs0 \<Longrightarrow> \<forall>kv \<in> set kvs. plainKey (fst kv) \<Longrightarrow>
   foldl (\<lambda>nested (key, v). setWith Q nested key v) (JObj kvs0) kvs = JObj (nestPaths kvs0 kvs)"
  unfolding nestPaths_def
  by (induction kvs arbitrary: kvs0) (auto simp: setWith_path dotFree_setPath)

lemma nestedValues_nest:
  "\<forall>kv \<in> set kvs. plainKey (fst kv) \<Longrightarrow> nestedValues Q kvs = JObj (nestPaths [] kvs)"
  by (simp add: nestedValues_def nestedValues_nest_from dotFree_def)

end

section \<open>Filters and the values they must find\<close>

lemma contains_object:
  "jsonContains d (JObj kvs) \<longleftrightarrow>
   (\<exists>dk. d = JObj dk \<and> (\<forall>(k, v) \<in> set kvs. \<exists>w. map_of dk k = Some w \<and> jsonContains w v))"
  by (auto split: js.splits option.splits)

declare jsonContains.simps(1) [simp del]

lemma set_setProp: "(k', v') \<in> set (setProp k v kvs) \<Longrightarrow> (k' = k \<and> v' = v) \<or> (k', v') \<in> set kvs"
  by (induction k v kvs rule: setProp.induct) (auto split: if_splits)

lemma contains_setProp:
  assumes "jsonContains (JObj dk) (JObj kvs)" and "map_of dk k = Some w" and "jsonContains w v"
  shows "jsonContains (JObj dk) (JObj (setProp k v kvs))"
  using assms unfolding contains_object by (auto dest!: set_setProp)

lemma contains_member:
  assumes "jsonContains (JObj dk) (JObj kvs)" and "(k, v) \<in> set kvs"
  shows "\<exists>w. map_of dk k = Some w \<and> jsonContains w v"
  using assms by (auto simp only: contains_object [of "JObj dk" kvs])

lemma contains_childObject:
  assumes "jsonContains (JObj dk) (JObj kvs)" and "map_of dk k = Some (JObj wk)"
  shows "jsonContains (JObj wk) (JObj (childObject kvs k))"
proof (cases "\<exists>c. map_of kvs k = Some (JObj c)")
  case True
  then obtain c where c: "map_of kvs k = Some (JObj c)" by blast
  then have "(k, JObj c) \<in> set kvs" by (rule map_of_SomeD)
  with assms have "jsonContains (JObj wk) (JObj c)" using contains_member by fastforce
  with c show ?thesis by (simp add: childObject_def)
next
  case False
  then have "childObject kvs k = []" by (auto simp: childObject_def split: option.splits js.splits)
  then show ?thesis by (simp add: contains_object)
qed

text \<open>A value that is present along a path may be added to what is contained.\<close>

lemma contains_setPath:
  "jsonContains d (JObj kvs) \<Longrightarrow> ownPath d ks = Some v \<Longrightarrow> jsonContains v v \<Longrightarrow>
   jsonContains d (JObj (setPath kvs ks v))"
proof (induction kvs ks v arbitrary: d rule: setPath.induct)
  case (2 kvs k v)
  then obtain dk where "d = JObj dk" unfolding contains_object by blast
  with 2 show ?case by (auto intro: contains_setProp split: option.splits)
next
  case (3 kvs k k2 ks v)
  then obtain dk where d: "d = JObj dk" unfolding contains_object by blast
  with 3 obtain w where w: "map_of dk k = Some w" "ownPath w (k2 # ks) = Some v"
    by (auto simp del: ownPath.simps(2) simp: ownPath.simps(2) [of dk k "k2 # ks"] split: option.splits)
  then obtain wk where wk: "w = JObj wk" by (cases w) auto
  have "jsonContains w (JObj (setPath (childObject kvs k) (k2 # ks) v))"
    using 3(1) [OF _ w(2)] contains_childObject [of dk kvs k wk] 3(2,4) d w(1) wk by simp
  then show ?case using contains_setProp [of dk kvs k w] 3(2) d w(1) by simp
qed simp

lemma contains_nestPaths:
  assumes "jsonContains d (JObj kvs0)"
    and "\<forall>(k, v) \<in> set kvs. ownPath d (splitOn (CHR ''.'') k) = Some v \<and> jsonContains v v"
  shows "jsonContains d (JObj (nestPaths kvs0 kvs))"
  using assms unfolding nestPaths_def
proof (induction kvs arbitrary: kvs0)
  case (Cons kv kvs)
  obtain k v where kv: "kv = (k, v)" by (cases kv)
  have "jsonContains d (JObj (setPath kvs0 (splitOn (CHR ''.'') k) v))"
    using Cons.prems by (intro contains_setPath) (auto simp: kv)
  with Cons show ?case by (simp add: kv)
qed simp

lemma ownPath_jsPath: "ownPath d ks = Some v \<Longrightarrow> jsPath d ks = Inr v"
  by (induction d ks rule: ownPath.induct) (auto split: option.splits)

text \<open>The message filter of a handler filter, if any, has plain keys and JSON values.\<close>

definition plainFilter :: "CosmosMessageFilter \<Rightarrow> bool" where
  "plainFilter f = (\<forall>kv \<in> set (requiredValues f). plainKey (fst kv) \<and> isJson (snd kv))"

definition plainHandler :: "CosmosHandler \<Rightarrow> bool" where
  "plainHandler h =
     (case handler_filter h of
        Some (MessageFilter f) \<Rightarrow> plainFilter f
      | Some (EventFilter f) \<Rightarrow> (case messageFilter f of None \<Rightarrow> True | Some mf \<Rightarrow> plainFilter mf)
      | _ \<Rightarrow> True)"

text \<open>The filter values are found as own primitive properties, none of them a Long.\<close>

definition ownValues :: "CosmosMessageFilter \<Rightarrow> js \<Rightarrow> bool" where
  "ownValues f d =
     (\<forall>kv \<in> set (requiredValues f). \<exists>w. ownPath d (splitOn (CHR ''.'') (fst kv)) = Some w \<and> \<not> (\<exists>u n. w = JLong u n))"

lemma strictEq_same: "strictEq v w \<Longrightarrow> v = w \<and> jsonContains v v"
  by (cases v; cases w) auto

lemma valueHolds_own:
  assumes "valueHolds d (k, v)" and "ownPath d (splitOn (CHR ''.'') k) = Some w" and "\<not> (\<exists>u n. w = JLong u n)"
  shows "ownPath d (splitOn (CHR ''.'') k) = Some v \<and> jsonContains v v"
proof -
  have "coerceLong v w = w" using assms(3) by (cases w) (auto simp: coerceLong_def)
  with assms(1,2) have "strictEq v w" by (simp add: valueHolds_def ownPath_jsPath)
  then show ?thesis using assms(2) strictEq_same by auto
qed

context query_library
begin

lemma messageEntry_conditions:
  assumes "plainFilter f"
  shows "conditions (messageFilterToQueryEntry Q f) =
    \<lparr>field = ''type'', cond_value = typeValue (filter_type f), matcher = ''equalTo''\<rparr> #
    (case filter_values f of None \<Rightarrow> []
     | Some kvs \<Rightarrow> [\<lparr>field = ''data'', cond_value = JObj (nestPaths [] kvs), matcher = ''contains''\<rparr>])"
  using assms
  by (cases "filter_values f")
    (simp_all add: messageFilterToQueryEntry_def plainFilter_def requiredValues_def nestedValues_nest)

lemma data_contained:
  assumes "ownValues f (JObj dk)" and "decoded m = Inr (JObj dk)" and "messageMatches f m"
    and "filter_values f = Some kvs"
  shows "jsonContains (JObj dk) (JObj (nestPaths [] kvs))"
proof (rule contains_nestPaths)
  show "jsonContains (JObj dk) (JObj [])" by (simp add: contains_object)
  have "\<forall>kv \<in> set kvs. valueHolds (JObj dk) kv"
    using assms(2-4) by (simp add: messageMatches_def requiredValues_def list_all_iff onDecoded_def)
  then have "ownPath (JObj dk) (splitOn (CHR ''.'') k) = Some v \<and> jsonContains v v" if "(k, v) \<in> set kvs" for k v
    using that assms(1,4) valueHolds_own [of "JObj dk" k v]
    by (fastforce simp: ownValues_def requiredValues_def)
  then show "\<forall>(k, v) \<in> set kvs. ownPath (JObj dk) (splitOn (CHR ''.'') k) = Some v \<and> jsonContains v v"
    by blast
qed

lemma json_messageEntry:
  assumes "plainFilter f" and "filter_type f \<noteq> None"
  shows "jsonConditions (conditions (messageFilterToQueryEntry Q f))"
proof (cases "filter_values f")
  case (Some kvs)
  have "isJson (JObj (nestPaths [] kvs))"
    using assms(1) by (intro isJson_nestPaths) (simp_all add: plainFilter_def requiredValues_def Some)
  with Some assms show ?thesis
    by (auto simp: messageEntry_conditions [OF assms(1)] jsonConditions_def typeValue_def
        simp del: isJson.simps(1))
qed (use assms in \<open>auto simp: messageEntry_conditions [OF assms(1)] jsonConditions_def typeValue_def\<close>)

lemma json_eventEntry:
  assumes "\<And>mf. messageFilter ef = Some mf \<Longrightarrow> plainFilter mf \<and> filter_type mf \<noteq> None"
    and "event_filter_type ef \<noteq> None"
  shows "jsonConditions (conditions (eventFilterToQueryEntry Q ef))"
proof (cases "messageFilter ef")
  case (Some mf)
  have "jsonConditions (conditions (messageFilterToQueryEntry Q mf))"
    using assms(1) [OF Some] json_messageEntry by blast
  with Some assms(2) show ?thesis
    by (auto simp: eventFilterToQueryEntry_def jsonConditions_def typeValue_def)
qed (use assms(2) in \<open>auto simp: eventFilterToQueryEntry_def jsonConditions_def typeValue_def\<close>)

end

section \<open>The collected entries\<close>

lemma collectEntries_member:
  assumes "collectEntries f xs = Inr (Some es)" and "x \<in> set xs"
  shows "\<exists>ex. f x = Inr (Some ex) \<and> set ex \<subseteq> set es"
  using assms
proof (induction xs arbitrary: es)
  case (Cons y ys)
  then obtain ey ez where "f y = Inr (Some ey)" "collectEntries f ys = Inr (Some ez)" "es = ey @ ez"
    by (auto simp: rbind_Inr_iff split: option.splits)
  with Cons show ?case by fastforce
qed simp

lemma collectEntries_origin:
  assumes "collectEntries f xs = Inr (Some es)" and "e \<in> set es"
  shows "\<exists>x \<in> set xs. \<exists>ex. f x = Inr (Some ex) \<and> e \<in> set ex"
  using assms
proof (induction xs arbitrary: es)
  case (Cons y ys)
  then obtain ey ez where "f y = Inr (Some ey)" "collectEntries f ys = Inr (Some ez)" "es = ey @ ez"
    by (auto simp: rbind_Inr_iff split: option.splits)
  with Cons show ?case by fastforce
qed simp

lemma runtime_handlerEntries:
  assumes "isRuntimeCosmosDs ds"
  shows "handlerEntries Q getPlugin ds h =
    Inr (filterEntries Q (List.find (\<lambda>k. kindValue k = kind h) handlerKinds) (definedFilters [handler_filter h]))"
proof -
  have c: "\<not> isCustomCosmosDs ds" using assms kind_disjoint by blast
  have "List.find (\<lambda>k. kindValue k = kind h) handlerKinds = None" if "\<not> isBaseHandler h"
    using that by (auto simp: find_None_iff isBaseHandler_iff) metis
  with assms c show ?thesis
    by (cases "isBaseHandler h") (simp_all add: handlerEntries_def getBaseHandlerKind_def)
qed

lemma runtime_dsEntries:
  "isRuntimeCosmosDs ds \<Longrightarrow> dsEntries Q getPlugin ds = collectEntries (handlerEntries Q getPlugin ds) (handlers (mapping ds))"
  using kind_disjoint [of ds] by (simp add: dsEntries_def)

lemma find_kind: "List.find (\<lambda>k'. kindValue k' = kindValue k) handlerKinds = Some k"
  by (cases k) (simp_all add: handlerKinds_def)

lemma definedFilters_simps [simp]: "definedFilters [None] = []" "definedFilters [Some f] = [f]"
  by (simp_all add: definedFilters_def List.map_filter_def)

lemma runtime_kind_entries:
  "isRuntimeCosmosDs ds \<Longrightarrow> kind h = kindValue k \<Longrightarrow> handler_filter h = Some hf \<Longrightarrow>
   handlerEntries Q getPlugin ds h = Inr (filterEntries Q (Some k) [hf])"
  by (simp only: runtime_handlerEntries find_kind definedFilters_simps)

text \<open>The filters of the entries of a runtime handler.\<close>

lemma pushEntries_origin:
  "pushEntries typ entry fs = Some es \<Longrightarrow> e \<in> set es \<Longrightarrow> \<exists>f \<in> set fs. typ f \<noteq> None \<and> e = entry f"
  by (induction fs arbitrary: es) (auto split: if_splits)

lemma plain_asMessageFilter:
  "handler_filter h = Some hf \<Longrightarrow> plainHandler h \<Longrightarrow> plainFilter (asMessageFilter hf)"
  by (cases hf) (auto simp: plainHandler_def plainFilter_def requiredValues_def)

definition typedEventFilter :: "CosmosHandler \<Rightarrow> bool" where
  "typedEventFilter h =
     (case handler_filter h of
        Some (EventFilter f) \<Rightarrow> (case messageFilter f of None \<Rightarrow> True | Some mf \<Rightarrow> filter_type mf \<noteq> None)
      | _ \<Rightarrow> True)"

lemma plain_asEventFilter:
  assumes "handler_filter h = Some hf" and "plainHandler h" and "typedEventFilter h"
    and "messageFilter (asEventFilter hf) = Some mf"
  shows "plainFilter mf \<and> filter_type mf \<noteq> None"
  using assms by (cases hf) (auto simp: plainHandler_def typedEventFilter_def)

context query_library
begin

lemma runtime_entries_json:
  assumes "isRuntimeCosmosDs ds" and "plainHandler h" and "typedEventFilter h"
    and "handlerEntries Q getPlugin ds h = Inr (Some es)" and "e \<in> set es"
  shows "jsonConditions (conditions e)"
proof -
  let ?k = "List.find (\<lambda>k. kindValue k = kind h) handlerKinds"
  have fe: "filterEntries Q ?k (definedFilters [handler_filter h]) = Some es"
    using assms(1,4) by (simp add: runtime_handlerEntries)
  then obtain hf where hf: "handler_filter h = Some hf"
    by (cases "handler_filter h") (simp_all add: filterEntries_def)
  from fe assms(5) consider
      "filter_type (asMessageFilter hf) \<noteq> None" "e = messageFilterToQueryEntry Q (asMessageFilter hf)"
    | "event_filter_type (asEventFilter hf) \<noteq> None" "e = eventFilterToQueryEntry Q (asEventFilter hf)"
    by (auto simp: filterEntries_def hf split: option.splits CosmosHandlerKind.splits if_splits)
  then show ?thesis
  proof cases
    case 1
    then show ?thesis using json_messageEntry [OF plain_asMessageFilter [OF hf assms(2)]] by simp
  next
    case 2
    then show ?thesis using json_eventEntry plain_asEventFilter [OF hf assms(2,3)] by simp
  qed
qed

text \<open>An entry of a runtime handler is among the entries asked for, up to its representative.\<close>

lemma entry_asked:
  assumes "\<forall>ds \<in> set dss. isRuntimeCosmosDs ds \<and> (\<forall>h \<in> set (handlers (mapping ds)). plainHandler h \<and> typedEventFilter h)"
    and "buildDictionaryQueryEntries Q getPlugin dss = Inr entries" and "entries \<noteq> []"
    and "ds \<in> set dss" and "h \<in> set (handlers (mapping ds))"
  shows "\<exists>es. handlerEntries Q getPlugin ds h = Inr (Some es) \<and>
    (\<forall>e \<in> set es. \<exists>e' \<in> set entries. entity e' = entity e \<and> set (conditions e') = set (conditions e))"
proof -
  obtain all where all: "collectEntries (dsEntries Q getPlugin) dss = Inr (Some all)" "entries = uniqBy Q (entryKey Q) all"
    using assms(2,3) by (auto simp: buildDictionaryQueryEntries_def rbind_Inr_iff split: option.splits)
  have json: "jsonConditions (conditions e)" if e: "e \<in> set all" for e
  proof -
    obtain ds' ex where "ds' \<in> set dss" "dsEntries Q getPlugin ds' = Inr (Some ex)" "e \<in> set ex"
      using collectEntries_origin [OF all(1) e] by blast
    moreover from this obtain h' es' where "h' \<in> set (handlers (mapping ds'))"
        "handlerEntries Q getPlugin ds' h' = Inr (Some es')" "e \<in> set es'"
      using assms(1) collectEntries_origin by (metis runtime_dsEntries)
    ultimately show ?thesis using assms(1) runtime_entries_json by blast
  qed
  obtain ex where ex: "dsEntries Q getPlugin ds = Inr (Some ex)" "set ex \<subseteq> set all"
    using collectEntries_member [OF all(1) assms(4)] by blast
  then obtain es where es: "handlerEntries Q getPlugin ds h = Inr (Some es)" "set es \<subseteq> set ex"
    using assms(1,4,5) collectEntries_member by (metis runtime_dsEntries)
  have "\<exists>e' \<in> set entries. entity e' = entity e \<and> set (conditions e') = set (conditions e)" if "e \<in> set es" for e
    using uniqBy_represents [of e all] that es(2) ex(2) json all(2) by blast
  with es(1) show ?thesis by blast
qed

end

section \<open>Properties\<close>

definition runtimeProject :: "CosmosDatasource list \<Rightarrow> bool" where
  "runtimeProject dss =
     (\<forall>ds \<in> set dss. isRuntimeCosmosDs ds \<and> (\<forall>h \<in> set (handlers (mapping ds)). plainHandler h \<and> typedEventFilter h))"

text \<open>The condition on the data of a message: an object with the filter values along the paths of their keys.\<close>

definition separateKeys :: "(string \<times> js) list \<Rightarrow> bool" where
  "separateKeys kvs \<longleftrightarrow>
     distinct (map fst kvs) \<and>
     (\<forall>k \<in> fst ` set kvs. \<forall>l \<in> fst ` set kvs. k \<noteq> l \<longrightarrow> \<not> prefix (splitOn (CHR ''.'') k) (splitOn (CHR ''.'') l))"

definition asksData :: "CosmosMessageFilter \<Rightarrow> DictionaryQueryCondition set \<Rightarrow> bool" where
  "asksData f cs =
     (case filter_values f of
        None \<Rightarrow> cs = {}
      | Some kvs \<Rightarrow>
          (\<exists>nested. cs = {\<lparr>field = ''data'', cond_value = nested, matcher = ''contains''\<rparr>} \<and>
             (separateKeys kvs \<longrightarrow> (\<forall>(k, v) \<in> set kvs. ownPath nested (splitOn (CHR ''.'') k) = Some v))))"

lemma ownPath_setProp:
  "ownPath (JObj (setProp k v kvs)) (k' # ks) = (if k' = k then ownPath v ks else ownPath (JObj kvs) (k' # ks))"
  by (simp add: map_of_setProp)

lemma ownPath_childObject:
  "ks \<noteq> [] \<Longrightarrow> ownPath (JObj kvs) (k # ks) = Some v \<Longrightarrow> ownPath (JObj (childObject kvs k)) ks = Some v"
proof -
  assume "ks \<noteq> []" and o: "ownPath (JObj kvs) (k # ks) = Some v"
  then obtain k2 ks' where ks: "ks = k2 # ks'" by (cases ks) auto
  from o obtain w where w: "map_of kvs k = Some w" "ownPath w (k2 # ks') = Some v" by (auto simp: ks split: option.splits)
  then show ?thesis by (cases w) (auto simp: childObject_def ks)
qed

lemma setPath_own: "ks \<noteq> [] \<Longrightarrow> ownPath (JObj (setPath kvs ks v)) ks = Some v"
proof (induction kvs ks v rule: setPath.induct)
  case (3 kvs k k2 ks v)
  then show ?case unfolding setPath.simps ownPath_setProp by simp
qed (simp_all add: map_of_setProp)

lemma setPath_other:
  "ownPath (JObj kvs) ls = Some w \<Longrightarrow> ls \<noteq> [] \<Longrightarrow> \<not> prefix ks ls \<Longrightarrow> \<not> prefix ls ks \<Longrightarrow>
   ownPath (JObj (setPath kvs ks v)) ls = Some w"
proof (induction kvs ks v arbitrary: ls rule: setPath.induct)
  case (2 kvs k v)
  then obtain l ls' where "ls = l # ls'" by (cases ls) auto
  with 2 show ?case by (simp add: map_of_setProp)
next
  case (3 kvs k k2 ks v)
  then obtain l ls' where ls: "ls = l # ls'" by (cases ls) auto
  show ?case
  proof (cases "l = k")
    case True
    then have "ls' \<noteq> []" "\<not> prefix (k2 # ks) ls'" "\<not> prefix ls' (k2 # ks)" using 3(4,5) ls by auto
    moreover from this have "ownPath (JObj (childObject kvs k)) ls' = Some w"
      using ownPath_childObject 3(2) ls True by blast
    ultimately have "ownPath (JObj (setPath (childObject kvs k) (k2 # ks) v)) ls' = Some w" using 3(1) by blast
    then show ?thesis unfolding ls setPath.simps ownPath_setProp using True by simp
  next
    case False
    then show ?thesis using 3(2) unfolding ls setPath.simps ownPath_setProp by simp
  qed
qed simp_all

lemma nestPaths_keeps:
  assumes "ownPath (JObj kvs0) ls = Some w" and "ls \<noteq> []"
    and "\<forall>k \<in> fst ` set kvs. \<not> prefix (splitOn (CHR ''.'') k) ls \<and> \<not> prefix ls (splitOn (CHR ''.'') k)"
  shows "ownPath (JObj (nestPaths kvs0 kvs)) ls = Some w"
  using assms unfolding nestPaths_def
proof (induction kvs arbitrary: kvs0)
  case (Cons kv kvs)
  then have "ownPath (JObj (setPath kvs0 (splitOn (CHR ''.'') (fst kv)) (snd kv))) ls = Some w"
    by (intro setPath_other) simp_all
  with Cons show ?case by (simp add: split_def)
qed simp

lemma nestPaths_values:
  assumes "separateKeys kvs" and "(k, v) \<in> set kvs"
  shows "ownPath (JObj (nestPaths kvs0 kvs)) (splitOn (CHR ''.'') k) = Some v"
  using assms
proof (induction kvs arbitrary: kvs0)
  case (Cons kv kvs)
  have n: "nestPaths kvs0 (kv # kvs) = nestPaths (setPath kvs0 (splitOn (CHR ''.'') (fst kv)) (snd kv)) kvs"
    by (simp add: nestPaths_def split_def)
  have s: "separateKeys kvs" using Cons.prems(1) by (auto simp: separateKeys_def)
  show ?case
  proof (cases "(k, v) \<in> set kvs")
    case True
    then show ?thesis unfolding n by (rule Cons.IH [OF s])
  next
    case False
    with Cons.prems(2) have kv: "kv = (k, v)" by simp
    have "k' \<noteq> k" if "k' \<in> fst ` set kvs" for k' using Cons.prems(1) that by (auto simp: separateKeys_def kv)
    then have "\<forall>k' \<in> fst ` set kvs. \<not> prefix (splitOn (CHR ''.'') k') (splitOn (CHR ''.'') k) \<and>
        \<not> prefix (splitOn (CHR ''.'') k) (splitOn (CHR ''.'') k')"
      using Cons.prems(1) unfolding separateKeys_def kv by fastforce
    then show ?thesis unfolding n [unfolded kv fst_conv snd_conv] kv
      by (rule nestPaths_keeps [OF setPath_own [OF splitOn_not_Nil] splitOn_not_Nil])
  qed
qed simp

text \<open>What the entry of a message filter and of an event filter asks for.\<close>

definition asksMessage :: "CosmosMessageFilter \<Rightarrow> DictionaryQueryEntry \<Rightarrow> bool" where
  "asksMessage f e \<longleftrightarrow>
     (\<exists>t cs. filter_type f = Some t \<and> asksData f cs \<and> entity e = ''messages'' \<and>
        set (conditions e) = insert \<lparr>field = ''type'', cond_value = JStr t, matcher = ''equalTo''\<rparr> cs)"

definition asksEvent :: "CosmosEventFilter \<Rightarrow> DictionaryQueryEntry \<Rightarrow> bool" where
  "asksEvent f e \<longleftrightarrow>
     (\<exists>t cs. event_filter_type f = Some t \<and> entity e = ''events'' \<and>
        set (conditions e) = insert \<lparr>field = ''type'', cond_value = JStr t, matcher = ''equalTo''\<rparr> cs \<and>
        (case messageFilter f of
           None \<Rightarrow> cs = {}
         | Some mf \<Rightarrow> (\<exists>u ds. filter_type mf = Some u \<and> asksData mf ds \<and>
             cs = insert \<lparr>field = ''msgType'', cond_value = JStr u, matcher = ''equalTo''\<rparr> ds)))"

text \<open>The filter of a message or event handler is of its handler's kind.\<close>

fun isMessageFilter :: "handler_filter \<Rightarrow> bool" where
  "isMessageFilter (MessageFilter f) = True"
| "isMessageFilter _ = False"

fun isEventFilter :: "handler_filter \<Rightarrow> bool" where
  "isEventFilter (EventFilter f) = True"
| "isEventFilter _ = False"

definition ownKind :: "CosmosHandler \<Rightarrow> bool" where
  "ownKind h =
     (case handler_filter h of
        None \<Rightarrow> True
      | Some hf \<Rightarrow> (kind h = kindValue Message \<longrightarrow> isMessageFilter hf) \<and> (kind h = kindValue Event \<longrightarrow> isEventFilter hf))"

lemma asksMessage_cong:
  "entity e' = entity e \<Longrightarrow> set (conditions e') = set (conditions e) \<Longrightarrow> asksMessage f e' = asksMessage f e"
  by (simp add: asksMessage_def)

lemma asksEvent_cong:
  "entity e' = entity e \<Longrightarrow> set (conditions e') = set (conditions e) \<Longrightarrow> asksEvent f e' = asksEvent f e"
  by (simp add: asksEvent_def)

context query_library
begin

lemma asks_data:
  assumes "plainFilter f"
  shows "asksData f (set (case filter_values f of None \<Rightarrow> []
     | Some kvs \<Rightarrow> [\<lparr>field = ''data'', cond_value = JObj (nestPaths [] kvs), matcher = ''contains''\<rparr>]))"
  by (auto simp: asksData_def nestPaths_values split: option.splits)

lemma asks_message:
  assumes "plainFilter f" and "filter_type f = Some t"
  shows "asksMessage f (messageFilterToQueryEntry Q f)"
proof -
  have "entity (messageFilterToQueryEntry Q f) = ''messages''" by (simp add: messageFilterToQueryEntry_def)
  moreover note asks_data [OF assms(1)]
  moreover have "set (conditions (messageFilterToQueryEntry Q f)) =
      insert \<lparr>field = ''type'', cond_value = JStr t, matcher = ''equalTo''\<rparr> (set (case filter_values f of None \<Rightarrow> []
     | Some kvs \<Rightarrow> [\<lparr>field = ''data'', cond_value = JObj (nestPaths [] kvs), matcher = ''contains''\<rparr>]))"
    by (simp add: messageEntry_conditions [OF assms(1)] assms(2) typeValue_def)
  ultimately show ?thesis using assms(2) unfolding asksMessage_def by blast
qed

lemma asks_event:
  assumes "event_filter_type ef = Some t" and "\<And>mf. messageFilter ef = Some mf \<Longrightarrow> plainFilter mf \<and> filter_type mf \<noteq> None"
  shows "asksEvent ef (eventFilterToQueryEntry Q ef)"
proof (cases "messageFilter ef")
  case None
  then show ?thesis using assms(1) by (simp add: asksEvent_def eventFilterToQueryEntry_def typeValue_def)
next
  case (Some mf)
  then obtain u where u: "plainFilter mf" "filter_type mf = Some u" using assms(2) by blast
  let ?cs = "case filter_values mf of None \<Rightarrow> []
     | Some kvs \<Rightarrow> [\<lparr>field = ''data'', cond_value = JObj (nestPaths [] kvs), matcher = ''contains''\<rparr>]"
  have "conditions (eventFilterToQueryEntry Q ef) = \<lparr>field = ''type'', cond_value = JStr t, matcher = ''equalTo''\<rparr> #
      \<lparr>field = ''msgType'', cond_value = JStr u, matcher = ''equalTo''\<rparr> # ?cs"
    using assms(1) u(2) by (auto simp: eventFilterToQueryEntry_def Some messageEntry_conditions [OF u(1)] typeValue_def
        split: option.splits)
  then show ?thesis unfolding asksEvent_def
    by (intro exI [of _ t] exI conjI) (use assms(1) u asks_data [OF u(1)] Some in
      \<open>auto simp: eventFilterToQueryEntry_def\<close>)
qed

text \<open>Where an entry of the query comes from.\<close>

lemma entry_origin:
  assumes "runtimeProject dss" and "buildDictionaryQueryEntries Q getPlugin dss = Inr entries" and "e \<in> set entries"
  shows "\<exists>ds \<in> set dss. \<exists>h \<in> set (handlers (mapping ds)). \<exists>hf. handler_filter h = Some hf \<and>
    (kind h = kindValue Message \<and> filter_type (asMessageFilter hf) \<noteq> None \<and> e = messageFilterToQueryEntry Q (asMessageFilter hf) \<or>
     kind h = kindValue Event \<and> event_filter_type (asEventFilter hf) \<noteq> None \<and> e = eventFilterToQueryEntry Q (asEventFilter hf))"
proof -
  obtain all where all: "collectEntries (dsEntries Q getPlugin) dss = Inr (Some all)" "e \<in> set all"
    using assms(2,3) uniqBy_subset
    by (fastforce simp: buildDictionaryQueryEntries_def rbind_Inr_iff split: option.splits)
  obtain ds ex where ds: "ds \<in> set dss" "dsEntries Q getPlugin ds = Inr (Some ex)" "e \<in> set ex"
    using collectEntries_origin [OF all] by blast
  have r: "isRuntimeCosmosDs ds" using assms(1) ds(1) by (simp add: runtimeProject_def)
  obtain h es where h: "h \<in> set (handlers (mapping ds))" "handlerEntries Q getPlugin ds h = Inr (Some es)" "e \<in> set es"
    using collectEntries_origin [OF ds(2) [unfolded runtime_dsEntries [OF r]] ds(3)] by blast
  let ?k = "List.find (\<lambda>k. kindValue k = kind h) handlerKinds"
  have fe: "filterEntries Q ?k (definedFilters [handler_filter h]) = Some es"
    using h(2) by (simp add: runtime_handlerEntries [OF r])
  then obtain hf where hf: "handler_filter h = Some hf"
    by (cases "handler_filter h") (simp_all add: filterEntries_def)
  have k: "kind h = kindValue k" if "?k = Some k" for k using that by (auto simp: find_Some_iff)
  from fe h(3) have "?k = Some Message \<and> filter_type (asMessageFilter hf) \<noteq> None \<and> e = messageFilterToQueryEntry Q (asMessageFilter hf) \<or>
     ?k = Some Event \<and> event_filter_type (asEventFilter hf) \<noteq> None \<and> e = eventFilterToQueryEntry Q (asEventFilter hf)"
    by (auto simp: filterEntries_def hf split: option.splits CosmosHandlerKind.splits if_splits)
  then show ?thesis using ds(1) h(1) hf k by blast
qed

lemma handler_asked:
  assumes "runtimeProject dss" and "buildDictionaryQueryEntries Q getPlugin dss = Inr entries" and "entries \<noteq> []"
    and "ds \<in> set dss" and "h \<in> set (handlers (mapping ds))"
  shows "kind h = kindValue Message \<Longrightarrow> handler_filter h = Some (MessageFilter f) \<Longrightarrow> \<exists>e \<in> set entries. asksMessage f e"
    and "kind h = kindValue Event \<Longrightarrow> handler_filter h = Some (EventFilter g) \<Longrightarrow> \<exists>e \<in> set entries. asksEvent g e"
proof -
  have r: "isRuntimeCosmosDs ds" "plainHandler h" "typedEventFilter h" using assms(1,4,5) by (auto simp: runtimeProject_def)
  obtain es where es: "handlerEntries Q getPlugin ds h = Inr (Some es)"
    "\<And>e. e \<in> set es \<Longrightarrow> \<exists>e' \<in> set entries. entity e' = entity e \<and> set (conditions e') = set (conditions e)"
    using entry_asked [OF assms(1) [unfolded runtimeProject_def] assms(2-5)] by blast
  { assume f: "kind h = kindValue Message" "handler_filter h = Some (MessageFilter f)"
    then have "filterEntries Q (Some Message) [MessageFilter f] = Some es"
      using runtime_kind_entries [OF r(1) f, of Q getPlugin] es(1) by (simp only: sum.inject)
    then obtain t where t: "filter_type f = Some t" "es = [messageFilterToQueryEntry Q f]"
      by (auto simp: filterEntries_def split: if_splits)
    have "asksMessage f (messageFilterToQueryEntry Q f)"
      using r(2) f(2) t(1) by (intro asks_message) (simp_all add: plainHandler_def)
    then show "\<exists>e \<in> set entries. asksMessage f e" using es(2) t(2) asksMessage_cong by (metis list.set_intros(1)) }
  { assume g: "kind h = kindValue Event" "handler_filter h = Some (EventFilter g)"
    then have "filterEntries Q (Some Event) [EventFilter g] = Some es"
      using runtime_kind_entries [OF r(1) g, of Q getPlugin] es(1) by (simp only: sum.inject)
    then obtain t where t: "event_filter_type g = Some t" "es = [eventFilterToQueryEntry Q g]"
      by (auto simp: filterEntries_def split: if_splits)
    have "asksEvent g (eventFilterToQueryEntry Q g)"
      using r(2,3) g(2) t(1) by (intro asks_event) (simp_all add: plainHandler_def typedEventFilter_def)
    then show "\<exists>e \<in> set entries. asksEvent g e" using es(2) t(2) asksEvent_cong by (metis list.set_intros(1)) }
qed

end

definition runtimeDs :: "CosmosHandler list \<Rightarrow> CosmosDatasource" where
  "runtimeDs hs =
     \<lparr>ds_kind = RuntimeKind, startBlock = Some 1, mapping = \<lparr>mapping_file = ''dist/index.js'', handlers = hs\<rparr>,
      processor = None, assets = None\<rparr>"

definition swapHandler :: CosmosHandler where
  "swapHandler =
     \<lparr>kind = kindValue Message, handler = ''handleSwap'',
      handler_filter = Some (MessageFilter (execFilter (Some ''swap'') (Some [(''contract'', JStr ''juno1'')])))\<rparr>"

definition wasmHandler :: CosmosHandler where
  "wasmHandler =
     \<lparr>kind = kindValue Event, handler = ''handleWasm'',
      handler_filter = Some (EventFilter \<lparr>event_filter_type = Some ''wasm'', messageFilter = None, filter_attributes = None\<rparr>)\<rparr>"

definition noPlugin :: "CosmosDatasource \<Rightarrow> ds_plugin result" where
  "noPlugin ds = throwError ''unknown processor''"

lemma plainKey_contract: "plainKey ''contract'' \<and> splitOn (CHR ''.'') ''contract'' = [''contract'']"
  by (simp add: plainKey_def arrayIndex_def isDigit_def)

lemmas dictionary_eval =
  plainKey_contract runtimeDs_def swapHandler_def wasmHandler_def runtimeProject_def isRuntimeCosmosDs_def
  isCustomCosmosDs_def plainHandler_def typedEventFilter_def plainFilter_def requiredValues_def

lemma sample_entries:
  "\<exists>entries. buildDictionaryQueryEntries std_lodash noPlugin [runtimeDs [swapHandler, wasmHandler]] = Inr entries \<and> entries \<noteq> []"
  by (simp add: buildDictionaryQueryEntries_def dsEntries_def runtime_handlerEntries dictionary_eval
      handlerKinds_def filterEntries_def execFilter_def std_lodash_def)



lemma sample_project:
  "runtimeProject [runtimeDs [swapHandler, wasmHandler]] \<and>
   (\<forall>ds \<in> set [runtimeDs [swapHandler, wasmHandler]]. \<forall>h \<in> set (handlers (mapping ds)). ownKind h)"
  by (simp add: dictionary_eval execFilter_def ownKind_def)



text \<open>The data source with other handlers.\<close>

definition withHandlers :: "CosmosDatasource \<Rightarrow> CosmosHandler list \<Rightarrow> CosmosDatasource" where
  "withHandlers ds hs = ds\<lparr>mapping := (mapping ds)\<lparr>handlers := hs\<rparr>\<rparr>"

lemma collectEntries_skip: "g x = Inr (Some []) \<Longrightarrow> collectEntries g (xs @ x # ys) = collectEntries g (xs @ ys)"
proof (induction xs)
  case Nil
  then show ?case by (cases "collectEntries g ys") (simp_all add: option.map_id0 id_def [symmetric] append_Nil [abs_def])
qed simp

text \<open>
  C40: a transaction handler with a filter leaves the dictionary query as it is, wherever it stands among the handlers of
  a runtime data source, whatever the other data sources of the project: it neither adds an entry, nor does it keep
  the dictionary from being asked.
\<close>

theorem dictionary_ignores_transactions:
  assumes "isRuntimeCosmosDs ds" and "kind h = kindValue Transaction" and "handler_filter h = Some f"
  shows "buildDictionaryQueryEntries Q getPlugin (dss @ withHandlers ds (hs @ h # hs') # dss') =
    buildDictionaryQueryEntries Q getPlugin (dss @ withHandlers ds (hs @ hs') # dss')"
proof -
  have r: "isRuntimeCosmosDs (withHandlers ds hs)" for hs using assms(1) by (simp add: isRuntimeCosmosDs_def withHandlers_def)
  have same: "handlerEntries Q getPlugin (withHandlers ds hs) = handlerEntries Q getPlugin ds" for hs
    by (intro ext) (simp only: runtime_handlerEntries r assms(1))
  have "handlerEntries Q getPlugin ds h = Inr (Some [])"
    using runtime_kind_entries [OF assms, of Q getPlugin] by (simp add: filterEntries_def)
  then have skip: "collectEntries (handlerEntries Q getPlugin ds) (hs @ h # hs') = collectEntries (handlerEntries Q getPlugin ds) (hs @ hs')"
    by (rule collectEntries_skip)
  have hs: "handlers (mapping (withHandlers ds xs)) = xs" for xs by (simp add: withHandlers_def)
  have "dsEntries Q getPlugin (withHandlers ds (hs @ h # hs')) = dsEntries Q getPlugin (withHandlers ds (hs @ hs'))"
    unfolding runtime_dsEntries [OF r] same hs by (rule skip)
  then have "collectEntries (dsEntries Q getPlugin) (dss @ withHandlers ds (hs @ h # hs') # dss') =
      collectEntries (dsEntries Q getPlugin) (dss @ withHandlers ds (hs @ hs') # dss')"
    by (induction dss) simp_all
  then show ?thesis by (simp add: buildDictionaryQueryEntries_def)
qed

theorem dictionary_ignores_transactions_witness:
  "\<exists>entries. buildDictionaryQueryEntries std_lodash noPlugin [runtimeDs [swapHandler,
       \<lparr>kind = kindValue Transaction, handler = ''handleTx'', handler_filter = Some (TxFilter \<lparr>includeFailedTx = True\<rparr>)\<rparr>,
       wasmHandler]] = Inr entries \<and> entries \<noteq> []"
proof -
  let ?h = "\<lparr>kind = kindValue Transaction, handler = ''handleTx'', handler_filter = Some (TxFilter \<lparr>includeFailedTx = True\<rparr>)\<rparr>"
  have "isRuntimeCosmosDs (runtimeDs [])" by (simp add: runtimeDs_def isRuntimeCosmosDs_def)
  from dictionary_ignores_transactions [OF this, of ?h "TxFilter \<lparr>includeFailedTx = True\<rparr>" std_lodash noPlugin "[]"
      "[swapHandler]" "[wasmHandler]" "[]"] sample_entries
  show ?thesis by (simp add: withHandlers_def runtimeDs_def)
qed

end
