(* ===== verification/Skipping.thy ===== *)
theory Skipping
  imports Dictionary
begin

text \<open>
  What the dictionary is for: a block of which it finds nothing for any entry of the query need not be indexed.  The
  theory joins the queries of \<^verbatim>\<open>fetch.service.ts\<close> with the indexing of \<^verbatim>\<open>indexer.manager.ts\<close> and the filters of
  \<^verbatim>\<open>utils/cosmos.ts\<close>.  The dictionary itself is a service outside the repository, and so is the inherited
  \<^verbatim>\<open>indexData\<close> of node-core: both are parameters, with what the code relies on as the assumptions of two locales.
\<close>

section \<open>Handlers and items\<close>

text \<open>The input of \<^verbatim>\<open>FilterTypeMap\<close> for an item and the filter of a handler of its kind.\<close>

fun handlerInput :: "item \<Rightarrow> handler_filter option \<Rightarrow> handler_input option" where
  "handlerInput (IBlock b) None = Some (BlockHandlerInput b None)"
| "handlerInput (IBlock b) (Some (BlockFilter f)) = Some (BlockHandlerInput b (Some f))"
| "handlerInput (ITransaction t) None = Some (TransactionHandlerInput t None)"
| "handlerInput (ITransaction t) (Some (TxFilter f)) = Some (TransactionHandlerInput t (Some f))"
| "handlerInput (IMessage m) None = Some (MessageHandlerInput m None)"
| "handlerInput (IMessage m) (Some (MessageFilter f)) = Some (MessageHandlerInput m (Some f))"
| "handlerInput (IEvent e) None = Some (EventHandlerInput e None)"
| "handlerInput (IEvent e) (Some (EventFilter f)) = Some (EventHandlerInput e (Some f))"
| "handlerInput it _ = None"

fun itemKind :: "item \<Rightarrow> CosmosHandlerKind" where
  "itemKind (IBlock b) = Block"
| "itemKind (ITransaction t) = Transaction"
| "itemKind (IMessage m) = Message"
| "itemKind (IEvent e) = Event"

text \<open>The verdict of a handler's filter; a filter of another kind of handler has none.\<close>

definition verdict :: "value_lib \<Rightarrow> item \<Rightarrow> CosmosHandler \<Rightarrow> bool result option" where
  "verdict L it h = map_option (FilterTypeMap L) (handlerInput it (handler_filter h))"

definition kindHandlers :: "CosmosHandlerKind \<Rightarrow> CosmosDatasource \<Rightarrow> CosmosHandler list" where
  "kindHandlers k ds = filter (\<lambda>h. kind h = kindValue k) (handlers (mapping ds))"

text \<open>
  The contract of \<^verbatim>\<open>indexData\<close> for runtime data sources: it does nothing when the filters of all handlers of the kind
  reject the item.
\<close>

locale runtime_indexing =
  fixes indexData :: "(CosmosDatasource, 'w) index_data" and L :: value_lib
  assumes rejected: "isRuntimeCosmosDs ds \<Longrightarrow> \<forall>h \<in> set (kindHandlers k ds). verdict L it h = Some (Inr False) \<Longrightarrow>
    indexData k it ds w = Inr w"
begin

lemma item_rejected:
  assumes "\<forall>ds \<in> set dss. isRuntimeCosmosDs ds \<and> (\<forall>h \<in> set (kindHandlers k ds). verdict L it h = Some (Inr False))"
  shows "indexItem indexData dss (k, it) w = Inr w"
  using assms unfolding indexItem_def by (induction dss) (simp_all add: rejected)

lemma items_rejected:
  assumes "\<forall>ki \<in> set items. \<forall>ds \<in> set dss.
    isRuntimeCosmosDs ds \<and> (\<forall>h \<in> set (kindHandlers (fst ki) ds). verdict L (snd ki) h = Some (Inr False))"
  shows "rfold (indexItem indexData dss) items w = Inr w"
  using assms
proof (induction items)
  case (Cons ki items)
  then show ?case using item_rejected [of dss "fst ki" "snd ki" w] by simp
qed simp

end

text \<open>An \<^verbatim>\<open>indexData\<close> that runs the accepting handlers in order.\<close>

definition runHandler ::
    "value_lib \<Rightarrow> (CosmosHandler \<Rightarrow> item \<Rightarrow> 'w \<Rightarrow> 'w result) \<Rightarrow> item \<Rightarrow> CosmosHandler \<Rightarrow> 'w \<Rightarrow> 'w result" where
  "runHandler L run it h w =
     (case verdict L it h of
        None \<Rightarrow> throwTypeError ''filter of another kind''
      | Some r \<Rightarrow> rbind r (\<lambda>b. if b then run h it w else Inr w))"

definition runHandlers ::
    "value_lib \<Rightarrow> (CosmosHandler \<Rightarrow> item \<Rightarrow> 'w \<Rightarrow> 'w result) \<Rightarrow> (CosmosDatasource, 'w) index_data" where
  "runHandlers L run k it ds w = rfold (runHandler L run it) (kindHandlers k ds) w"

lemma runHandlers_rejected:
  "\<forall>h \<in> set hs. verdict L it h = Some (Inr False) \<Longrightarrow> rfold (runHandler L run it) hs w = Inr w"
  by (induction hs) (simp_all add: runHandler_def)

interpretation run_handlers: runtime_indexing "runHandlers L run" L for L run
  by unfold_locales (simp add: runHandlers_def runHandlers_rejected)

section \<open>The dictionary\<close>

definition payload :: "CosmosMessage \<Rightarrow> js" where
  "payload m = (case decoded m of Inl e \<Rightarrow> JUndefined | Inr d \<Rightarrow> d)"

text \<open>
  The conditions of an entry that a message or an event meets: \<^verbatim>\<open>equalTo\<close> on its type or on the type of its message,
  \<^verbatim>\<open>contains\<close> on the data of the message.
\<close>

definition messageMeets :: "CosmosMessage \<Rightarrow> DictionaryQueryCondition \<Rightarrow> bool" where
  "messageMeets m c \<longleftrightarrow>
     c = \<lparr>field = ''type'', cond_value = JStr (typeUrl m), matcher = ''equalTo''\<rparr> \<or>
     field c = ''data'' \<and> matcher c = ''contains'' \<and> jsonContains (payload m) (cond_value c)"

definition eventMeets :: "CosmosEvent \<Rightarrow> DictionaryQueryCondition \<Rightarrow> bool" where
  "eventMeets e c \<longleftrightarrow>
     c = \<lparr>field = ''type'', cond_value = JStr (event_type (event e)), matcher = ''equalTo''\<rparr> \<or>
     (case event_msg e of
        None \<Rightarrow> False
      | Some m \<Rightarrow>
          c = \<lparr>field = ''msgType'', cond_value = JStr (typeUrl m), matcher = ''equalTo''\<rparr> \<or>
          field c = ''data'' \<and> matcher c = ''contains'' \<and> jsonContains (payload m) (cond_value c))"

text \<open>
  The contract of a dictionary: \<open>finds q it\<close> says that the answer to the entry \<open>q\<close> names the block of the item.  A
  complete dictionary finds every message and every event that meets all conditions of an entry on its entity; what
  else it finds is left open.
\<close>

locale complete_dictionary =
  fixes finds :: "DictionaryQueryEntry \<Rightarrow> item \<Rightarrow> bool"
  assumes finds_messages: "entity q = ''messages'' \<Longrightarrow> (\<And>c. c \<in> set (conditions q) \<Longrightarrow> messageMeets m c) \<Longrightarrow> finds q (IMessage m)"
    and finds_events: "entity q = ''events'' \<Longrightarrow> (\<And>c. c \<in> set (conditions q) \<Longrightarrow> eventMeets e c) \<Longrightarrow> finds q (IEvent e)"
begin

lemma finds_represented:
  assumes "entity q' = entity q" and "set (conditions q') = set (conditions q)"
  shows "entity q = ''messages'' \<Longrightarrow> (\<And>c. c \<in> set (conditions q) \<Longrightarrow> messageMeets m c) \<Longrightarrow> finds q' (IMessage m)"
    and "entity q = ''events'' \<Longrightarrow> (\<And>c. c \<in> set (conditions q) \<Longrightarrow> eventMeets e c) \<Longrightarrow> finds q' (IEvent e)"
  using finds_messages [of q'] finds_events [of q'] assms by simp_all

end

text \<open>A dictionary that finds these and nothing else.\<close>

fun exactDictionary :: "DictionaryQueryEntry \<Rightarrow> item \<Rightarrow> bool" where
  "exactDictionary q (IMessage m) = (entity q = ''messages'' \<and> list_all (messageMeets m) (conditions q))"
| "exactDictionary q (IEvent e) = (entity q = ''events'' \<and> list_all (eventMeets e) (conditions q))"
| "exactDictionary q _ = False"

interpretation exact_dictionary: complete_dictionary exactDictionary
  by unfold_locales (simp_all add: list_all_iff)

text \<open>The conditions of a message filter's entry hold of the messages the filter matches, and likewise for events.\<close>

context query_library
begin

lemma matched_message_meets:
  assumes "plainFilter f" and "ownValues f (JObj dk)" and "decoded m = Inr (JObj dk)" and "messageMatches f m"
    and "c \<in> set (conditions (messageFilterToQueryEntry Q f))"
  shows "messageMeets m c"
proof -
  have "filter_type f = Some (typeUrl m)" using assms(4) by (simp add: messageMatches_def)
  moreover have "payload m = JObj dk" using assms(3) by (simp add: payload_def)
  ultimately show ?thesis using assms(5) data_contained [OF assms(2-4)]
    by (cases "filter_values f") (auto simp: messageEntry_conditions [OF assms(1)] messageMeets_def typeValue_def)
qed

lemma matched_event_meets:
  assumes "eventMatches ef e"
    and "\<And>mf m. messageFilter ef = Some mf \<Longrightarrow> event_msg e = Some m \<Longrightarrow>
      plainFilter mf \<and> (\<exists>dk. ownValues mf (JObj dk) \<and> decoded m = Inr (JObj dk))"
    and "c \<in> set (conditions (eventFilterToQueryEntry Q ef))"
  shows "eventMeets e c"
proof (cases "messageFilter ef")
  case None
  with assms(1,3) show ?thesis
    by (simp add: eventFilterToQueryEntry_def eventMeets_def typeValue_def eventMatches_def)
next
  case (Some mf)
  then obtain m where m: "event_msg e = Some m" "messageMatches mf m"
    using assms(1) by (auto simp: eventMatches_def split: option.splits)
  then obtain dk where dk: "plainFilter mf" "ownValues mf (JObj dk)" "decoded m = Inr (JObj dk)"
    using assms(2) [OF Some] by blast
  have t: "event_filter_type ef = Some (event_type (event e))" using assms(1) by (simp add: eventMatches_def)
  from assms(3) consider "c = \<lparr>field = ''type'', cond_value = JStr (event_type (event e)), matcher = ''equalTo''\<rparr>"
    | c' where "c' \<in> set (conditions (messageFilterToQueryEntry Q mf))"
        "c = (if field c' = ''type'' then c'\<lparr>field := ''msgType''\<rparr> else c')"
    by (auto simp: eventFilterToQueryEntry_def Some t typeValue_def)
  then show ?thesis
  proof cases
    case 2
    then show ?thesis using matched_message_meets [OF dk m(2) 2(1)] m(1)
      by (auto simp: messageMeets_def eventMeets_def)
  qed (simp add: eventMeets_def)
qed

end

section \<open>What is left out\<close>

text \<open>The message filters of a project, those of event filters included.\<close>

definition handlerMessageFilter :: "CosmosHandler \<Rightarrow> CosmosMessageFilter option" where
  "handlerMessageFilter h =
     (case handler_filter h of
        Some (MessageFilter f) \<Rightarrow> Some f
      | Some (EventFilter f) \<Rightarrow> messageFilter f
      | _ \<Rightarrow> None)"

definition projectFilters :: "CosmosDatasource list \<Rightarrow> CosmosMessageFilter list" where
  "projectFilters dss =
     List.map_filter handlerMessageFilter (concat (map (\<lambda>ds. handlers (mapping ds)) dss))"

text \<open>
  The message of an item is searchable if the filters that match it read own properties of a decoded object.  All
  handlers are for messages and events, with filters of their kind.
\<close>

fun itemMessage :: "item \<Rightarrow> CosmosMessage option" where
  "itemMessage (IMessage m) = Some m"
| "itemMessage (IEvent e) = event_msg e"
| "itemMessage _ = None"

definition searchable :: "CosmosDatasource list \<Rightarrow> item \<Rightarrow> bool" where
  "searchable dss it =
     (\<forall>m f. itemMessage it = Some m \<longrightarrow> f \<in> set (projectFilters dss) \<longrightarrow> messageMatches f m \<longrightarrow>
        (\<exists>dk. payload m = JObj dk) \<and> ownValues f (payload m))"

definition searchHandler :: "CosmosHandler \<Rightarrow> bool" where
  "searchHandler h =
     (kind h = kindValue Message \<and> (\<forall>hf. handler_filter h = Some hf \<longrightarrow> (\<exists>f. hf = MessageFilter f)) \<or>
      kind h = kindValue Event \<and> (\<forall>hf. handler_filter h = Some hf \<longrightarrow> (\<exists>f. hf = EventFilter f)))"

text \<open>An item of which the dictionary finds nothing, although it can be searched; its filters do not throw.\<close>

definition unlisted ::
    "(DictionaryQueryEntry \<Rightarrow> item \<Rightarrow> bool) \<Rightarrow> value_lib \<Rightarrow> CosmosDatasource list \<Rightarrow> DictionaryQueryEntry list \<Rightarrow> item \<Rightarrow> bool" where
  "unlisted finds L dss entries it =
     (searchable dss it \<and> (\<forall>q \<in> set entries. \<not> finds q it) \<and>
      (\<forall>ds \<in> set dss. \<forall>h \<in> set (kindHandlers (itemKind it) ds). \<forall>e. verdict L it h \<noteq> Some (Inl e)))"

section \<open>Lemmas\<close>

lemma schedule_kinds: "ki \<in> set (schedule b be txs ms evs ee) \<Longrightarrow> fst ki = itemKind (snd ki)"
  by (auto simp: schedule_def txItems_def messageItems_def eventItem_def)

lemma projectFilters_member:
  assumes "ds \<in> set dss" and "h \<in> set (handlers (mapping ds))" and "handlerMessageFilter h = Some f"
  shows "f \<in> set (projectFilters dss)"
proof -
  have "h \<in> set (concat (map (\<lambda>ds. handlers (mapping ds)) dss))" using assms(1, 2) by auto
  then show ?thesis using assms(3) unfolding projectFilters_def List.map_filter_def by force
qed

lemma payload_object: "payload m = JObj dk \<Longrightarrow> decoded m = Inr (JObj dk)"
  by (simp add: payload_def split: sum.splits)

text \<open>In a project that queries the dictionary every handler has a filter.\<close>

lemma asked_handler_filter:
  assumes "query_library Q" and "runtimeProject dss"
    and "buildDictionaryQueryEntries Q getPlugin dss = Inr entries" and "entries \<noteq> []"
    and "ds \<in> set dss" and "h \<in> set (handlers (mapping ds))"
  shows "\<exists>hf. handler_filter h = Some hf"
proof -
  obtain es where "handlerEntries Q getPlugin ds h = Inr (Some es)"
    using query_library.entry_asked [OF assms(1) assms(2) [unfolded runtimeProject_def] assms(3-6)] by blast
  moreover have "isRuntimeCosmosDs ds" using assms(2, 5) by (simp add: runtimeProject_def)
  ultimately show ?thesis by (cases "handler_filter h") (simp_all add: runtime_handlerEntries filterEntries_def)
qed

text \<open>An item that a handler accepts is found for an entry of the query.\<close>

lemma accepted_message_listed:
  assumes lib: "query_library Q" "value_library L" "complete_dictionary finds" and project: "runtimeProject dss"
    "buildDictionaryQueryEntries Q getPlugin dss = Inr entries" "entries \<noteq> []"
    and h: "ds \<in> set dss" "h \<in> set (handlers (mapping ds))" "kind h = kindValue Message" "searchHandler h"
    and "searchable dss (IMessage m)" and "verdict L (IMessage m) h = Some (Inr True)"
  shows "\<exists>q \<in> set entries. finds q (IMessage m)"
proof -
  obtain f where f: "handler_filter h = Some (MessageFilter f)"
    using asked_handler_filter [OF lib(1) project h(1, 2)] h(3, 4) by (auto simp: searchHandler_def)
  have m: "messageMatches f m"
    using assms(12) value_library.message_filter_iff [OF lib(2)] by (simp add: verdict_def f)
  have "f \<in> set (projectFilters dss)"
    by (rule projectFilters_member [OF h(1, 2)]) (simp add: handlerMessageFilter_def f)
  then obtain dk where dk: "payload m = JObj dk" "ownValues f (JObj dk)"
    using assms(11) m by (auto simp: searchable_def)
  have r: "isRuntimeCosmosDs ds" "plainFilter f"
    using project(1) h(1,2) f by (fastforce simp: runtimeProject_def plainHandler_def)+
  have "filter_type f \<noteq> None" using m by (simp add: messageMatches_def)
  then have "handlerEntries Q getPlugin ds h = Inr (Some [messageFilterToQueryEntry Q f])"
    using runtime_kind_entries [OF r(1) h(3) f] by (simp add: filterEntries_def)
  then obtain q where q: "q \<in> set entries" "entity q = entity (messageFilterToQueryEntry Q f)"
      "set (conditions q) = set (conditions (messageFilterToQueryEntry Q f))"
    using query_library.entry_asked [OF lib(1) project(1) [unfolded runtimeProject_def] project(2, 3) h(1, 2)] by auto
  have "finds q (IMessage m)"
    by (rule complete_dictionary.finds_represented(1) [OF lib(3) q(2, 3)])
      (simp add: messageFilterToQueryEntry_def,
       rule query_library.matched_message_meets [OF lib(1) r(2) dk(2) payload_object [OF dk(1)] m])
  with q(1) show ?thesis by blast
qed

lemma accepted_event_listed:
  assumes lib: "query_library Q" "value_library L" "complete_dictionary finds" and project: "runtimeProject dss"
    "buildDictionaryQueryEntries Q getPlugin dss = Inr entries" "entries \<noteq> []"
    and h: "ds \<in> set dss" "h \<in> set (handlers (mapping ds))" "kind h = kindValue Event" "searchHandler h"
    and "searchable dss (IEvent e)" and "verdict L (IEvent e) h = Some (Inr True)"
  shows "\<exists>q \<in> set entries. finds q (IEvent e)"
proof -
  obtain f where f: "handler_filter h = Some (EventFilter f)"
    using asked_handler_filter [OF lib(1) project h(1, 2)] h(3, 4) by (auto simp: searchHandler_def)
  have m: "eventMatches f e"
    using assms(12) filterEvent_True [OF lib(2)] by (simp add: verdict_def f)
  have r: "isRuntimeCosmosDs ds" using project(1) h(1) by (simp add: runtimeProject_def)
  have "event_filter_type f \<noteq> None" using m by (simp add: eventMatches_def)
  then have "handlerEntries Q getPlugin ds h = Inr (Some [eventFilterToQueryEntry Q f])"
    using runtime_kind_entries [OF r h(3) f] by (simp add: filterEntries_def)
  then obtain q where q: "q \<in> set entries" "entity q = entity (eventFilterToQueryEntry Q f)"
      "set (conditions q) = set (conditions (eventFilterToQueryEntry Q f))"
    using query_library.entry_asked [OF lib(1) project(1) [unfolded runtimeProject_def] project(2, 3) h(1, 2)] by auto
  have "plainFilter mf \<and> (\<exists>dk. ownValues mf (JObj dk) \<and> decoded msg = Inr (JObj dk))"
    if mf: "messageFilter f = Some mf" and msg: "event_msg e = Some msg" for mf msg
  proof -
    have "mf \<in> set (projectFilters dss)"
      by (rule projectFilters_member [OF h(1, 2)]) (simp add: handlerMessageFilter_def f mf)
    then obtain dk where "payload msg = JObj dk" "ownValues mf (JObj dk)"
      using assms(11) m mf msg by (auto simp: searchable_def eventMatches_def)
    moreover have "plainFilter mf" using project(1) h(1, 2) f mf by (fastforce simp: runtimeProject_def plainHandler_def)
    ultimately show ?thesis using payload_object by blast
  qed
  note meets = query_library.matched_event_meets [OF lib(1) m this]
  have "finds q (IEvent e)"
    by (rule complete_dictionary.finds_represented(2) [OF lib(3) q(2, 3)])
      (simp add: eventFilterToQueryEntry_def, rule meets)
  with q(1) show ?thesis by blast
qed

section \<open>Skipping a block\<close>

lemma unlisted_rejected:
  assumes "query_library Q" and "value_library L" and "complete_dictionary finds" and "runtimeProject dss"
    and "buildDictionaryQueryEntries Q getPlugin dss = Inr entries" and "entries \<noteq> []"
    and "\<forall>ds \<in> set dss. \<forall>h \<in> set (handlers (mapping ds)). searchHandler h"
    and "unlisted finds L dss entries it" and "ds \<in> set dss" and "h \<in> set (kindHandlers (itemKind it) ds)"
  shows "verdict L it h = Some (Inr False)"
proof -
  have h: "h \<in> set (handlers (mapping ds))" "kind h = kindValue (itemKind it)" "searchHandler h"
    using assms(7, 9, 10) by (auto simp: kindHandlers_def)
  obtain hf where hf: "handler_filter h = Some hf"
    using asked_handler_filter [OF assms(1, 4-6, 9) h(1)] by blast
  have "verdict L it h \<noteq> None" using h hf by (cases it) (auto simp: searchHandler_def verdict_def)
  moreover have "verdict L it h \<noteq> Some (Inl e)" for e using assms(8-10) by (auto simp: unlisted_def)
  moreover have "verdict L it h \<noteq> Some (Inr True)"
  proof
    assume v: "verdict L it h = Some (Inr True)"
    have "searchable dss it" using assms(8) by (simp add: unlisted_def)
    then have "\<exists>q \<in> set entries. finds q it"
    proof (cases it)
      case (IMessage m)
      with v h \<open>searchable dss it\<close> show ?thesis
        by (intro accepted_message_listed [OF assms(1-6, 9) h(1), of m, folded IMessage]) simp_all
    next
      case (IEvent e)
      with v h \<open>searchable dss it\<close> show ?thesis
        by (intro accepted_event_listed [OF assms(1-6, 9) h(1), of e, folded IEvent]) simp_all
    qed (use h in \<open>auto simp: searchHandler_def\<close>)
    with assms(8) show False unfolding unlisted_def by blast
  qed
  ultimately show ?thesis by (metis option.exhaust sum.exhaust)
qed

text \<open>
  Skipping a block of which the dictionary finds nothing loses nothing.  In a project of runtime data sources with
  handlers for messages and events, indexing such a block with any \<^verbatim>\<open>indexData\<close> that respects the filters returns and
  leaves the world as it was.
\<close>

theorem skipped_block_changes_nothing:
  assumes "query_library Q" and "value_library L" and "complete_dictionary finds"
    and "runtime_indexing indexData L" and "runtimeProject dss"
    and "buildDictionaryQueryEntries Q getPlugin dss = Inr entries" and "entries \<noteq> []"
    and "\<forall>ds \<in> set dss. \<forall>h \<in> set (handlers (mapping ds)). searchHandler h"
    and "eagerTxs J info res = Inr txs" and "eagerMessages J api info res = Inr ms"
    and "eagerEvents J api info res (length (eagerBegin J info res 0)) = Inr evs"
    and "\<And>off ki. ki \<in> set (schedule (eagerBlock J info res) (eagerBegin J info res 0) (map fst txs) ms evs
           (eagerEnd J info res off)) \<Longrightarrow> unlisted finds L dss entries (snd ki)"
  shows "\<exists>c'. \<forall>w. indexBlockData J api indexData dss (newLazyBlockContent info res, w) = Inr (c', w)"
proof -
  obtain off c' where run: "\<And>w. indexBlockData J api indexData dss (newLazyBlockContent info res, w) =
      rbind (rfold (indexItem indexData dss) (schedule (eagerBlock J info res) (eagerBegin J info res 0)
        (map fst txs) ms evs (eagerEnd J info res off)) w) (\<lambda>w'. Inr (c', w'))"
    using indexBlockData_schedule [OF assms(9-11), of indexData dss] by blast
  let ?sch = "schedule (eagerBlock J info res) (eagerBegin J info res 0) (map fst txs) ms evs (eagerEnd J info res off)"
  have "isRuntimeCosmosDs ds \<and> (\<forall>h \<in> set (kindHandlers (fst ki) ds). verdict L (snd ki) h = Some (Inr False))"
    if "ki \<in> set ?sch" and "ds \<in> set dss" for ki ds
    using unlisted_rejected [OF assms(1-3, 5-8, 12) that(2)] schedule_kinds [OF that(1)] that assms(5)
    by (auto simp: runtimeProject_def)
  then have "rfold (indexItem indexData dss) ?sch w = Inr w" for w
    by (intro runtime_indexing.items_rejected [OF assms(4)]) blast
  with run show ?thesis by auto
qed

text \<open>
  A block is quiet if its parts wrap and the dictionary finds none of the items of its schedule.  Indexing a fetched
  block starts from a new content and keeps the world.
\<close>

definition quietBlock ::
    "(DictionaryQueryEntry \<Rightarrow> item \<Rightarrow> bool) \<Rightarrow> cosmjs_lib \<Rightarrow> CosmosClient \<Rightarrow> value_lib \<Rightarrow> CosmosDatasource list \<Rightarrow> DictionaryQueryEntry list \<Rightarrow>
     BlockResponse \<times> BlockResultsResponse \<Rightarrow> bool" where
  "quietBlock finds J api L dss entries b \<longleftrightarrow>
     (\<exists>txs ms evs. eagerTxs J (fst b) (snd b) = Inr (txs :: tx_object list) \<and> eagerMessages J api (fst b) (snd b) = Inr ms \<and>
        eagerEvents J api (fst b) (snd b) (length (eagerBegin J (fst b) (snd b) 0)) = Inr evs \<and>
        (\<forall>off. \<forall>ki \<in> set (schedule (eagerBlock J (fst b) (snd b)) (eagerBegin J (fst b) (snd b) 0) (map fst txs) ms evs
           (eagerEnd J (fst b) (snd b) off)). unlisted finds L dss entries (snd ki)))"

definition indexFetched ::
    "cosmjs_lib \<Rightarrow> CosmosClient \<Rightarrow> (CosmosDatasource, 'w) index_data \<Rightarrow> CosmosDatasource list \<Rightarrow>
     BlockResponse \<times> BlockResultsResponse \<Rightarrow> 'w \<Rightarrow> 'w result" where
  "indexFetched J api indexData dss b w =
     rbind (indexBlockData J api indexData dss (newLazyBlockContent (fst b) (snd b), w)) (\<lambda>cw. Inr (snd cw))"

lemma rfold_filter:
  assumes "\<And>x s. x \<in> set xs \<Longrightarrow> \<not> P x \<Longrightarrow> f x s = Inr s"
  shows "rfold f (filter P xs) s = rfold f xs s"
  using assms
proof (induction xs arbitrary: s)
  case (Cons x xs)
  then have rest: "rfold f (filter P xs) = rfold f xs" by (intro ext) simp
  show ?case
  proof (cases "P x")
    case False
    with Cons.prems [of x s] rest show ?thesis by simp
  qed (simp add: rest)
qed simp

text \<open>
  C3: following a complete dictionary gives what indexing every block gives, under these conditions.  The project has
  runtime data sources with handlers for messages and events only, whose filters are of their kind, with plain keys
  and JSON values and with a type in the message filter of an event filter, and its query is not empty.  A block may be
  left out if its parts wrap and, of every item of its schedule, the dictionary finds nothing for any entry, no
  handler's filter throws, and the filters that match its message read own properties, none of them a \<^verbatim>\<open>Long\<close>, of a
  message that decodes to an object.  Then indexing the remaining blocks in order ends with the same world, or the
  same error, as indexing all of them, for every \<^verbatim>\<open>indexData\<close> that does nothing with an item all filters reject.
\<close>

theorem dictionary_sync_complete:
  assumes "query_library Q" and "value_library L" and "complete_dictionary finds"
    and "runtime_indexing indexData L" and "runtimeProject dss"
    and "buildDictionaryQueryEntries Q getPlugin dss = Inr entries" and "entries \<noteq> []"
    and "\<forall>ds \<in> set dss. \<forall>h \<in> set (handlers (mapping ds)). searchHandler h"
    and "\<And>b. b \<in> set blocks \<Longrightarrow> \<not> listed b \<Longrightarrow> quietBlock finds J api L dss entries b"
  shows "rfold (indexFetched J api indexData dss) (filter listed blocks) w =
    rfold (indexFetched J api indexData dss) blocks w"
proof (rule rfold_filter)
  fix b w
  assume "b \<in> set blocks" and "\<not> listed b"
  from assms(9) [OF this] obtain txs :: "tx_object list" and ms evs where
    quiet: "eagerTxs J (fst b) (snd b) = Inr txs" "eagerMessages J api (fst b) (snd b) = Inr ms"
      "eagerEvents J api (fst b) (snd b) (length (eagerBegin J (fst b) (snd b) 0)) = Inr evs"
    and items: "\<And>off ki. ki \<in> set (schedule (eagerBlock J (fst b) (snd b)) (eagerBegin J (fst b) (snd b) 0) (map fst txs)
      ms evs (eagerEnd J (fst b) (snd b) off)) \<Longrightarrow> unlisted finds L dss entries (snd ki)"
    unfolding quietBlock_def by blast
  have "\<exists>c'. \<forall>w. indexBlockData J api indexData dss (newLazyBlockContent (fst b) (snd b), w) = Inr (c', w)"
    by (rule skipped_block_changes_nothing [OF assms(1-8) quiet]) (rule items)
  then show "indexFetched J api indexData dss b w = Inr w" by (auto simp: indexFetched_def)
qed

lemma schedule_members:
  assumes "ki \<in> set (schedule b be txs ms evs ee)"
  shows "(\<forall>m. snd ki = IMessage m \<longrightarrow> m \<in> set ms) \<and> (\<forall>e. snd ki = IEvent e \<longrightarrow> e \<in> set be \<union> set evs \<union> set ee)"
  using assms by (auto simp: schedule_def txItems_def messageItems_def eventItem_def eventsOf_def)

definition stakingHandler :: CosmosHandler where
  "stakingHandler =
     \<lparr>kind = kindValue Message, handler = ''handleDelegate'',
      handler_filter = Some (MessageFilter \<lparr>includeFailedTx = False, filter_type = Some ''/cosmos.staking.v1beta1.MsgDelegate'',
        contractCall = None, filter_values = None\<rparr>)\<rparr>"

lemma sample_message_types:
  assumes "eagerMessages sampleLib (sampleClient swapText) sampleResponse sampleResults = Inr ms" and "m \<in> set ms"
  shows "typeUrl m \<noteq> ''/cosmos.staking.v1beta1.MsgDelegate''"
  using assms
  by (auto simp: eagerMessages_def eagerTxs_def wrapTx_def wrapOneTx_def sampleLib_def sampleResults_def
        sampleResponse_def eagerBlock_def wrapBlock_def wrapTxMsg_spec txMessages_def sample_defs messagesOf_def
        Let_def jsIndex_def newMessage_def sampleRaw_def transferRaw_def MsgExecuteContract_def)

lemma staking_project:
  "runtimeProject [runtimeDs [stakingHandler]] \<and> searchHandler stakingHandler \<and>
   (\<exists>e. buildDictionaryQueryEntries std_lodash noPlugin [runtimeDs [stakingHandler]] = Inr [e] \<and> entity e = ''messages'' \<and>
      \<lparr>field = ''type'', cond_value = JStr ''/cosmos.staking.v1beta1.MsgDelegate'', matcher = ''equalTo''\<rparr> \<in> set (conditions e))"
  by (simp add: dictionary_eval stakingHandler_def searchHandler_def buildDictionaryQueryEntries_def dsEntries_def
      runtime_handlerEntries handlerKinds_def filterEntries_def std_lodash_def messageFilterToQueryEntry_def typeValue_def)

text \<open>No item with messages of other types is listed for that project.\<close>

lemma staking_unlisted:
  assumes "entity q = ''messages''"
    and "\<lparr>field = ''type'', cond_value = JStr ''/cosmos.staking.v1beta1.MsgDelegate'', matcher = ''equalTo''\<rparr> \<in> set (conditions q)"
    and "\<And>m. itemMessage it = Some m \<Longrightarrow> typeUrl m \<noteq> ''/cosmos.staking.v1beta1.MsgDelegate''"
  shows "unlisted exactDictionary L [runtimeDs [stakingHandler]] [q] it"
proof -
  have "\<not> exactDictionary q it"
  proof
    assume found: "exactDictionary q it"
    then obtain m where "it = IMessage m" using assms(1) by (cases it) auto
    moreover from this found have "messageMeets m \<lparr>field = ''type'', cond_value = JStr ''/cosmos.staking.v1beta1.MsgDelegate'', matcher = ''equalTo''\<rparr>"
      using assms(2) by (auto simp: list_all_iff)
    ultimately show False using assms(3) by (auto simp: messageMeets_def)
  qed
  moreover have "searchable [runtimeDs [stakingHandler]] it"
    using assms(3) by (auto simp: searchable_def projectFilters_def List.map_filter_def handlerMessageFilter_def
        runtimeDs_def stakingHandler_def messageMatches_def)
  moreover have "verdict L it stakingHandler \<noteq> Some (Inl e)" for e
    using assms(3) by (cases it) (auto simp: verdict_def stakingHandler_def filterMessageData_def)
  ultimately show ?thesis by (auto simp: unlisted_def kindHandlers_def runtimeDs_def)
qed

lemma sample_quiet:
  "\<exists>q. buildDictionaryQueryEntries std_lodash noPlugin [runtimeDs [stakingHandler]] = Inr [q] \<and>
     quietBlock exactDictionary sampleLib (sampleClient swapText) std_value_lib [runtimeDs [stakingHandler]] [q]
       (sampleResponse, sampleResults)"
proof (rule sample_eager)
  fix txs ms evs
  assume t: "eagerTxs sampleLib sampleResponse sampleResults = Inr (txs :: tx_object list)"
    and m: "eagerMessages sampleLib (sampleClient swapText) sampleResponse sampleResults = Inr ms"
    and e: "eagerEvents sampleLib (sampleClient swapText) sampleResponse sampleResults
      (length (eagerBegin sampleLib sampleResponse sampleResults 0)) = Inr evs"
  obtain q where q: "buildDictionaryQueryEntries std_lodash noPlugin [runtimeDs [stakingHandler]] = Inr [q]"
      "entity q = ''messages''"
      "\<lparr>field = ''type'', cond_value = JStr ''/cosmos.staking.v1beta1.MsgDelegate'', matcher = ''equalTo''\<rparr> \<in> set (conditions q)"
    using staking_project by blast
  have located: "x \<in> set ms" if "ev \<in> set evs" and "event_msg ev = Some x" for ev x
    using wrapEvent_events [of "sampleClient swapText" "eagerBlock sampleLib sampleResponse sampleResults" txs ms sampleLib] that t m e
    by (auto simp: eagerMessages_def eagerEvents_def)
  have unattached: "event_msg ev = None"
    if "ev \<in> set (eagerBegin sampleLib sampleResponse sampleResults n) \<union> set (eagerEnd sampleLib sampleResponse sampleResults n')"
    for ev n n'
    using that by (auto simp: eagerBegin_def eagerEnd_def wrapBlockBeginAndEndEvents_def)
  have unlisted: "unlisted exactDictionary std_value_lib [runtimeDs [stakingHandler]] [q] (snd ki)"
    if ki: "ki \<in> set (schedule (eagerBlock sampleLib sampleResponse sampleResults)
      (eagerBegin sampleLib sampleResponse sampleResults 0) (map fst txs) ms evs
      (eagerEnd sampleLib sampleResponse sampleResults off))" for off ki
  proof -
    have "x \<in> set ms" if "itemMessage (snd ki) = Some x" for x
      using schedule_members [OF ki] that located unattached by (cases "snd ki") fastforce+
    then show ?thesis by (intro staking_unlisted [OF q(2, 3)] sample_message_types [OF m])
  qed
  have "quietBlock exactDictionary sampleLib (sampleClient swapText) std_value_lib [runtimeDs [stakingHandler]] [q]
      (sampleResponse, sampleResults)"
    unfolding quietBlock_def fst_conv snd_conv by (intro exI conjI allI ballI) (rule t m e unlisted, assumption?)+
  with q(1) show ?thesis by blast
qed

theorem dictionary_sync_complete_witness:
  "rfold (indexFetched sampleLib (sampleClient swapText) (runHandlers std_value_lib (\<lambda>h it n. Inr (Suc n)))
     [runtimeDs [stakingHandler]]) [(sampleResponse, sampleResults), (sampleResponse, sampleResults)] 7 = Inr (7 :: nat)"
proof -
  let ?b = "(sampleResponse, sampleResults)"
  obtain q where q: "buildDictionaryQueryEntries std_lodash noPlugin [runtimeDs [stakingHandler]] = Inr [q]"
    "quietBlock exactDictionary sampleLib (sampleClient swapText) std_value_lib [runtimeDs [stakingHandler]] [q] ?b"
    using sample_quiet by blast
  have "rfold (indexFetched sampleLib (sampleClient swapText) (runHandlers std_value_lib (\<lambda>h it n. Inr (Suc n)))
      [runtimeDs [stakingHandler]]) (filter (\<lambda>b. False) [?b, ?b]) (7 :: nat) =
    rfold (indexFetched sampleLib (sampleClient swapText) (runHandlers std_value_lib (\<lambda>h it n. Inr (Suc n)))
      [runtimeDs [stakingHandler]]) [?b, ?b] 7"
    by (rule dictionary_sync_complete [OF std_query.query_library_axioms std_values.value_library_axioms exact_dictionary.complete_dictionary_axioms
          run_handlers.runtime_indexing_axioms _ q(1)]) (use q staking_project in \<open>auto simp: runtimeDs_def\<close>)
  then show ?thesis by simp
qed

end
