(* ===== verification/Api.thy ===== *)
theory Api
  imports Block_Content
begin

text \<open>
  The rest of \<^verbatim>\<open>indexer/api.service.ts\<close>: the registry of message types that \<^verbatim>\<open>ApiService\<close> builds from the
  default types, the CosmWasm types and the chain types of the project, and the client of fixed
  height that handlers use.  The class \<^verbatim>\<open>Registry\<close> of cosmjs is a parameter with the contract \<open>type_registry\<close>;
  generated types are values of an arbitrary type.
\<close>

section \<open>Chain types\<close>

record CosmosChainType =
  messages :: "string list"
  packageName :: "string option"

text \<open>
  The chain types of a network in their order, with the lookup in the protobuf root, which throws
  for an unknown name.
\<close>

record 'g chain_types =
  type_entries :: "(string \<times> CosmosChainType) list"
  lookupTypeOrEnum :: "string \<Rightarrow> 'g result"

definition qualifiedName :: "string \<times> CosmosChainType \<Rightarrow> string \<Rightarrow> string" where
  "qualifiedName uc msg =
     (case packageName (snd uc) of None \<Rightarrow> fst uc | Some p \<Rightarrow> p) @ ''.'' @ msg"

definition addMessageType ::
    "'g chain_types \<Rightarrow> string \<times> CosmosChainType \<Rightarrow> string \<Rightarrow> (string \<times> 'g) list \<Rightarrow> (string \<times> 'g) list result" where
  "addMessageType ct uc msg res =
     rbind (lookupTypeOrEnum ct (qualifiedName uc msg)) (\<lambda>msgObj.
       Inr (setProp (''/'' @ qualifiedName uc msg) msgObj res))"

definition getChainType :: "'g chain_types option \<Rightarrow> (string \<times> 'g) list result" where
  "getChainType chaintypes =
     (case chaintypes of
        None \<Rightarrow> Inr []
      | Some ct \<Rightarrow> rfold (\<lambda>uc. rfold (addMessageType ct uc) (messages (snd uc))) (type_entries ct) [])"

section \<open>The registry\<close>

record ('r, 'g) registry_lib =
  newRegistry :: "(string \<times> 'g) list \<Rightarrow> 'r"
  register :: "string \<Rightarrow> 'g \<Rightarrow> 'r \<Rightarrow> 'r"
  lookupType :: "'r \<Rightarrow> string \<Rightarrow> 'g option"

definition wasmTypeNames :: "string list" where
  "wasmTypeNames =
     [''MsgClearAdmin'', ''MsgExecuteContract'', ''MsgMigrateContract'', ''MsgStoreCode'',
      ''MsgInstantiateContract'', ''MsgUpdateAdmin'']"

text \<open>The types of the package \<^verbatim>\<open>cosmjs-types\<close> by name.\<close>

definition wasmTypes :: "(string \<Rightarrow> 'g) \<Rightarrow> (string \<times> 'g) list" where
  "wasmTypes wasmType = map (\<lambda>n. (''/cosmwasm.wasm.v1.'' @ n, wasmType n)) wasmTypeNames"

definition buildRegistry ::
    "('r, 'g) registry_lib \<Rightarrow> (string \<times> 'g) list \<Rightarrow> (string \<Rightarrow> 'g) \<Rightarrow> 'g chain_types option \<Rightarrow> 'r result" where
  "buildRegistry R defaultRegistryTypes wasmType chaintypes =
     rbind (getChainType chaintypes) (\<lambda>types.
       Inr (foldl (\<lambda>registry (typeurl, t). register R typeurl t registry)
              (newRegistry R (defaultRegistryTypes @ wasmTypes wasmType)) types))"

section \<open>The client of fixed height\<close>

record IndexedTx =
  txIndex :: nat
  indexed_height :: int
  indexed_hash :: string
  indexed_code :: int
  rawLog :: string
  indexed_tx :: bytes
  indexed_gasUsed :: int
  indexed_gasWanted :: int
  indexed_events :: "StargateEvent list"

text \<open>A transaction of the answer to a search.\<close>

record TxSearchResult =
  found_index :: nat
  found_height :: int
  found_hash :: bytes
  found_result :: TxData
  found_tx :: bytes

record SafeBlock =
  safe_id :: string
  safe_version_block :: string
  safe_version_app :: string
  safe_height :: int
  safe_chainId :: string
  safe_time :: string
  safe_txs :: "bytes list"

text \<open>\<^verbatim>\<open>new Uint53(n).toString()\<close> and \<^verbatim>\<open>toRfc3339WithNanoseconds\<close> of cosmjs are parameters.\<close>

definition safeGetBlock ::
    "cosmjs_lib \<Rightarrow> (int \<Rightarrow> string result) \<Rightarrow> (int \<Rightarrow> string) \<Rightarrow> BlockResponse \<Rightarrow> SafeBlock result" where
  "safeGetBlock J uint53 toRfc3339 response =
     (let h = block_header (resp_block response) in
      rbind (uint53 (version_block h)) (\<lambda>vb.
      rbind (uint53 (version_app h)) (\<lambda>va.
        Inr \<lparr>safe_id = toUpperCase (toHex J (hash (resp_blockId response))),
             safe_version_block = vb, safe_version_app = va, safe_height = height h,
             safe_chainId = chainId h, safe_time = toRfc3339 (header_time h),
             safe_txs = block_txs (resp_block response)\<rparr>)))"

definition indexedTx :: "cosmjs_lib \<Rightarrow> TxSearchResult \<Rightarrow> IndexedTx" where
  "indexedTx J tx =
     \<lparr>txIndex = found_index tx, indexed_height = found_height tx,
      indexed_hash = toUpperCase (toHex J (found_hash tx)),
      indexed_code = code (found_result tx),
      rawLog = (case tx_log (found_result tx) of None \<Rightarrow> [] | Some l \<Rightarrow> l),
      indexed_tx = found_tx tx,
      indexed_gasUsed = gasUsed (found_result tx), indexed_gasWanted = gasWanted (found_result tx),
      indexed_events = map (\<lambda>evt. \<lparr>event_type = tm_type evt, attributes = tm_attributes evt\<rparr>) (tx_events (found_result tx))\<rparr>"

definition safeTxsQuery :: "cosmjs_lib \<Rightarrow> (string \<Rightarrow> TxSearchResult list promise) \<Rightarrow> string \<Rightarrow> IndexedTx list promise" where
  "safeTxsQuery J txSearchAll query = promiseThen (txSearchAll query) (\<lambda>txs. Inr (map (indexedTx J) txs))"

definition searchTx :: "cosmjs_lib \<Rightarrow> (string \<Rightarrow> TxSearchResult list promise) \<Rightarrow> int \<Rightarrow> IndexedTx list promise" where
  "searchTx J txSearchAll h = safeTxsQuery J txSearchAll (''tx.height='' @ numberToString h)"

section \<open>Lookups in the registry\<close>

locale type_registry =
  fixes R :: "('r, 'g) registry_lib"
  assumes lookup_new: "lookupType R (newRegistry R types) u = map_of (rev types) u"
    and lookup_register: "lookupType R (register R t g r) u = (if u = t then Some g else lookupType R r u)"
begin

lemma lookup_registered:
  "lookupType R (foldl (\<lambda>r (t, g). register R t g r) r types) u =
     (case map_of (rev types) u of Some g \<Rightarrow> Some g | None \<Rightarrow> lookupType R r u)"
  by (induction types arbitrary: r) (auto simp: lookup_register map_add_def split: option.splits)

end

text \<open>Registries as lists of bindings, the last binding of a name first.\<close>

definition std_registry :: "((string \<times> 'g) list, 'g) registry_lib" where
  "std_registry = \<lparr>newRegistry = rev, register = (\<lambda>t g r. (t, g) # r), lookupType = map_of\<rparr>"

interpretation std_registry: type_registry std_registry
  by unfold_locales (simp_all add: std_registry_def)

lemma addMessageType_Inr:
  "addMessageType ct uc msg res = Inr r \<longleftrightarrow>
   (\<exists>g. lookupTypeOrEnum ct (qualifiedName uc msg) = Inr g \<and> r = setProp (''/'' @ qualifiedName uc msg) g res)"
  by (auto simp: addMessageType_def rbind_Inr_iff)

lemma addMessageTypes_map:
  assumes "rfold (addMessageType ct uc) msgs res = Inr types"
  shows "map_of types u =
    (if u \<in> (\<lambda>msg. ''/'' @ qualifiedName uc msg) ` set msgs
     then Some (projr (lookupTypeOrEnum ct (tl u))) else map_of res u) \<and>
    (\<forall>msg \<in> set msgs. \<exists>g. lookupTypeOrEnum ct (qualifiedName uc msg) = Inr g)"
  using assms
proof (induction msgs arbitrary: res)
  case (Cons msg msgs)
  obtain g where g: "lookupTypeOrEnum ct (qualifiedName uc msg) = Inr g"
    and r: "rfold (addMessageType ct uc) msgs (setProp (''/'' @ qualifiedName uc msg) g res) = Inr types"
    using Cons.prems by (auto simp: addMessageType_Inr rbind_Inr_iff)
  from Cons.IH [OF r] g show ?case by (auto simp: map_of_setProp)
qed simp

text \<open>The type URLs a project declares.\<close>

definition declaredUrls :: "'g chain_types \<Rightarrow> string set" where
  "declaredUrls ct = (\<Union>uc \<in> set (type_entries ct). (\<lambda>msg. ''/'' @ qualifiedName uc msg) ` set (messages (snd uc)))"

lemma getChainType_map:
  assumes "getChainType (Some ct) = Inr types"
  shows "map_of types u = (if u \<in> declaredUrls ct then Some (projr (lookupTypeOrEnum ct (tl u))) else None)"
proof -
  have "map_of types u =
      (if u \<in> (\<Union>uc \<in> set ucs. (\<lambda>msg. ''/'' @ qualifiedName uc msg) ` set (messages (snd uc)))
       then Some (projr (lookupTypeOrEnum ct (tl u))) else map_of res u)"
    if "rfold (\<lambda>uc. rfold (addMessageType ct uc) (messages (snd uc))) ucs res = Inr types" for ucs res
    using that
  proof (induction ucs arbitrary: res)
    case (Cons uc ucs)
    then obtain mid where m: "rfold (addMessageType ct uc) (messages (snd uc)) res = Inr mid"
      and r: "rfold (\<lambda>uc. rfold (addMessageType ct uc) (messages (snd uc))) ucs mid = Inr types"
      by (auto simp: rbind_Inr_iff)
    from Cons.IH [OF r] addMessageTypes_map [OF m, of u] show ?case by auto
  qed simp
  from this [of "type_entries ct" "[]"] assms show ?thesis by (simp add: getChainType_def declaredUrls_def)
qed

lemma getChainType_found:
  assumes "getChainType (Some ct) = Inr types" and "u \<in> declaredUrls ct"
  shows "\<exists>g. lookupTypeOrEnum ct (tl u) = Inr g"
proof -
  have "\<exists>g. lookupTypeOrEnum ct (tl u) = Inr g"
    if "rfold (\<lambda>uc. rfold (addMessageType ct uc) (messages (snd uc))) ucs res = Inr types"
      and "u \<in> (\<Union>uc \<in> set ucs. (\<lambda>msg. ''/'' @ qualifiedName uc msg) ` set (messages (snd uc)))" for ucs res
    using that
  proof (induction ucs arbitrary: res)
    case (Cons uc ucs)
    then obtain mid where m: "rfold (addMessageType ct uc) (messages (snd uc)) res = Inr mid"
      and r: "rfold (\<lambda>uc. rfold (addMessageType ct uc) (messages (snd uc))) ucs mid = Inr types"
      by (auto simp: rbind_Inr_iff)
    from Cons.IH [OF r] addMessageTypes_map [OF m, of u] Cons.prems(2) show ?case by auto
  qed simp
  from this [of "type_entries ct" "[]"] assms show ?thesis by (simp add: getChainType_def declaredUrls_def)
qed

lemma keys_setProp: "distinct (map fst kvs) \<Longrightarrow> distinct (map fst (setProp k v kvs))"
proof (induction k v kvs rule: setProp.induct)
  case (2 k v k' v' kvs)
  then show ?case using fst_set_setProp [of k v kvs] by auto
qed simp

lemma getChainType_distinct:
  assumes "getChainType (Some ct) = Inr types"
  shows "distinct (map fst types)"
proof -
  have inner: "distinct (map fst res) \<Longrightarrow> rfold (addMessageType ct uc) msgs res = Inr r \<Longrightarrow> distinct (map fst r)" for uc msgs res r
    by (induction msgs arbitrary: res) (auto simp: rbind_Inr_iff addMessageType_Inr, metis keys_setProp)
  have "distinct (map fst res) \<Longrightarrow>
      rfold (\<lambda>uc. rfold (addMessageType ct uc) (messages (snd uc))) ucs res = Inr r \<Longrightarrow> distinct (map fst r)" for ucs res r
    by (induction ucs arbitrary: res) (auto simp: rbind_Inr_iff dest: inner)
  from this [of "[]" "type_entries ct" types] assms show ?thesis by (simp add: getChainType_def)
qed

lemma buildRegistry_lookup:
  assumes "type_registry R" and "buildRegistry R defaults wasmType (Some ct) = Inr registry"
  shows "(u \<in> declaredUrls ct \<longrightarrow> (\<exists>g. lookupTypeOrEnum ct (tl u) = Inr g \<and> lookupType R registry u = Some g)) \<and>
    (u \<notin> declaredUrls ct \<longrightarrow> lookupType R registry u = map_of (rev (defaults @ wasmTypes wasmType)) u)"
proof -
  obtain types where t: "getChainType (Some ct) = Inr types"
    and r: "registry = foldl (\<lambda>r (t, g). register R t g r) (newRegistry R (defaults @ wasmTypes wasmType)) types"
    using assms(2) by (auto simp: buildRegistry_def rbind_Inr_iff)
  have "map_of (rev types) u = map_of types u"
    using getChainType_distinct [OF t]
    by (metis distinct_rev map_of_eq_Some_iff not_None_eq rev_map set_rev)
  then have "lookupType R registry u =
      (case map_of types u of Some g \<Rightarrow> Some g | None \<Rightarrow> map_of (rev (defaults @ wasmTypes wasmType)) u)"
    by (simp add: r type_registry.lookup_registered [OF assms(1)] type_registry.lookup_new [OF assms(1)] split: option.split)
  then show ?thesis
    using getChainType_map [OF t, of u] getChainType_found [OF t, of u] by auto
qed

text \<open>
  The registry resolves every type URL the project's chain types declare to the protobuf type of that
  qualified name, which exists, and every other URL as the default types extended by the CosmWasm types do.
\<close>

theorem buildRegistry_resolves:
  assumes "type_registry R" and "buildRegistry R defaults wasmType (Some ct) = Inr registry"
  shows "(u \<in> declaredUrls ct \<longrightarrow> (\<exists>g. lookupTypeOrEnum ct (tl u) = Inr g \<and> lookupType R registry u = Some g)) \<and>
    (u \<notin> declaredUrls ct \<longrightarrow> lookupType R registry u = map_of (rev (defaults @ wasmTypes wasmType)) u)"
  using assms by (rule buildRegistry_lookup)

definition ethermintTypes :: "string chain_types" where
  "ethermintTypes =
     \<lparr>type_entries = [(''evm'', \<lparr>messages = [''MsgEthereumTx''], packageName = Some ''ethermint.evm.v1''\<rparr>)],
      lookupTypeOrEnum = (\<lambda>n. if n = ''ethermint.evm.v1.MsgEthereumTx'' then Inr ''EthereumTx'' else throwError n)\<rparr>"

theorem buildRegistry_resolves_witness:
  "\<exists>registry. buildRegistry std_registry [] id (Some ethermintTypes) = Inr registry \<and>
     lookupType std_registry registry ''/ethermint.evm.v1.MsgEthereumTx'' = Some ''EthereumTx''"
proof -
  obtain registry where r: "buildRegistry std_registry [] id (Some ethermintTypes) = Inr registry"
    by (simp add: buildRegistry_def getChainType_def addMessageType_def ethermintTypes_def qualifiedName_def)
  have "''/ethermint.evm.v1.MsgEthereumTx'' \<in> declaredUrls ethermintTypes"
    by (simp add: declaredUrls_def ethermintTypes_def qualifiedName_def)
  with buildRegistry_resolves [OF std_registry.type_registry_axioms r, of "''/ethermint.evm.v1.MsgEthereumTx''"] r
  show ?thesis by (auto simp: ethermintTypes_def)
qed

end
