(* ===== verification/Connection.thy ===== *)
theory Connection
  imports Api
begin

text \<open>
  The connection of an endpoint: \<^verbatim>\<open>indexer/cosmosClient.connection.ts\<close> and the HTTP client of
  \<^verbatim>\<open>indexer/rpc-clients/HttpClient.ts\<close>.  The parsing of URLs, the HTTP transport, the JSON-RPC functions
  of cosmjs and \<^verbatim>\<open>JSON.stringify\<close> are parameters.
\<close>

section \<open>Classification of errors\<close>

datatype ApiErrorType = ConnectionErr | TimeoutErr | RateLimitErr | DefaultErr

record ApiConnectionError =
  api_name :: string
  api_message :: string
  errorType :: ApiErrorType

definition handleRateLimitError :: "js_error \<Rightarrow> ApiConnectionError" where
  "handleRateLimitError e = \<lparr>api_name = ''RateLimit'', api_message = err_message e, errorType = RateLimitErr\<rparr>"

definition handleTimeoutError :: "js_error \<Rightarrow> ApiConnectionError" where
  "handleTimeoutError e = \<lparr>api_name = ''TimeoutError'', api_message = err_message e, errorType = TimeoutErr\<rparr>"

definition handleDisconnectionError :: "js_error \<Rightarrow> ApiConnectionError" where
  "handleDisconnectionError e = \<lparr>api_name = ''ConnectionError'', api_message = err_message e, errorType = ConnectionErr\<rparr>"

definition oversizedText :: string where
  "oversizedText =
     ''Oversized RPC node response. This issue is related to the network's RPC nodes configuration, not your application. You may report it to the network's maintainers or try a different RPC node.''"

definition handleLargeResponseError :: "js_error \<Rightarrow> ApiConnectionError" where
  "handleLargeResponseError e =
     \<lparr>api_name = ''RpcInternalError'', api_message = oversizedText @ [CHR 0x0A, CHR 0x0A] @ err_message e,
      errorType = DefaultErr\<rparr>"

definition handleConnectionError :: "js_error \<Rightarrow> ApiConnectionError" where
  "handleConnectionError e =
     (if startsWith (err_message e) ''No response received from RPC endpoint in'' then handleTimeoutError e
      else if startsWith (err_message e) ''disconnected from '' then handleDisconnectionError e
      else if startsWith (err_message e) ''Request failed with status code 429'' then handleRateLimitError e
      else if jsIncludes (err_message e) ''Exceeded max limit of'' then handleLargeResponseError e
      else \<lparr>api_name = err_name e, api_message = err_message e, errorType = DefaultErr\<rparr>)"

section \<open>The HTTP client\<close>

datatype endpoint = UrlEndpoint string | HttpEndpoint string "(string \<times> string) list option"

record HttpClient =
  client_url :: string
  client_headers :: "(string \<times> string) list option"

definition hasProtocol :: "string \<Rightarrow> bool" where
  "hasProtocol url = (indexOf url ''://'' \<noteq> - 1)"

text \<open>
  The constructor.  \<^verbatim>\<open>searchParams\<close> gives the query parameters of a URL, or throws for an invalid one;
  an empty api key counts as none; assigning a header of undefined headers throws.
\<close>

definition newHttpClient :: "(string \<Rightarrow> (string \<rightharpoonup> string) result) \<Rightarrow> endpoint \<Rightarrow> HttpClient result" where
  "newHttpClient searchParams ep =
     (let url = (case ep of UrlEndpoint s \<Rightarrow> (if hasProtocol s then s else ''http://'' @ s) | HttpEndpoint u hs \<Rightarrow> u);
          headers = (case ep of UrlEndpoint s \<Rightarrow> None | HttpEndpoint u hs \<Rightarrow> hs)
      in rbind (searchParams url) (\<lambda>ps.
         (case ps ''apikey'' of
            Some key \<Rightarrow>
              (if key \<noteq> [] then
                 (case headers of
                    None \<Rightarrow> throwTypeError ''Cannot set properties of undefined (setting apikey)''
                  | Some hs \<Rightarrow>
                      Inr \<lparr>client_url = slice0 url (indexOf url ''?apikey''),
                           client_headers = Some (setProp ''apikey'' key hs)\<rparr>)
               else Inr \<lparr>client_url = url, client_headers = headers\<rparr>)
          | None \<Rightarrow> Inr \<lparr>client_url = url, client_headers = headers\<rparr>)))"

text \<open>A JSON-RPC response after parsing.\<close>

datatype rpc_response = RpcSuccess js | RpcError js

text \<open>\<^verbatim>\<open>execute\<close>: the transport and the parsing may throw; an error response is thrown as its JSON text.\<close>

definition httpExecute ::
    "(js \<Rightarrow> js promise) \<Rightarrow> (js \<Rightarrow> rpc_response result) \<Rightarrow> (js \<Rightarrow> string) \<Rightarrow> js \<Rightarrow> js promise" where
  "httpExecute post parseJsonRpcResponse stringifyJson request =
     promiseThen (post request) (\<lambda>data.
       rbind (parseJsonRpcResponse data) (\<lambda>response.
         (case response of RpcError err \<Rightarrow> throwError (stringifyJson err) | RpcSuccess r \<Rightarrow> Inr r)))"

section \<open>Connections\<close>

datatype rpc_client = Websocket string | Http HttpClient

text \<open>Either client parses its URL first, which throws for an invalid one.\<close>

definition newRpcClient ::
    "(string \<Rightarrow> (string \<rightharpoonup> string) result) \<Rightarrow> string \<Rightarrow> string \<Rightarrow> rpc_client result" where
  "newRpcClient searchParams packageVersion ep =
     (if jsIncludes ep ''ws://'' \<or> jsIncludes ep ''wss://'' then rbind (searchParams ep) (\<lambda>ps. Inr (Websocket ep))
      else rbind (newHttpClient searchParams
             (HttpEndpoint ep (Some [(''User-Agent'', ''SubQuery-Node '' @ packageVersion)])))
             (\<lambda>c. Inr (Http c)))"

record ('tm, 'reg) CosmosClientConnection =
  unsafeApi :: CosmosClient
  networkMeta_chain :: string
  tmClient :: 'tm
  conn_registry :: 'reg

text \<open>A client of fixed height over the Tendermint client of the connection.\<close>

record 'tm CosmosSafeClient =
  safe_tmClient :: 'tm
  safe_client_height :: int

text \<open>
  The Tendermint client of cosmjs over a transport, the inherited parts of \<^verbatim>\<open>CosmosClient\<close> and its request
  for the chain id are parameters.
\<close>

record ('tm, 'reg) client_lib =
  tendermintCreate :: "rpc_client \<Rightarrow> 'tm promise"
  newCosmosClient :: "'tm \<Rightarrow> 'reg \<Rightarrow> CosmosClient"
  getChainId :: "CosmosClient \<Rightarrow> string promise"

definition createConnection ::
    "('tm, 'reg) client_lib \<Rightarrow> (string \<Rightarrow> (string \<rightharpoonup> string) result) \<Rightarrow> string \<Rightarrow> string \<Rightarrow> 'reg \<Rightarrow>
     ('tm, 'reg) CosmosClientConnection promise" where
  "createConnection L searchParams packageVersion ep registry =
     promiseBind [newRpcClient searchParams packageVersion ep] (\<lambda>rpcClient.
     promiseBind (tendermintCreate L rpcClient) (\<lambda>tendermint.
       (let api = newCosmosClient L tendermint registry in
        promiseThen (getChainId L api) (\<lambda>cid.
          Inr \<lparr>unsafeApi = api, networkMeta_chain = cid, tmClient = tendermint, conn_registry = registry\<rparr>))))"

definition safeApi :: "('tm, 'reg) CosmosClientConnection \<Rightarrow> int \<Rightarrow> 'tm CosmosSafeClient" where
  "safeApi c h = \<lparr>safe_tmClient = tmClient c, safe_client_height = h\<rparr>"

definition apiConnect ::
    "('tm, 'reg) client_lib \<Rightarrow> ('tm, 'reg) CosmosClientConnection \<Rightarrow> ('tm, 'reg) CosmosClientConnection" where
  "apiConnect L c = c\<lparr>unsafeApi := newCosmosClient L (tmClient c) (conn_registry c)\<rparr>"

definition fetchBlocks :: "('tm, 'reg) CosmosClientConnection \<Rightarrow> int list \<Rightarrow> LazyBlockContent list promise" where
  "fetchBlocks c heights = fetchBlocksBatches (unsafeApi c) heights"

text \<open>
  \<^verbatim>\<open>ApiService.init\<close>: the registry is built first; then \<^verbatim>\<open>createConnections\<close> of node-core, a parameter, opens the
  connections of the network through the first callback and checks their chain with the second.  The result is the
  registry of the service and its pool.
\<close>

type_synonym ('tm, 'reg) create_connections =
  "string list \<Rightarrow> (string \<Rightarrow> ('tm, 'reg) CosmosClientConnection promise) \<Rightarrow>
   (('tm, 'reg) CosmosClientConnection \<Rightarrow> string promise) \<Rightarrow> ('tm, 'reg) CosmosClientConnection list promise"

definition apiInit ::
    "('tm, 'reg) create_connections \<Rightarrow> ('tm, 'reg) client_lib \<Rightarrow> (string \<Rightarrow> (string \<rightharpoonup> string) result) \<Rightarrow> string \<Rightarrow>
     'reg result \<Rightarrow> string list \<Rightarrow> ('reg \<times> ('tm, 'reg) CosmosClientConnection list) promise" where
  "apiInit createConnections L searchParams packageVersion built endpoints =
     promiseBind [built] (\<lambda>registry.
     promiseThen
       (createConnections endpoints
          (\<lambda>ep. createConnection L searchParams packageVersion ep registry)
          (\<lambda>connection. getChainId L (unsafeApi connection)))
       (\<lambda>pool. Inr (registry, pool)))"

text \<open>The validators at the height of a client; the query of the Tendermint client is a parameter.\<close>

record 'v ValidatorsResponse =
  response_validators :: "'v list"

definition safeValidators ::
    "('tm \<Rightarrow> int \<Rightarrow> 'v ValidatorsResponse promise) \<Rightarrow> 'tm CosmosSafeClient \<Rightarrow> 'v list promise" where
  "safeValidators validators c =
     promiseThen (validators (safe_tmClient c) (safe_client_height c)) (\<lambda>r. Inr (response_validators r))"

section \<open>The pool of connections\<close>

text \<open>What the service relies on: every connection of the pool was opened by the callback for an endpoint.\<close>

locale connection_pool =
  fixes createConnections :: "('tm, 'reg) create_connections"
  assumes opened: "Inr pool \<in> set (createConnections endpoints create chain) \<Longrightarrow> c \<in> set pool \<Longrightarrow>
    \<exists>ep \<in> set endpoints. Inr c \<in> set (create ep)"
begin

lemma pool_opened:
  assumes "Inr (registry, pool) \<in> set (apiInit createConnections L searchParams packageVersion built endpoints)"
    and "c \<in> set pool"
  shows "built = Inr registry"
    and "\<exists>ep \<in> set endpoints. Inr c \<in> set (createConnection L searchParams packageVersion ep registry)"
proof -
  have "built = Inr registry \<and> Inr pool \<in> set (createConnections endpoints
      (\<lambda>ep. createConnection L searchParams packageVersion ep registry) (\<lambda>connection. getChainId L (unsafeApi connection)))"
    using assms(1) by (cases built) (auto simp: apiInit_def promiseBind_Inr promiseThen_Inr)
  with opened [OF _ assms(2)] show "built = Inr registry"
    and "\<exists>ep \<in> set endpoints. Inr c \<in> set (createConnection L searchParams packageVersion ep registry)"
    by blast+
qed

end

text \<open>A pool that opens a connection for every endpoint at once.\<close>

definition openAll :: "('tm, 'reg) create_connections" where
  "openAll endpoints create chain = promiseAll (map create endpoints)"

interpretation all_open: connection_pool openAll
proof
  show "\<exists>ep \<in> set endpoints. Inr c \<in> set (create ep)"
    if "Inr pool \<in> set (openAll endpoints create chain)" and "c \<in> set pool"
    for pool endpoints and create :: "string \<Rightarrow> ('tm, 'reg) CosmosClientConnection promise"
      and chain :: "('tm, 'reg) CosmosClientConnection \<Rightarrow> string promise" and c
    using that by (fastforce simp: openAll_def promiseAll_Inr dest: list_all2_left_mem)
qed

section \<open>Properties\<close>

text \<open>
  The type of a connection error is decided by the message alone: timeouts, disconnections and rate
  limits are recognised by the start of the message, everything else is a default error; the message
  is kept, with a hint in front when it reports an oversized response.
\<close>

theorem connectionError_classified:
  "(errorType (handleConnectionError e) = TimeoutErr \<longleftrightarrow> startsWith (err_message e) ''No response received from RPC endpoint in'') \<and>
   (errorType (handleConnectionError e) = ConnectionErr \<longleftrightarrow> startsWith (err_message e) ''disconnected from '') \<and>
   (errorType (handleConnectionError e) = RateLimitErr \<longleftrightarrow> startsWith (err_message e) ''Request failed with status code 429'') \<and>
   (\<exists>p. api_message (handleConnectionError e) = p @ err_message e \<and>
      (p = [] \<or> p = oversizedText @ [CHR 0x0A, CHR 0x0A] \<and> jsIncludes (err_message e) ''Exceeded max limit of''))"
proof -
  have "\<not> (startsWith s ''No response received from RPC endpoint in'' \<and> startsWith s ''disconnected from '')"
    "\<not> (startsWith s ''No response received from RPC endpoint in'' \<and> startsWith s ''Request failed with status code 429'')"
    "\<not> (startsWith s ''disconnected from '' \<and> startsWith s ''Request failed with status code 429'')" for s
    by (auto simp: startsWith_iff)
  then show ?thesis
    by (auto simp: handleConnectionError_def handleTimeoutError_def handleDisconnectionError_def
        handleRateLimitError_def handleLargeResponseError_def)
qed

lemma indexOf_cases:
  obtains t k where "indexOf s p = int k" and "s = take k s @ p @ t"
  | "indexOf s p = - 1" and "\<not> jsIncludes s p"
proof (cases "indexOf s p = - 1")
  case False
  then have "0 \<le> indexOf s p" using indexOfFrom_range [of 0 s p] by (simp add: indexOf_def)
  then obtain k where k: "indexOf s p = int k" by (metis nonneg_int_cases)
  then obtain t where "s = take k s @ p @ t"
    using indexOfFrom_found [of 0 s p k] by (auto simp: indexOf_def)
  with k show ?thesis by (rule that(1))
qed (simp add: that(2) jsIncludes_def)

text \<open>
  A client for an endpoint with an api key sends the key as a header beside the given headers.  Its URL
  is the part before \<^verbatim>\<open>?apikey\<close>; when the key is not the first query parameter, the URL keeps the whole
  query and loses its last character.
\<close>

theorem httpClient_apikey:
  assumes "searchParams url = Inr ps" and "ps ''apikey'' = Some key" and "key \<noteq> []"
  shows "\<exists>c. newHttpClient searchParams (HttpEndpoint url (Some hs)) = Inr c \<and>
    (\<exists>hs'. client_headers c = Some hs' \<and> map_of hs' = (map_of hs)(''apikey'' \<mapsto> key)) \<and>
    (jsIncludes url ''?apikey'' \<longrightarrow> (\<exists>t. url = client_url c @ ''?apikey'' @ t)) \<and>
    (\<not> jsIncludes url ''?apikey'' \<longrightarrow> client_url c = butlast url)"
proof -
  let ?c = "\<lparr>client_url = slice0 url (indexOf url ''?apikey''), client_headers = Some (setProp ''apikey'' key hs)\<rparr>"
  have "newHttpClient searchParams (HttpEndpoint url (Some hs)) = Inr ?c"
    using assms by (simp add: newHttpClient_def)
  moreover have "(jsIncludes url ''?apikey'' \<longrightarrow> (\<exists>t. url = client_url ?c @ ''?apikey'' @ t)) \<and>
      (\<not> jsIncludes url ''?apikey'' \<longrightarrow> client_url ?c = butlast url)"
  proof (rule indexOf_cases [of url "''?apikey''"])
    fix t k assume "indexOf url ''?apikey'' = int k" "url = take k url @ ''?apikey'' @ t"
    then show ?thesis by (auto simp: slice0_def jsIncludes_def)
  next
    assume "indexOf url ''?apikey'' = - 1" "\<not> jsIncludes url ''?apikey''"
    moreover have "nat (int (length url) - 1) = length url - 1" by simp
    ultimately show ?thesis by (simp add: slice0_def butlast_conv_take)
  qed
  ultimately show ?thesis by (intro exI [of _ ?c]) (simp add: map_of_setProp)
qed

theorem httpClient_apikey_witness:
  "\<exists>c. newHttpClient (\<lambda>u. Inr [''chain'' \<mapsto> ''juno'', ''apikey'' \<mapsto> ''k1''])
       (HttpEndpoint ''https://a.io/rpc?chain=juno&apikey=k1'' (Some [])) = Inr c \<and>
     client_url c = ''https://a.io/rpc?chain=juno&apikey=k''"
proof -
  have "\<not> jsIncludes ''https://a.io/rpc?chain=juno&apikey=k1'' ''?apikey''"
    by (simp add: jsIncludes_def indexOf_def startsWith_def)
  with httpClient_apikey [of "\<lambda>u. Inr [''chain'' \<mapsto> ''juno'', ''apikey'' \<mapsto> ''k1'']"
      "''https://a.io/rpc?chain=juno&apikey=k1''" "[''chain'' \<mapsto> ''juno'', ''apikey'' \<mapsto> ''k1'']" "''k1''" "[]"]
  show ?thesis by auto
qed

text \<open>
  A connection serves its endpoint through the client it was made with; reconnecting gives the same client
  again.
\<close>

lemma createConnection_Inr:
  assumes "Inr c \<in> set (createConnection L searchParams packageVersion ep registry)"
  shows "unsafeApi c = newCosmosClient L (tmClient c) registry \<and> conn_registry c = registry \<and>
    Inr (networkMeta_chain c) \<in> set (getChainId L (unsafeApi c)) \<and>
    (\<exists>rpc. newRpcClient searchParams packageVersion ep = Inr rpc \<and> Inr (tmClient c) \<in> set (tendermintCreate L rpc))"
  using assms by (auto simp: createConnection_def Let_def promiseThen_Inr promiseBind_Inr dest: sym)

lemma apiConnect_created:
  assumes "Inr c \<in> set (createConnection L searchParams packageVersion ep registry)"
  shows "apiConnect L c = c"
  using createConnection_Inr [OF assms] by (simp add: apiConnect_def)

text \<open>A string endpoint without protocol is taken as an HTTP address.\<close>

lemma httpClient_default_protocol:
  assumes "\<not> hasProtocol s" and "searchParams (''http://'' @ s) = Inr ps" and "ps ''apikey'' = None"
  shows "newHttpClient searchParams (UrlEndpoint s) = Inr \<lparr>client_url = ''http://'' @ s, client_headers = None\<rparr>"
  using assms by (simp add: newHttpClient_def)

end
