(* ===== verification/Services.thy ===== *)
theory Services
  imports Connection Ds_Processor
begin

text \<open>
  The services around fetching and indexing: headers of unfinalized blocks
  (\<^verbatim>\<open>indexer/unfinalizedBlocks.service.ts\<close> and its worker variant), the heights and the interval of
  \<^verbatim>\<open>indexer/fetch.service.ts\<close>, the block dispatchers, the worker service and the timestamps of
  \<^verbatim>\<open>indexer/project.service.ts\<close>.  The base classes of node-core they extend are parameters; the locale
  \<open>indexing_worker\<close> is the contract of the base of worker services, under which indexing with and without workers agree.
\<close>

section \<open>Headers\<close>

text \<open>A height is a number, where \<open>None\<close> is NaN, the result of parsing a string without digits.\<close>

record BlockHeader =
  blockHeight :: "int option"
  blockHash :: string
  parentHash :: string

definition numberText :: "int option \<Rightarrow> string" where
  "numberText n = (case n of None \<Rightarrow> ''NaN'' | Some k \<Rightarrow> numberToString k)"

definition cosmosBlockToHeader :: "int option \<Rightarrow> BlockHeader" where
  "cosmosBlockToHeader h =
     \<lparr>blockHeight = h, blockHash = numberText h,
      parentHash = numberText (map_option (\<lambda>n. toDouble (n - 1)) h)\<rparr>"

definition blockToHeader :: "cosmjs_lib \<Rightarrow> LazyBlockContent \<Rightarrow> BlockHeader" where
  "blockToHeader J c = cosmosBlockToHeader (Some (height (header (fst (getBlock J c)))))"

definition getHeaderForHeight :: "int option \<Rightarrow> BlockHeader" where
  "getHeaderForHeight h = cosmosBlockToHeader h"

definition getHeaderForHash :: "string \<Rightarrow> BlockHeader" where
  "getHeaderForHash s = getHeaderForHeight (parseInt10 s)"

definition getFinalizedHead :: "int promise \<Rightarrow> BlockHeader promise" where
  "getFinalizedHead getHeight = promiseThen getHeight (\<lambda>h. Inr (getHeaderForHeight (Some h)))"

text \<open>
  The methods above are the bodies; the class decorates each with \<^verbatim>\<open>@mainThreadOnly()\<close>.  The decorator of node-core
  is a parameter: \<open>guard\<close> is what it makes of the outcome of a call.  A call through \<^verbatim>\<open>this\<close> is a call of the decorated
  method.
\<close>

definition guardedBlockToHeader :: "(BlockHeader result \<Rightarrow> BlockHeader result) \<Rightarrow> cosmjs_lib \<Rightarrow> LazyBlockContent \<Rightarrow> BlockHeader result" where
  "guardedBlockToHeader guard J c = guard (Inr (blockToHeader J c))"

definition guardedHeaderForHeight :: "(BlockHeader result \<Rightarrow> BlockHeader result) \<Rightarrow> int option \<Rightarrow> BlockHeader result" where
  "guardedHeaderForHeight guard h = guard (Inr (getHeaderForHeight h))"

definition guardedHeaderForHash :: "(BlockHeader result \<Rightarrow> BlockHeader result) \<Rightarrow> string \<Rightarrow> BlockHeader result" where
  "guardedHeaderForHash guard s = guard (guardedHeaderForHeight guard (parseInt10 s))"

definition guardedFinalizedHead :: "(BlockHeader result \<Rightarrow> BlockHeader result) \<Rightarrow> int promise \<Rightarrow> BlockHeader promise" where
  "guardedFinalizedHead guard getHeight =
     map guard (promiseThen getHeight (\<lambda>h. guardedHeaderForHeight guard (Some h)))"

text \<open>Where the decorator lets calls through, as in the main thread, the methods are their bodies.\<close>

lemma guarded_main_thread:
  assumes "\<And>r. guard r = r"
  shows "guardedBlockToHeader guard J c = Inr (blockToHeader J c)"
    and "guardedHeaderForHeight guard h = Inr (getHeaderForHeight h)"
    and "guardedHeaderForHash guard s = Inr (getHeaderForHash s)"
    and "guardedFinalizedHead guard getHeight = getFinalizedHead getHeight"
proof -
  have "guard = (\<lambda>r. r)" using assms by (rule ext)
  then show "guardedBlockToHeader guard J c = Inr (blockToHeader J c)"
    "guardedHeaderForHeight guard h = Inr (getHeaderForHeight h)"
    "guardedHeaderForHash guard s = Inr (getHeaderForHash s)"
    "guardedFinalizedHead guard getHeight = getFinalizedHead getHeight"
    by (simp_all add: guardedBlockToHeader_def guardedHeaderForHeight_def guardedHeaderForHash_def getHeaderForHash_def
        guardedFinalizedHead_def getFinalizedHead_def)
qed

text \<open>Where it throws, as in a worker, every call throws, whatever its body does.\<close>

lemma guarded_worker:
  assumes "\<And>r. guard r = Inl e"
  shows "guardedBlockToHeader guard J c = Inl e" and "guardedHeaderForHeight guard h = Inl e"
    and "guardedHeaderForHash guard s = Inl e" and "set (guardedFinalizedHead guard getHeight) \<subseteq> {Inl e}"
  using assms
  by (auto simp: guardedBlockToHeader_def guardedHeaderForHeight_def guardedHeaderForHash_def guardedFinalizedHead_def)

text \<open>The service of a worker: the host processes headers; everything else belongs to the main thread.\<close>

definition newWorkerUnfinalizedBlocksService :: "bool \<Rightarrow> 'host \<Rightarrow> 'host result" where
  "newWorkerUnfinalizedBlocksService isMainThread host =
     (if isMainThread then throwError ''Expected to be worker thread'' else Inr host)"

definition processUnfinalizedBlockHeader ::
    "(BlockHeader \<Rightarrow> int option promise) \<Rightarrow> BlockHeader \<Rightarrow> int option promise" where
  "processUnfinalizedBlockHeader unfinalizedBlocksProcess h = unfinalizedBlocksProcess h"

definition processUnfinalizedBlocks ::
    "(BlockHeader \<Rightarrow> int option promise) \<Rightarrow> cosmjs_lib \<Rightarrow> LazyBlockContent \<Rightarrow> int option promise" where
  "processUnfinalizedBlocks unfinalizedBlocksProcess J c =
     unfinalizedBlocksProcess (cosmosBlockToHeader (Some (height (header (fst (getBlock J c))))))"

datatype main_thread_method = Init | ResetUnfinalizedBlocks | ResetLastFinalizedVerifiedHeight | GetMetadataUnfinalizedBlocks

definition callFromWorker :: "main_thread_method \<Rightarrow> 'a result" where
  "callFromWorker meth = throwError ''This method should not be called from a worker''"

section \<open>Heights of the fetch service\<close>

text \<open>The finalized height is also registered with the service of unfinalized blocks, whose state is \<open>'u\<close>.\<close>

definition getFinalizedHeight :: "(BlockHeader \<Rightarrow> 'u \<Rightarrow> 'u) \<Rightarrow> int promise \<Rightarrow> 'u \<Rightarrow> (int \<times> 'u) promise" where
  "getFinalizedHeight registerFinalizedBlock getHeight u =
     promiseThen getHeight (\<lambda>h. Inr (h, registerFinalizedBlock (cosmosBlockToHeader (Some h)) u))"

definition getBestHeight :: "int promise \<Rightarrow> int promise" where
  "getBestHeight getHeight = getHeight"

text \<open>Times in milliseconds; the factor 0.9 is kept as nine tenths.\<close>

definition calcInterval :: int where
  "calcInterval = 6000"

definition getChainInterval :: int where
  "getChainInterval = min 5000 (calcInterval * 9 div 10)"

text \<open>\<^verbatim>\<open>getModulos\<close> of node-core reads the block handlers of the data sources that are not custom.\<close>

definition fetchModulos ::
    "(CosmosDatasource list \<Rightarrow> (CosmosDatasource \<Rightarrow> bool) \<Rightarrow> string \<Rightarrow> int list) \<Rightarrow> CosmosDatasource list \<Rightarrow> int list" where
  "fetchModulos getModulos allDataSources = getModulos allDataSources isCustomCosmosDs (kindValue Block)"

text \<open>
  The hash that the base service compares with a dictionary's comes from the metadata of a connection, where it is never
  set.
\<close>

definition networkMeta :: "('tm, 'reg) CosmosClientConnection \<Rightarrow> js" where
  "networkMeta conn =
     JObj [(''chain'', JStr (networkMeta_chain conn)), (''specName'', JUndefined), (''genesisHash'', JUndefined)]"

definition getGenesisHash :: "js \<Rightarrow> js result" where
  "getGenesisHash meta = jsGet meta ''genesisHash''"

lemma getGenesisHash_undefined: "getGenesisHash (networkMeta conn) = Inr JUndefined"
  by (simp add: getGenesisHash_def networkMeta_def)

text \<open>The dispatcher is initialised with the reset for new data sources; the hook before the loop does nothing.\<close>

definition initBlockDispatcher ::
    "((int \<Rightarrow> unit promise) \<Rightarrow> unit promise) \<Rightarrow> (int \<Rightarrow> unit promise) \<Rightarrow> unit promise" where
  "initBlockDispatcher dispatcherInit resetForNewDs = dispatcherInit resetForNewDs"

definition preLoopHook :: "unit promise" where
  "preLoopHook = [Inr ()]"

section \<open>Dispatchers and workers\<close>

definition getApi :: "cosmjs_lib \<Rightarrow> ('tm, 'reg) CosmosClientConnection \<Rightarrow> LazyBlockContent \<Rightarrow> 'tm CosmosSafeClient" where
  "getApi J conn c = safeApi conn (getBlockHeight J c)"

text \<open>
  \<^verbatim>\<open>internalIndexBlock\<close> of the base manager gets the content, the data sources and the client of the block's
  height; \<^verbatim>\<open>getDataSources\<close> of the base project service gives the data sources for a height.
\<close>

definition indexBlock ::
    "(LazyBlockContent \<Rightarrow> CosmosDatasource list \<Rightarrow> 'tm CosmosSafeClient \<Rightarrow> 'r promise) \<Rightarrow> cosmjs_lib \<Rightarrow>
     ('tm, 'reg) CosmosClientConnection \<Rightarrow> LazyBlockContent \<Rightarrow> CosmosDatasource list \<Rightarrow> 'r promise" where
  "indexBlock internalIndexBlock J conn c dataSources = internalIndexBlock c dataSources (getApi J conn c)"

definition dispatcherBlockHeight :: "cosmjs_lib \<Rightarrow> LazyBlockContent \<Rightarrow> int" where
  "dispatcherBlockHeight J c = height (block_header (block (fst (getBlock J c))))"

definition dispatchBlock ::
    "(LazyBlockContent \<Rightarrow> CosmosDatasource list \<Rightarrow> 'tm CosmosSafeClient \<Rightarrow> 'r promise) \<Rightarrow>
     (int \<Rightarrow> CosmosDatasource list promise) \<Rightarrow> cosmjs_lib \<Rightarrow> ('tm, 'reg) CosmosClientConnection \<Rightarrow>
     LazyBlockContent \<Rightarrow> 'r promise" where
  "dispatchBlock internalIndexBlock getDataSources J conn c =
     promiseBind (getDataSources (dispatcherBlockHeight J c)) (indexBlock internalIndexBlock J conn c)"

definition fetchChainBlock :: "('tm, 'reg) CosmosClientConnection \<Rightarrow> int \<Rightarrow> LazyBlockContent option promise" where
  "fetchChainBlock conn h = promiseThen (fetchBlocks conn [h]) (\<lambda>cs. Inr (case cs of [] \<Rightarrow> None | c # _ \<Rightarrow> Some c))"

definition processFetchedBlock ::
    "(LazyBlockContent \<Rightarrow> CosmosDatasource list \<Rightarrow> 'tm CosmosSafeClient \<Rightarrow> 'r promise) \<Rightarrow> cosmjs_lib \<Rightarrow>
     ('tm, 'reg) CosmosClientConnection \<Rightarrow> LazyBlockContent \<Rightarrow> CosmosDatasource list \<Rightarrow> 'r promise" where
  "processFetchedBlock internalIndexBlock J conn c dataSources = indexBlock internalIndexBlock J conn c dataSources"

text \<open>
  The dispatcher of a node with workers asks a worker for the block of a height and drops the response; the module of the
  fetch service chooses it exactly when the number of workers is configured, whatever the number.
\<close>

definition workerFetchBlock :: "(int \<Rightarrow> 'response promise) \<Rightarrow> int \<Rightarrow> unit promise" where
  "workerFetchBlock askWorker h = promiseThen (askWorker h) (\<lambda>response. Inr ())"

datatype dispatcher = BlockDispatcherService | WorkerBlockDispatcherService

definition chooseDispatcher :: "int option \<Rightarrow> dispatcher" where
  "chooseDispatcher workers = (if workers \<noteq> None then WorkerBlockDispatcherService else BlockDispatcherService)"

text \<open>
  What the dispatcher and the project service hand to their base classes: the function that fetches a batch, and the
  initialisations, whose bodies are node-core's; a change of the project has no effect.
\<close>

definition dispatcherFetch :: "('tm, 'reg) CosmosClientConnection \<Rightarrow> int list \<Rightarrow> LazyBlockContent list promise" where
  "dispatcherFetch conn blockNums = fetchBlocks conn blockNums"

definition dispatcherInit ::
    "((int \<Rightarrow> unit promise) \<Rightarrow> unit promise) \<Rightarrow> (int \<Rightarrow> unit promise) \<Rightarrow> unit promise" where
  "dispatcherInit superInit onDynamicDsCreated = promiseThen (superInit onDynamicDsCreated) (\<lambda>u. Inr ())"

definition projectInit :: "(int option \<Rightarrow> unit promise) \<Rightarrow> int option \<Rightarrow> unit promise" where
  "projectInit superInit startHeight = superInit startHeight"

definition onProjectChange :: "'project \<Rightarrow> unit promise" where
  "onProjectChange project = [Inr ()]"

text \<open>The testing service indexes a block with the data sources that have the handler under test.\<close>

definition testIndexBlock ::
    "(LazyBlockContent \<Rightarrow> CosmosDatasource list \<Rightarrow> 'tm CosmosSafeClient \<Rightarrow> 'r promise) \<Rightarrow>
     (string \<Rightarrow> CosmosDatasource list) \<Rightarrow> cosmjs_lib \<Rightarrow> ('tm, 'reg) CosmosClientConnection \<Rightarrow>
     LazyBlockContent \<Rightarrow> string \<Rightarrow> unit promise" where
  "testIndexBlock internalIndexBlock getDsWithHandler J conn c handlerName =
     promiseThen (indexBlock internalIndexBlock J conn c (getDsWithHandler handlerName)) (\<lambda>response. Inr ())"

text \<open>\<^verbatim>\<open>toString\<close> of a byte array writes its bytes in decimal, separated by commas.\<close>

definition bytesToString :: "bytes \<Rightarrow> string" where
  "bytesToString bs = joinWith '','' (map (\<lambda>b. digitsOf (unat b)) bs)"

definition toBlockResponse :: "cosmjs_lib \<Rightarrow> LazyBlockContent \<Rightarrow> string option" where
  "toBlockResponse J c = map_option (\<lambda>i. bytesToString (hash i)) (lastBlockId (header (fst (getBlock J c))))"

text \<open>The rendering of a time as RFC 3339 and its parsing to a date are parameters.\<close>

definition getBlockTimestamp :: "(int \<Rightarrow> string) \<Rightarrow> (string \<Rightarrow> 'date) \<Rightarrow> CosmosClient \<Rightarrow> int \<Rightarrow> 'date promise" where
  "getBlockTimestamp toRfc3339 newDate api h =
     promiseThen (blockInfo api h) (\<lambda>response.
       Inr (newDate (toRfc3339 (header_time (block_header (resp_block response))))))"

section \<open>Properties\<close>

text \<open>A number prints and parses back as long as doubles represent it exactly.\<close>

lemma getHeaderForHash_numberText:
  "\<bar>n\<bar> \<le> 2 ^ 53 \<Longrightarrow> getHeaderForHash (numberText (Some n)) = cosmosBlockToHeader (Some n)"
  by (simp add: getHeaderForHash_def getHeaderForHeight_def numberText_def parseInt10_numberToString)

lemma parentHash_eq:
  "0 \<le> n \<Longrightarrow> n \<le> 2 ^ 53 \<Longrightarrow> parentHash (cosmosBlockToHeader (Some n)) = numberText (Some (n - 1))"
  by (simp add: cosmosBlockToHeader_def toDouble_exact)

text \<open>
  C29: heights serve as hashes without loss: looking a header up by its own hash returns it, looking
  up its parent hash returns the header of the height below, and headers have equal hashes only for equal
  heights.  So the headers of consecutive blocks always link and no fork is ever detected.
\<close>

theorem headers_link:
  assumes "0 \<le> h" and "h \<le> 2 ^ 53"
  shows "getHeaderForHash (blockHash (cosmosBlockToHeader (Some h))) = cosmosBlockToHeader (Some h) \<and>
    getHeaderForHash (parentHash (cosmosBlockToHeader (Some h))) = cosmosBlockToHeader (Some (h - 1)) \<and>
    parentHash (cosmosBlockToHeader (Some h)) = blockHash (cosmosBlockToHeader (Some (h - 1))) \<and>
    (blockHash (cosmosBlockToHeader (Some h)) = blockHash (cosmosBlockToHeader (Some k)) \<longleftrightarrow> h = k)"
proof -
  have "blockHash (cosmosBlockToHeader (Some n)) = numberText (Some n)" for n
    by (simp add: cosmosBlockToHeader_def)
  moreover have "numberText (Some h) = numberText (Some k) \<longleftrightarrow> h = k"
    by (simp add: numberText_def numberToString_inject)
  ultimately show ?thesis
    using assms by (simp add: parentHash_eq getHeaderForHash_numberText)
qed

theorem headers_link_witness:
  "getHeaderForHash ''12'' = \<lparr>blockHeight = Some 12, blockHash = ''12'', parentHash = ''11''\<rparr> \<and>
   getHeaderForHash ''11'' = cosmosBlockToHeader (Some 11)"
proof -
  have "blockHash (cosmosBlockToHeader (Some 12)) = ''12''" "parentHash (cosmosBlockToHeader (Some 12)) = ''11''"
    by (simp_all add: cosmosBlockToHeader_def numberText_def numberToString_def digitsOf.simps digitChar_def
        char_of_def toDouble_exact bit_0)
  with headers_link [of 12 12] show ?thesis
    by (simp add: cosmosBlockToHeader_def toDouble_exact)
qed

text \<open>
  Fetching a batch is fetching its blocks one by one: the batch of the main thread can be fulfilled
  with a list of contents exactly if a worker's request of each height can be fulfilled with the content at the same
  position, and a worker's request is never fulfilled without a block.
\<close>

theorem batch_is_single_fetches:
  "(Inr cs \<in> set (fetchBlocks conn hs) \<longleftrightarrow> list_all2 (\<lambda>c h. Inr (Some c) \<in> set (fetchChainBlock conn h)) cs hs) \<and>
   Inr None \<notin> set (fetchChainBlock conn h)"
proof -
  have single: "Inr cs \<in> set (fetchBlocks conn [h]) \<Longrightarrow> \<exists>c. cs = [c]" for cs h
    by (auto simp: fetchBlocks_def fetchBlocksBatches_contents list_all2_Cons2)
  have "Inr v \<in> set (fetchChainBlock conn h) \<longleftrightarrow> (\<exists>c. v = Some c \<and> Inr [c] \<in> set (fetchBlocks conn [h]))" for v h
  proof
    assume "Inr v \<in> set (fetchChainBlock conn h)"
    then obtain cs where "Inr cs \<in> set (fetchBlocks conn [h])" "(case cs of [] \<Rightarrow> None | c # _ \<Rightarrow> Some c) = v"
      by (auto simp: fetchChainBlock_def promiseThen_Inr)
    with single [of cs h] show "\<exists>c. v = Some c \<and> Inr [c] \<in> set (fetchBlocks conn [h])" by auto
  next
    assume "\<exists>c. v = Some c \<and> Inr [c] \<in> set (fetchBlocks conn [h])"
    then show "Inr v \<in> set (fetchChainBlock conn h)"
      by (force simp: fetchChainBlock_def promiseThen_Inr)
  qed
  then show ?thesis
    by (auto simp: fetchBlocks_def fetchBlocksBatches_contents)
qed

text \<open>The height registered as finalized is the height returned, and the head of the service of unfinalized blocks.\<close>

lemma getFinalizedHeight_registers:
  "Inr (h, u') \<in> set (getFinalizedHeight reg getHeight u) \<longleftrightarrow>
   Inr h \<in> set getHeight \<and> u' = reg (cosmosBlockToHeader (Some h)) u"
  by (auto simp: getFinalizedHeight_def promiseThen_Inr)

lemma getFinalizedHead_Inr:
  "Inr head \<in> set (getFinalizedHead getHeight) \<longleftrightarrow> (\<exists>h. Inr h \<in> set getHeight \<and> head = cosmosBlockToHeader (Some h))"
  by (auto simp: getFinalizedHead_def promiseThen_Inr getHeaderForHeight_def)

lemma getChainInterval_bounds: "0 < getChainInterval \<and> getChainInterval \<le> calcInterval \<and> getChainInterval \<le> 5000"
  by (simp add: getChainInterval_def calcInterval_def)

section \<open>Indexing with and without workers\<close>

text \<open>
  The contract of node-core's base class of worker services: for a height it fetches the block and processes it with
  the data sources that the project service gives for that height.
\<close>

locale indexing_worker =
  fixes run :: "(int \<Rightarrow> 'block promise) \<Rightarrow> (int \<Rightarrow> 'ds list promise) \<Rightarrow> ('block \<Rightarrow> 'ds list \<Rightarrow> 'r promise) \<Rightarrow> int \<Rightarrow> 'r promise"
  assumes run_outcomes: "r \<in> set (run fetch sources process h) \<longleftrightarrow>
    (\<exists>e. Inl e \<in> set (fetch h) \<and> r = Inl e) \<or> (\<exists>c. Inr c \<in> set (fetch h) \<and>
      ((\<exists>e. Inl e \<in> set (sources h) \<and> r = Inl e) \<or> (\<exists>dss. Inr dss \<in> set (sources h) \<and> r \<in> set (process c dss))))"
begin

lemma run_processes:
  "Inr c \<in> set (fetch h) \<Longrightarrow> r \<in> set (promiseBind (sources h) (process c)) \<Longrightarrow> r \<in> set (run fetch sources process h)"
  by (cases r) (auto simp: run_outcomes promiseBind_Inl promiseBind_Inr)

lemma run_fulfilled:
  "Inr v \<in> set (run fetch sources process h) \<Longrightarrow>
   \<exists>c. Inr c \<in> set (fetch h) \<and> Inr v \<in> set (promiseBind (sources h) (process c))"
  by (auto simp: run_outcomes promiseBind_Inr)

end

definition sequentialWorker ::
    "(int \<Rightarrow> 'block promise) \<Rightarrow> (int \<Rightarrow> 'ds list promise) \<Rightarrow> ('block \<Rightarrow> 'ds list \<Rightarrow> 'r promise) \<Rightarrow> int \<Rightarrow> 'r promise" where
  "sequentialWorker fetch sources process h = promiseBind (fetch h) (\<lambda>c. promiseBind (sources h) (process c))"

interpretation sequential: indexing_worker sequentialWorker
proof
  fix r :: "'r result" and fetch :: "int \<Rightarrow> 'block promise" and sources :: "int \<Rightarrow> 'ds list promise" and process h
  show "r \<in> set (sequentialWorker fetch sources process h) \<longleftrightarrow>
    (\<exists>e. Inl e \<in> set (fetch h) \<and> r = Inl e) \<or> (\<exists>c. Inr c \<in> set (fetch h) \<and>
      ((\<exists>e. Inl e \<in> set (sources h) \<and> r = Inl e) \<or> (\<exists>dss. Inr dss \<in> set (sources h) \<and> r \<in> set (process c dss))))"
    by (cases r) (auto simp: sequentialWorker_def promiseBind_Inl promiseBind_Inr)
qed

text \<open>The block of a fetched content has the height that the endpoint answered.\<close>

lemma dispatcherBlockHeight_new:
  "dispatcherBlockHeight J (newLazyBlockContent info res) = height (block_header (resp_block info))"
  by (simp add: dispatcherBlockHeight_def getBlock_def newLazyBlockContent_def wrapBlock_def Let_def)

definition answersHeights :: "CosmosClient \<Rightarrow> int list \<Rightarrow> bool" where
  "answersHeights api hs \<longleftrightarrow>
     (\<forall>h \<in> set hs. \<forall>info. Inr info \<in> set (blockInfo api h) \<longrightarrow> height (block_header (resp_block info)) = h)"

lemma fetchChainBlock_height:
  assumes "answersHeights (unsafeApi conn) hs" and "h \<in> set hs" and "Inr (Some c) \<in> set (fetchChainBlock conn h)"
  shows "dispatcherBlockHeight J c = h"
proof -
  have "list_all2 (\<lambda>c h. Inr (Some c) \<in> set (fetchChainBlock conn h)) [c] [h]" using assms(3) by simp
  then have "Inr [c] \<in> set (fetchBlocks conn [h])" using batch_is_single_fetches by blast
  then obtain info res where "Inr info \<in> set (blockInfo (unsafeApi conn) h)" "c = newLazyBlockContent info res"
    by (auto simp: fetchBlocks_def fetchBlocksBatches_contents)
  with assms(1, 2) show ?thesis by (simp add: dispatcherBlockHeight_new answersHeights_def)
qed

lemma single_fetch:
  "Inr (Some c) \<in> set (fetchChainBlock conn h) \<Longrightarrow> Inr [c] \<in> set (fetchBlocks conn [h])"
  using batch_is_single_fetches [of "[c]" conn "[h]" h] by simp

lemma dispatchBlock_height:
  assumes "answersHeights (unsafeApi conn) hs" and "h \<in> set hs" and "Inr (Some c) \<in> set (fetchChainBlock conn h)"
  shows "dispatchBlock idx sources J conn c = promiseBind (sources h) (processFetchedBlock idx J conn c)"
  using fetchChainBlock_height [OF assms, of J] by (simp add: dispatchBlock_def processFetchedBlock_def [abs_def])

text \<open>What a worker of node-core does with a height, and one inclusion for each direction.\<close>

abbreviation "workerIndexes run idx sources J conn \<equiv>
  run (fetchChainBlock conn) sources (\<lambda>c. processFetchedBlock idx J conn (the c))"

lemma dispatched_by_worker:
  assumes "indexing_worker run" and "answersHeights (unsafeApi conn) hs" and "h \<in> set hs"
    and "Inr (Some c) \<in> set (fetchChainBlock conn h)"
  shows "set (dispatchBlock idx sources J conn c) \<subseteq> set (workerIndexes run idx sources J conn h)"
proof
  fix r
  assume "r \<in> set (dispatchBlock idx sources J conn c)"
  then have "r \<in> set (promiseBind (sources h) ((\<lambda>c. processFetchedBlock idx J conn (the c)) (Some c)))"
    by (simp add: dispatchBlock_height [OF assms(2-4)])
  then show "r \<in> set (workerIndexes run idx sources J conn h)"
    by (intro indexing_worker.run_processes [OF assms(1), of "Some c" "fetchChainBlock conn" h r sources
          "\<lambda>c. processFetchedBlock idx J conn (the c)", OF assms(4)]) simp
qed

lemma worker_dispatched:
  assumes "indexing_worker run" and "answersHeights (unsafeApi conn) hs" and "h \<in> set hs"
    and "Inr v \<in> set (workerIndexes run idx sources J conn h)"
  shows "\<exists>c. Inr [c] \<in> set (fetchBlocks conn [h]) \<and> Inr v \<in> set (dispatchBlock idx sources J conn c)"
proof -
  obtain b where b: "Inr b \<in> set (fetchChainBlock conn h)"
      "Inr v \<in> set (promiseBind (sources h) (processFetchedBlock idx J conn (the b)))"
    using indexing_worker.run_fulfilled [OF assms(1), of v "fetchChainBlock conn" sources
        "\<lambda>c. processFetchedBlock idx J conn (the c)" h] assms(4) by blast
  have "b \<noteq> None" using b(1) batch_is_single_fetches [of "[]" conn "[]" h] by (cases b) simp_all
  then obtain c where c: "b = Some c" by blast
  with b(1) have f: "Inr (Some c) \<in> set (fetchChainBlock conn h)" by simp
  have "Inr v \<in> set (dispatchBlock idx sources J conn c)"
    using b(2) c by (simp add: dispatchBlock_height [OF assms(2, 3) f])
  with single_fetch [OF f] show ?thesis by blast
qed

text \<open>
  C30: the dispatcher without workers behaves as the one with workers.  When the endpoint answers with the blocks of the
  heights asked for, every outcome of indexing a block of a fetched batch is an outcome of a worker on its height; and
  what a worker returns for a height is returned for a batch of this height alone.
\<close>

theorem dispatchers_agree:
  assumes "indexing_worker run" and "answersHeights (unsafeApi conn) hs"
  shows "(\<forall>cs. Inr cs \<in> set (fetchBlocks conn hs) \<longrightarrow> list_all2 (\<lambda>c h.
        set (dispatchBlock idx sources J conn c) \<subseteq>
        set (run (fetchChainBlock conn) sources (\<lambda>c. processFetchedBlock idx J conn (the c)) h)) cs hs) \<and>
    (\<forall>h \<in> set hs. \<forall>v. Inr v \<in> set (run (fetchChainBlock conn) sources (\<lambda>c. processFetchedBlock idx J conn (the c)) h) \<longrightarrow>
        (\<exists>c. Inr [c] \<in> set (fetchBlocks conn [h]) \<and> Inr v \<in> set (dispatchBlock idx sources J conn c)))"
proof (intro conjI allI impI ballI)
  fix cs
  assume "Inr cs \<in> set (fetchBlocks conn hs)"
  then have "list_all2 (\<lambda>c h. Inr (Some c) \<in> set (fetchChainBlock conn h)) cs hs"
    using batch_is_single_fetches by blast
  then show "list_all2 (\<lambda>c h. set (dispatchBlock idx sources J conn c) \<subseteq> set (workerIndexes run idx sources J conn h)) cs hs"
    by (rule list.rel_mono_strong) (intro dispatched_by_worker [OF assms])
qed (rule worker_dispatched [OF assms])

definition answeringConnection :: "(unit, unit) CosmosClientConnection" where
  "answeringConnection =
     \<lparr>unsafeApi = (sampleClient swapText)\<lparr>tendermint_block := (\<lambda>h. [Inr sampleResponse]),
        tendermint_blockResults := (\<lambda>h. [Inr sampleResults])\<rparr>,
      networkMeta_chain = ''juno-1'', tmClient = (), conn_registry = ()\<rparr>"

theorem dispatchers_agree_witness:
  "list_all2 (\<lambda>c h. set (dispatchBlock (\<lambda>c dss api. [Inr (length dss)]) (\<lambda>h. [Inr []]) sampleLib answeringConnection c) \<subseteq>
     set (sequentialWorker (fetchChainBlock answeringConnection) (\<lambda>h. [Inr []])
       (\<lambda>c. processFetchedBlock (\<lambda>c dss api. [Inr (length dss)]) sampleLib answeringConnection (the c)) h))
   [newLazyBlockContent sampleResponse sampleResults] [6]"
proof -
  have "answersHeights (unsafeApi answeringConnection) [6]"
    by (simp add: answersHeights_def blockInfo_def answeringConnection_def sampleResponse_def sample_defs)
  moreover have "Inr [newLazyBlockContent sampleResponse sampleResults] \<in> set (fetchBlocks answeringConnection [6])"
    by (auto simp: fetchBlocks_def fetchBlocksBatches_contents blockInfo_def blockResults_def answeringConnection_def sampleResponse_def sampleResults_def
        sample_defs)
  ultimately show ?thesis using dispatchers_agree [OF sequential.indexing_worker_axioms] by blast
qed

end
