(* ===== verification/Modules.thy ===== *)
theory Modules
  imports Services
begin

text \<open>
  The modules of the application as data: \<^verbatim>\<open>app.module.ts\<close>, \<^verbatim>\<open>configure.module.ts\<close>, \<^verbatim>\<open>meta.module.ts\<close>,
  \<^verbatim>\<open>fetch.module.ts\<close>, \<^verbatim>\<open>worker.module.ts\<close>, \<^verbatim>\<open>worker-fetch.module.ts\<close> and the modules of the subcommands, with the services
  that the constructors of this repository ask for.  The theory shows that the lists fit together: the providers of a module
  have an order in which each asks only for earlier ones and for what the global modules export.  How the framework creates
  the services is not modelled.  The modules and classes of other packages are parameters.
\<close>

section \<open>Modules and providers\<close>

text \<open>The classes of services the modules name; others of node-core have only a name.  A service is asked for by its class or by a name.\<close>

datatype service =
    ApiService | ConnectionPoolService | ConnectionPoolStateManager | DictionaryService | DsProcessorService
  | DynamicDsService | EventEmitter2 | FetchService | ForceCleanService | IndexerManager | IndexingBenchmarkService
  | InMemoryCacheService | MetaController | MetaService | NodeConfig | PoiBenchmarkService | PoiService | PoiSyncService
  | ProjectService | ReindexService | SandboxService | SchedulerRegistry | Sequelize | SmartBatchService
  | StoreCacheService | StoreService | TestRunner | UnfinalizedBlocksService | WorkerService | OtherService string

datatype token = Cls service | Named string

datatype provider =
    ClassProvider service
  | UseClass token service
  | UseFactory token "token list"
  | UseValue token

fun providerToken :: "provider \<Rightarrow> token" where
  "providerToken (ClassProvider c) = Cls c"
| "providerToken (UseClass t c) = t"
| "providerToken (UseFactory t ts) = t"
| "providerToken (UseValue t) = t"

text \<open>What a provider needs, where \<open>ctor\<close> gives the services that the constructor of a class asks for.\<close>

fun needs :: "(service \<Rightarrow> token list) \<Rightarrow> provider \<Rightarrow> token list" where
  "needs ctor (ClassProvider c) = ctor c"
| "needs ctor (UseClass t c) = ctor c"
| "needs ctor (UseFactory t ts) = ts"
| "needs ctor (UseValue t) = []"

text \<open>A module of this repository, or a module of another package, of which only the exports are known.\<close>

datatype nest_module =
    NestModule bool "nest_module list" "provider list" "service list" "token list"
  | ExternalModule bool "token list"

fun isGlobal :: "nest_module \<Rightarrow> bool" where
  "isGlobal (NestModule g is ps cs es) = g"
| "isGlobal (ExternalModule g es) = g"

fun moduleImports :: "nest_module \<Rightarrow> nest_module list" where
  "moduleImports (NestModule g is ps cs es) = is"
| "moduleImports (ExternalModule g es) = []"

fun providers :: "nest_module \<Rightarrow> provider list" where
  "providers (NestModule g is ps cs es) = ps"
| "providers (ExternalModule g es) = []"

fun controllers :: "nest_module \<Rightarrow> service list" where
  "controllers (NestModule g is ps cs es) = cs"
| "controllers (ExternalModule g es) = []"

fun moduleExports :: "nest_module \<Rightarrow> token list" where
  "moduleExports (NestModule g is ps cs es) = es"
| "moduleExports (ExternalModule g es) = es"

text \<open>What the global modules that an application imports offer to every module.\<close>

definition globalExports :: "nest_module \<Rightarrow> token list" where
  "globalExports app = concat (map moduleExports (filter isGlobal (moduleImports app)))"

text \<open>
  The specification.  A list of providers is ordered over given tokens if each asks only for given tokens and for those
  of the providers before it: nothing it asks for is missing, and no two ask for each other.
\<close>

fun ordered :: "(service \<Rightarrow> token list) \<Rightarrow> token list \<Rightarrow> provider list \<Rightarrow> bool" where
  "ordered ctor known [] = True"
| "ordered ctor known (p # ps) = (list_all (\<lambda>t. t \<in> set known) (needs ctor p) \<and> ordered ctor (providerToken p # known) ps)"

lemma ordered_needs:
  "ordered ctor known ps \<Longrightarrow> p \<in> set ps \<Longrightarrow> t \<in> set (needs ctor p) \<Longrightarrow> t \<in> set known \<union> providerToken ` set ps"
  by (induction ps arbitrary: known) (fastforce simp: list_all_iff)+

lemma ordered_append:
  "ordered ctor known (ps @ qs) \<longleftrightarrow> ordered ctor known ps \<and> ordered ctor (map providerToken (rev ps) @ known) qs"
  by (induction ps arbitrary: known) auto

lemma ordered_mono:
  "ordered ctor known ps \<Longrightarrow> set known \<subseteq> set known' \<Longrightarrow> ordered ctor known' ps"
proof (induction ps arbitrary: known known')
  case (Cons p ps)
  then show ?case
    using Cons.IH [of "providerToken p # known" "providerToken p # known'"] by (auto simp: list_all_iff)
qed simp

text \<open>Classes of other packages that have such an order, and providers ordered after them.\<close>

definition buildable :: "(service \<Rightarrow> token list) \<Rightarrow> token list \<Rightarrow> service list \<Rightarrow> bool" where
  "buildable ctor known cs \<longleftrightarrow> (\<exists>ps. ordered ctor known ps \<and> set ps = ClassProvider ` set cs)"

lemma buildable_extend:
  assumes "buildable ctor known cs" and "ordered ctor (map Cls cs @ known) rs"
  shows "\<exists>ps. ordered ctor known (ps @ rs) \<and> set (ps @ rs) = ClassProvider ` set cs \<union> set rs"
proof -
  obtain ps where ps: "ordered ctor known ps" "set ps = ClassProvider ` set cs"
    using assms(1) by (auto simp: buildable_def)
  then have "set (map Cls cs @ known) \<subseteq> set (map providerToken (rev ps) @ known)" by force
  with assms(2) ps show ?thesis
    by (intro exI [of _ ps] conjI) (simp_all add: ordered_append ordered_mono [where known = "map Cls cs @ known"])
qed

section \<open>The services of the repository\<close>

text \<open>
  What the constructors ask for.  Some ask for a service in the main thread and for the value null in a worker.
  Classes of other packages, and classes that inherit their constructor from one, are given by \<open>ext\<close>.
\<close>

definition mainOnly :: "bool \<Rightarrow> service \<Rightarrow> token" where
  "mainOnly isMainThread c = (if isMainThread then Cls c else Named ''Null'')"

definition ProjectServiceNeeds :: "bool \<Rightarrow> token list" where
  "ProjectServiceNeeds isMainThread =
     [Cls DsProcessorService, Cls ApiService, mainOnly isMainThread PoiService,
      mainOnly isMainThread PoiSyncService, mainOnly isMainThread Sequelize, Named ''ISubqueryProject'',
      Named ''IProjectUpgradeService'', mainOnly isMainThread StoreService, Cls NodeConfig, Cls DynamicDsService,
      Cls EventEmitter2, Cls UnfinalizedBlocksService]"

definition SandboxServiceNeeds :: "bool \<Rightarrow> token list" where
  "SandboxServiceNeeds isMainThread =
     [Cls ApiService, mainOnly isMainThread StoreService, Cls InMemoryCacheService, Cls NodeConfig,
      Named ''ISubqueryProject'']"

definition ApiServiceNeeds :: "token list" where
  "ApiServiceNeeds = [Named ''ISubqueryProject'', Cls ConnectionPoolService, Cls EventEmitter2]"

definition DynamicDsServiceNeeds :: "token list" where
  "DynamicDsServiceNeeds = [Cls DsProcessorService, Named ''ISubqueryProject'']"

definition FetchServiceNeeds :: "token list" where
  "FetchServiceNeeds =
     [Cls ApiService, Cls NodeConfig, Named ''IProjectService'', Named ''ISubqueryProject'', Named ''IBlockDispatcher'',
      Cls DictionaryService, Cls DsProcessorService, Cls DynamicDsService, Cls UnfinalizedBlocksService,
      Cls EventEmitter2, Cls SchedulerRegistry]"

definition UnfinalizedBlocksServiceNeeds :: "token list" where
  "UnfinalizedBlocksServiceNeeds = [Cls ApiService, Cls NodeConfig, Cls StoreCacheService]"

definition IndexerManagerNeeds :: "token list" where
  "IndexerManagerNeeds =
     [Cls ApiService, Cls NodeConfig, Cls SandboxService, Cls DsProcessorService, Cls DynamicDsService,
      Cls UnfinalizedBlocksService]"

definition WorkerServiceNeeds :: "token list" where
  "WorkerServiceNeeds =
     [Cls ApiService, Cls IndexerManager, Named ''IProjectService'', Named ''IProjectUpgradeService'', Cls NodeConfig]"

definition MetaServiceNeeds :: "token list" where
  "MetaServiceNeeds = [Cls StoreCacheService, Cls NodeConfig]"

definition MetaControllerNeeds :: "token list" where
  "MetaControllerNeeds = [Cls MetaService]"

fun constructorNeeds :: "bool \<Rightarrow> (service \<Rightarrow> token list) \<Rightarrow> service \<Rightarrow> token list" where
  "constructorNeeds isMainThread ext ProjectService = ProjectServiceNeeds isMainThread"
| "constructorNeeds isMainThread ext SandboxService = SandboxServiceNeeds isMainThread"
| "constructorNeeds isMainThread ext ApiService = ApiServiceNeeds"
| "constructorNeeds isMainThread ext DynamicDsService = DynamicDsServiceNeeds"
| "constructorNeeds isMainThread ext FetchService = FetchServiceNeeds"
| "constructorNeeds isMainThread ext UnfinalizedBlocksService = UnfinalizedBlocksServiceNeeds"
| "constructorNeeds isMainThread ext IndexerManager = IndexerManagerNeeds"
| "constructorNeeds isMainThread ext WorkerService = WorkerServiceNeeds"
| "constructorNeeds isMainThread ext MetaService = MetaServiceNeeds"
| "constructorNeeds isMainThread ext MetaController = MetaControllerNeeds"
| "constructorNeeds isMainThread ext c = ext c"

section \<open>The modules\<close>

text \<open>The modules and lists of other packages that the modules refer to.\<close>

record external_modules =
  DbModule :: nest_module
  EventEmitterModule :: nest_module
  ScheduleModule :: nest_module
  PrometheusModule :: nest_module
  ForceCleanFeatureModule :: nest_module
  metaControllers :: "service list"
  metaServices :: "provider list"

definition ConfigureModule :: nest_module where
  "ConfigureModule = NestModule True []
     [UseValue (Cls NodeConfig), UseValue (Named ''ISubqueryProject''), UseValue (Named ''IProjectUpgradeService''),
      UseValue (Named ''Null'')] []
     [Cls NodeConfig, Named ''ISubqueryProject'', Named ''IProjectUpgradeService'', Named ''Null'']"

text \<open>The services that the factory of the block dispatcher is given, in the order of its parameters.\<close>

definition dispatcherInject :: "token list" where
  "dispatcherInject =
     [Cls NodeConfig, Cls EventEmitter2, Named ''IProjectService'', Named ''IProjectUpgradeService'', Cls ApiService,
      Cls IndexerManager, Cls SmartBatchService, Cls InMemoryCacheService, Cls StoreService,
      Cls StoreCacheService, Cls PoiSyncService, Named ''ISubqueryProject'', Cls DynamicDsService,
      Cls UnfinalizedBlocksService, Cls ConnectionPoolStateManager]"

text \<open>
  The parameters of the factory by name, what it passes to the constructor of either dispatcher, and the services that these
  constructors declare.
\<close>

definition dispatcherParams :: "string list" where
  "dispatcherParams =
     [''nodeConfig'', ''eventEmitter'', ''projectService'', ''projectUpgradeService'', ''apiService'', ''indexerManager'',
      ''smartBatchService'', ''cacheService'', ''storeService'', ''storeCacheService'', ''poiSyncService'', ''project'',
      ''dynamicDsService'', ''unfinalizedBlocks'', ''connectionPoolState'']"

fun dispatcherArgs :: "dispatcher \<Rightarrow> string list" where
  "dispatcherArgs WorkerBlockDispatcherService =
     [''nodeConfig'', ''eventEmitter'', ''projectService'', ''projectUpgradeService'', ''smartBatchService'', ''cacheService'',
      ''storeService'', ''storeCacheService'', ''poiSyncService'', ''project'', ''dynamicDsService'', ''unfinalizedBlocks'',
      ''connectionPoolState'']"
| "dispatcherArgs BlockDispatcherService =
     [''apiService'', ''nodeConfig'', ''indexerManager'', ''eventEmitter'', ''projectService'', ''projectUpgradeService'',
      ''smartBatchService'', ''storeService'', ''storeCacheService'', ''poiSyncService'', ''project'', ''dynamicDsService'']"

definition BlockDispatcherServiceNeeds :: "token list" where
  "BlockDispatcherServiceNeeds =
     [Cls ApiService, Cls NodeConfig, Cls IndexerManager, Cls EventEmitter2, Named ''IProjectService'',
      Named ''IProjectUpgradeService'', Cls SmartBatchService, Cls StoreService, Cls StoreCacheService, Cls PoiSyncService,
      Named ''ISubqueryProject'', Cls DynamicDsService]"

definition WorkerBlockDispatcherServiceNeeds :: "token list" where
  "WorkerBlockDispatcherServiceNeeds =
     [Cls NodeConfig, Cls EventEmitter2, Named ''IProjectService'', Named ''IProjectUpgradeService'', Cls SmartBatchService,
      Cls InMemoryCacheService, Cls StoreService, Cls StoreCacheService, Cls PoiSyncService, Named ''ISubqueryProject'',
      Cls DynamicDsService, Cls UnfinalizedBlocksService, Cls ConnectionPoolStateManager]"

fun dispatcherNeeds :: "dispatcher \<Rightarrow> token list" where
  "dispatcherNeeds WorkerBlockDispatcherService = WorkerBlockDispatcherServiceNeeds"
| "dispatcherNeeds BlockDispatcherService = BlockDispatcherServiceNeeds"

definition FetchModule :: nest_module where
  "FetchModule = NestModule False []
     [ClassProvider InMemoryCacheService, ClassProvider StoreService, ClassProvider StoreCacheService,
      ClassProvider ApiService, ClassProvider IndexerManager, ClassProvider ConnectionPoolStateManager,
      UseFactory (Cls SmartBatchService) [Cls NodeConfig],
      UseFactory (Named ''IBlockDispatcher'') dispatcherInject,
      ClassProvider FetchService, ClassProvider ConnectionPoolService, ClassProvider IndexingBenchmarkService,
      ClassProvider PoiBenchmarkService,
      UseFactory (Cls DictionaryService) [Named ''ISubqueryProject'', Cls NodeConfig, Cls EventEmitter2],
      ClassProvider SandboxService, ClassProvider DsProcessorService, ClassProvider DynamicDsService,
      ClassProvider PoiService, ClassProvider PoiSyncService,
      UseClass (Named ''IProjectService'') ProjectService, ClassProvider UnfinalizedBlocksService] []
     [Cls StoreService, Cls StoreCacheService]"

definition MetaModule :: "external_modules \<Rightarrow> nest_module" where
  "MetaModule X = NestModule False [PrometheusModule X, FetchModule]
     (metaServices X @ [ClassProvider MetaService]) (metaControllers X @ [MetaController]) []"

definition AppModule :: "external_modules \<Rightarrow> nest_module" where
  "AppModule X = NestModule False
     [DbModule X, EventEmitterModule X, ConfigureModule, ScheduleModule X, FetchModule, MetaModule X] [] [] []"

definition WorkerFetchModule :: nest_module where
  "WorkerFetchModule = NestModule False []
     [ClassProvider IndexerManager, UseFactory (Cls ConnectionPoolStateManager) [],
      ClassProvider ConnectionPoolService,
      UseFactory (Cls ApiService) [Named ''ISubqueryProject'', Cls ConnectionPoolService, Cls EventEmitter2],
      ClassProvider SandboxService, ClassProvider DsProcessorService, UseFactory (Cls DynamicDsService) [],
      UseClass (Named ''IProjectService'') ProjectService, ClassProvider WorkerService,
      UseFactory (Cls UnfinalizedBlocksService) [], UseFactory (Cls InMemoryCacheService) []] [] []"

definition WorkerModule :: "external_modules \<Rightarrow> nest_module" where
  "WorkerModule X = NestModule False
     [DbModule X, EventEmitterModule X, ConfigureModule, ScheduleModule X, WorkerFetchModule] [] [] []"

definition ReindexFeatureModule :: nest_module where
  "ReindexFeatureModule = NestModule False []
     [ClassProvider StoreCacheService, ClassProvider StoreService, ClassProvider ReindexService,
      ClassProvider PoiService, ClassProvider ForceCleanService,
      UseClass (Named ''UnfinalizedBlocksService'') UnfinalizedBlocksService,
      UseClass (Named ''DynamicDsService'') DynamicDsService, ClassProvider DsProcessorService,
      UseFactory (Cls ApiService) [], ClassProvider SchedulerRegistry] [] []"

definition ReindexModule :: "external_modules \<Rightarrow> nest_module" where
  "ReindexModule X = NestModule False [DbModule X, ConfigureModule, ReindexFeatureModule, EventEmitterModule X] [] [] []"

definition ForceCleanModule :: "external_modules \<Rightarrow> nest_module" where
  "ForceCleanModule X = NestModule False [DbModule X, ConfigureModule, ForceCleanFeatureModule X] [] [] []"

definition TestingFeatureModule :: nest_module where
  "TestingFeatureModule = NestModule False []
     [ClassProvider InMemoryCacheService, ClassProvider StoreService, ClassProvider StoreCacheService,
      ClassProvider EventEmitter2, ClassProvider PoiService, ClassProvider PoiSyncService,
      ClassProvider SandboxService, ClassProvider DsProcessorService, ClassProvider DynamicDsService,
      ClassProvider UnfinalizedBlocksService, ClassProvider ConnectionPoolStateManager,
      ClassProvider ConnectionPoolService, UseClass (Named ''IProjectService'') ProjectService,
      UseFactory (Cls ApiService) [Named ''ISubqueryProject'', Cls ConnectionPoolService, Cls EventEmitter2],
      ClassProvider SchedulerRegistry, ClassProvider TestRunner,
      UseClass (Named ''IApi'') ApiService, UseClass (Named ''IIndexerManager'') IndexerManager] [] []"

definition TestingModule :: "external_modules \<Rightarrow> nest_module" where
  "TestingModule X = NestModule False
     [DbModule X, ConfigureModule, EventEmitterModule X, ScheduleModule X, TestingFeatureModule] [] [] []"

section \<open>What the other packages offer\<close>

text \<open>
  The modules of the database, of events and of schedules are global and export the connection, the emitter and the
  registry.  They export no token that the modules of this repository provide for the node or for a worker.
\<close>

definition offeredServices :: "token list" where
  "offeredServices =
     [Cls Sequelize, Cls EventEmitter2, Cls SchedulerRegistry, Cls NodeConfig, Named ''ISubqueryProject'',
      Named ''IProjectUpgradeService'', Named ''Null'']"

locale external_packages =
  fixes X :: external_modules
  assumes db: "\<exists>ts. DbModule X = ExternalModule True ts \<and> Cls Sequelize \<in> set ts"
    and events: "\<exists>ts. EventEmitterModule X = ExternalModule True ts \<and> Cls EventEmitter2 \<in> set ts"
    and schedule: "\<exists>ts. ScheduleModule X = ExternalModule True ts \<and> Cls SchedulerRegistry \<in> set ts"
    and foreign: "M \<in> {DbModule X, EventEmitterModule X, ScheduleModule X} \<Longrightarrow> t \<in> set (moduleExports M) \<Longrightarrow>
      t \<notin> providerToken ` (set (providers FetchModule) \<union> set (providers WorkerFetchModule))"
begin

lemma globals_of_node:
  "globalExports (AppModule X) = moduleExports (DbModule X) @ moduleExports (EventEmitterModule X) @
     moduleExports ConfigureModule @ moduleExports (ScheduleModule X)"
  using db events schedule
  by (auto simp: globalExports_def AppModule_def ConfigureModule_def FetchModule_def MetaModule_def)

lemma globals_of_worker: "globalExports (WorkerModule X) = globalExports (AppModule X)"
  unfolding globals_of_node using db events schedule
  by (auto simp: globalExports_def WorkerModule_def ConfigureModule_def WorkerFetchModule_def)

lemma globals_offer: "set offeredServices \<subseteq> set (globalExports (AppModule X))"
  unfolding globals_of_node using db events schedule by (auto simp: offeredServices_def ConfigureModule_def)

lemma globals_not_provided:
  "set (globalExports (AppModule X)) \<inter> providerToken ` (set (providers FetchModule) \<union> set (providers WorkerFetchModule)) = {}"
proof -
  have "t \<notin> providerToken ` (set (providers FetchModule) \<union> set (providers WorkerFetchModule))"
    if "t \<in> set (moduleExports ConfigureModule)" for t
    using that by (auto simp: ConfigureModule_def FetchModule_def WorkerFetchModule_def)
  then show ?thesis unfolding globals_of_node set_append using foreign by blast
qed

end

definition std_packages :: external_modules where
  "std_packages =
     \<lparr>DbModule = ExternalModule True [Cls Sequelize], EventEmitterModule = ExternalModule True [Cls EventEmitter2],
      ScheduleModule = ExternalModule True [Cls SchedulerRegistry], PrometheusModule = ExternalModule False [],
      ForceCleanFeatureModule = ExternalModule False [], metaControllers = [], metaServices = []\<rparr>"

interpretation std_packages: external_packages std_packages
  by unfold_locales (auto simp: std_packages_def FetchModule_def WorkerFetchModule_def)

section \<open>Orders of the providers\<close>

lemmas needs_defs =
  ProjectServiceNeeds_def SandboxServiceNeeds_def ApiServiceNeeds_def DynamicDsServiceNeeds_def
  FetchServiceNeeds_def UnfinalizedBlocksServiceNeeds_def IndexerManagerNeeds_def WorkerServiceNeeds_def mainOnly_def
  dispatcherInject_def offeredServices_def

text \<open>The classes of node-core that the modules list, those that inherit node-core's constructor included.\<close>

definition nodeCoreServices :: "service list" where
  "nodeCoreServices =
     [InMemoryCacheService, StoreService, StoreCacheService, ConnectionPoolStateManager,
      ConnectionPoolService, IndexingBenchmarkService, PoiBenchmarkService, DsProcessorService,
      PoiService, PoiSyncService]"

definition nodeOrder :: "provider list" where
  "nodeOrder =
     [UseFactory (Cls SmartBatchService) [Cls NodeConfig], ClassProvider ApiService,
      ClassProvider DynamicDsService, ClassProvider UnfinalizedBlocksService, ClassProvider SandboxService,
      ClassProvider IndexerManager, UseClass (Named ''IProjectService'') ProjectService,
      UseFactory (Cls DictionaryService) [Named ''ISubqueryProject'', Cls NodeConfig, Cls EventEmitter2],
      UseFactory (Named ''IBlockDispatcher'') dispatcherInject, ClassProvider FetchService]"

lemma nodeOrder_ordered:
  "ordered (constructorNeeds True ext) (map Cls nodeCoreServices @ offeredServices) nodeOrder"
  by (simp add: nodeOrder_def nodeCoreServices_def needs_defs)

lemma nodeOrder_complete: "set (providers FetchModule) = ClassProvider ` set nodeCoreServices \<union> set nodeOrder"
  by (simp add: FetchModule_def nodeCoreServices_def nodeOrder_def) blast

definition testingServices :: "service list" where
  "testingServices =
     [InMemoryCacheService, StoreService, StoreCacheService, EventEmitter2, PoiService, PoiSyncService, DsProcessorService,
      ConnectionPoolStateManager, ConnectionPoolService, SchedulerRegistry]"

definition testingOrder :: "provider list" where
  "testingOrder =
     [UseFactory (Cls ApiService) [Named ''ISubqueryProject'', Cls ConnectionPoolService, Cls EventEmitter2],
      ClassProvider DynamicDsService, ClassProvider UnfinalizedBlocksService, ClassProvider SandboxService,
      UseClass (Named ''IProjectService'') ProjectService, UseClass (Named ''IApi'') ApiService,
      UseClass (Named ''IIndexerManager'') IndexerManager]"

definition reindexServices :: "service list" where
  "reindexServices =
     [StoreCacheService, StoreService, PoiService, ForceCleanService, DsProcessorService, SchedulerRegistry]"

definition reindexOrder :: "provider list" where
  "reindexOrder =
     [UseFactory (Cls ApiService) [], UseClass (Named ''UnfinalizedBlocksService'') UnfinalizedBlocksService,
      UseClass (Named ''DynamicDsService'') DynamicDsService]"

context external_packages
begin

lemma node_ordered:
  assumes "buildable (constructorNeeds True ext) offeredServices nodeCoreServices"
  shows "\<exists>ps. set ps = set (providers FetchModule) \<and> ordered (constructorNeeds True ext) (globalExports (AppModule X)) ps"
proof -
  obtain ps where "ordered (constructorNeeds True ext) offeredServices (ps @ nodeOrder)"
    and "set (ps @ nodeOrder) = set (providers FetchModule)"
    using buildable_extend [OF assms nodeOrder_ordered] unfolding nodeOrder_complete by blast
  then show ?thesis using ordered_mono [OF _ globals_offer] by blast
qed

lemma meta_ordered:
  "ordered (constructorNeeds True ext) (moduleExports FetchModule @ globalExports (AppModule X)) [ClassProvider MetaService]"
  using globals_offer by (auto simp: MetaServiceNeeds_def FetchModule_def offeredServices_def)

text \<open>In the main thread the project service of the worker's module asks for a service that nobody offers.\<close>

lemma worker_needs_worker_thread:
  assumes "set ps = set (providers WorkerFetchModule)"
    and "ordered (constructorNeeds isMainThread ext) (globalExports (WorkerModule X)) ps"
  shows "\<not> isMainThread"
proof
  assume isMainThread
  then have "Cls PoiService \<in> set (needs (constructorNeeds isMainThread ext) (UseClass (Named ''IProjectService'') ProjectService))"
    by (simp add: ProjectServiceNeeds_def mainOnly_def)
  moreover have "UseClass (Named ''IProjectService'') ProjectService \<in> set ps"
    unfolding assms(1) by (simp add: WorkerFetchModule_def)
  ultimately have "Cls PoiService \<in> set (globalExports (AppModule X)) \<union> providerToken ` set ps"
    using ordered_needs [OF assms(2)] unfolding globals_of_worker by blast
  moreover have "Cls PoiService \<notin> providerToken ` set ps" unfolding assms(1) by (auto simp: WorkerFetchModule_def)
  moreover have "Cls PoiService \<in> providerToken ` set (providers FetchModule)" by (simp add: FetchModule_def)
  ultimately show False using globals_not_provided by blast
qed

lemma worker_ordered:
  assumes "buildable (constructorNeeds False ext) (map Cls [ConnectionPoolStateManager, DynamicDsService,
      UnfinalizedBlocksService, InMemoryCacheService] @ offeredServices) [ConnectionPoolService, DsProcessorService]"
  shows "\<exists>ps. set ps = set (providers WorkerFetchModule) \<and>
    ordered (constructorNeeds False ext) (globalExports (WorkerModule X)) ps"
proof -
  let ?ctor = "constructorNeeds False ext"
  let ?first = "map (\<lambda>c. UseFactory (Cls c) [])
      [InMemoryCacheService, UnfinalizedBlocksService, DynamicDsService, ConnectionPoolStateManager]"
  let ?rest = "[UseFactory (Cls ApiService) [Named ''ISubqueryProject'', Cls ConnectionPoolService, Cls EventEmitter2],
      ClassProvider SandboxService, ClassProvider IndexerManager, UseClass (Named ''IProjectService'') ProjectService,
      ClassProvider WorkerService]"
  obtain ps where ps: "ordered ?ctor (map Cls [ConnectionPoolStateManager, DynamicDsService, UnfinalizedBlocksService,
      InMemoryCacheService] @ offeredServices) (ps @ ?rest)"
      "set (ps @ ?rest) = ClassProvider ` set [ConnectionPoolService, DsProcessorService] \<union> set ?rest"
    using buildable_extend [OF assms, of ?rest] by (auto simp: needs_defs)
  have "ordered ?ctor offeredServices (?first @ ps @ ?rest)" using ps(1) by simp
  then have "ordered ?ctor (globalExports (WorkerModule X)) (?first @ ps @ ?rest)"
    unfolding globals_of_worker by (rule ordered_mono [OF _ globals_offer])
  moreover have "set (?first @ ps @ ?rest) = set (providers WorkerFetchModule)"
    unfolding set_append [of ?first] ps(2) by (simp add: WorkerFetchModule_def) blast
  ultimately show ?thesis by blast
qed

lemma testing_ordered:
  assumes "buildable (constructorNeeds True ext) offeredServices testingServices"
    and "\<forall>t \<in> set (ext TestRunner). t \<in> providerToken ` set (providers TestingFeatureModule) - {Cls TestRunner} \<or>
      t \<in> set offeredServices"
  shows "\<exists>ps. set ps = set (providers TestingFeatureModule) \<and> ordered (constructorNeeds True ext) offeredServices ps"
proof -
  let ?ctor = "constructorNeeds True ext"
  have "ordered ?ctor (map Cls testingServices @ offeredServices) testingOrder"
    by (simp add: testingOrder_def testingServices_def needs_defs)
  from buildable_extend [OF assms(1) this] obtain ps where
    ps: "ordered ?ctor offeredServices (ps @ testingOrder)"
      "set (ps @ testingOrder) = ClassProvider ` set testingServices \<union> set testingOrder" by blast
  have listed: "set (providers TestingFeatureModule) = insert (ClassProvider TestRunner) (set (ps @ testingOrder))"
    unfolding ps(2) by (simp add: TestingFeatureModule_def testingServices_def testingOrder_def) blast
  have "set (ext TestRunner) \<subseteq> set (map providerToken (rev (ps @ testingOrder)) @ offeredServices)"
    using assms(2) unfolding listed by auto
  then have "ordered ?ctor offeredServices ((ps @ testingOrder) @ [ClassProvider TestRunner])"
    unfolding ordered_append [of _ _ "ps @ testingOrder"] using ps(1) by (auto simp: list_all_iff)
  then show ?thesis by (intro exI [of _ "(ps @ testingOrder) @ [ClassProvider TestRunner]"]) (use listed in auto)
qed

text \<open>The application of the reindex command has no module of schedules; its feature module lists the registry itself.\<close>

lemma reindex_ordered:
  assumes "buildable (constructorNeeds True ext) (remove1 (Cls SchedulerRegistry) offeredServices) reindexServices"
    and "\<forall>t \<in> set (ext ReindexService).
      t \<in> providerToken ` set (providers ReindexFeatureModule) - {Cls ReindexService} \<or>
      t \<in> set offeredServices - {Cls SchedulerRegistry}"
  shows "\<exists>ps. set ps = set (providers ReindexFeatureModule) \<and>
    ordered (constructorNeeds True ext) (globalExports (ReindexModule X)) ps"
proof -
  let ?ctor = "constructorNeeds True ext" and ?base = "remove1 (Cls SchedulerRegistry) offeredServices"
  have base: "set ?base = set offeredServices - {Cls SchedulerRegistry}" by (auto simp: offeredServices_def)
  have "ordered ?ctor (map Cls reindexServices @ ?base) reindexOrder"
    by (simp add: reindexOrder_def reindexServices_def needs_defs)
  from buildable_extend [OF assms(1) this] obtain ps where
    ps: "ordered ?ctor ?base (ps @ reindexOrder)"
      "set (ps @ reindexOrder) = ClassProvider ` set reindexServices \<union> set reindexOrder" by blast
  have listed: "set (providers ReindexFeatureModule) = insert (ClassProvider ReindexService) (set (ps @ reindexOrder))"
    unfolding ps(2) by (simp add: ReindexFeatureModule_def reindexServices_def reindexOrder_def) blast
  have "set (ext ReindexService) \<subseteq> set (map providerToken (rev (ps @ reindexOrder)) @ ?base)"
    using assms(2) unfolding listed set_append base by auto
  then have "ordered ?ctor ?base ((ps @ reindexOrder) @ [ClassProvider ReindexService])"
    unfolding ordered_append [of _ _ "ps @ reindexOrder"] using ps(1) by (auto simp: list_all_iff)
  moreover have "set ?base \<subseteq> set (globalExports (ReindexModule X))"
    using db events by (auto simp: globalExports_def ReindexModule_def ConfigureModule_def offeredServices_def)
  ultimately have "ordered ?ctor (globalExports (ReindexModule X)) ((ps @ reindexOrder) @ [ClassProvider ReindexService])"
    by (rule ordered_mono)
  then show ?thesis by (intro exI [of _ "(ps @ reindexOrder) @ [ClassProvider ReindexService]"]) (use listed in auto)
qed

end

section \<open>Properties\<close>

text \<open>
  C31: what the modules of the node list fits together.  If the classes of node-core that the fetch module lists have an
  order over the tokens of the global modules, then all its providers have one: each asks, with the constructor or the
  factory it has in this repository, only for tokens that the global modules of the application export or that an earlier
  provider of the module has, so that nothing is missing and nothing is circular.  Each token is provided once, and by the
  module or by a global module but not by both.  The fetch module provides what it exports, and the module of metadata,
  which imports it, has with these exports all that its own service and controller ask for.
\<close>

theorem node_services_resolve:
  assumes "external_packages X" and "buildable (constructorNeeds True ext) offeredServices nodeCoreServices"
  shows "(\<exists>ps. set ps = set (providers FetchModule) \<and>
      ordered (constructorNeeds True ext) (globalExports (AppModule X)) ps) \<and>
    distinct (map providerToken (providers FetchModule)) \<and>
    set (map providerToken (providers FetchModule)) \<inter> set (globalExports (AppModule X)) = {} \<and>
    set (moduleExports FetchModule) \<subseteq> set (map providerToken (providers FetchModule)) \<and>
    {FetchModule, MetaModule X} \<subseteq> set (moduleImports (AppModule X)) \<and> FetchModule \<in> set (moduleImports (MetaModule X)) \<and>
    ordered (constructorNeeds True ext) (moduleExports FetchModule @ globalExports (AppModule X)) [ClassProvider MetaService] \<and>
    ClassProvider MetaService \<in> set (providers (MetaModule X)) \<and>
    set (constructorNeeds True ext MetaController) \<subseteq> set (map providerToken (providers (MetaModule X)))"
proof -
  have "distinct (map providerToken (providers FetchModule))" by (simp add: FetchModule_def)
  moreover have "set (map providerToken (providers FetchModule)) \<inter> set (globalExports (AppModule X)) = {}"
    using external_packages.globals_not_provided [OF assms(1)] by auto
  moreover have "set (moduleExports FetchModule) \<subseteq> set (map providerToken (providers FetchModule))"
    by (simp add: FetchModule_def)
  moreover have "{FetchModule, MetaModule X} \<subseteq> set (moduleImports (AppModule X))" by (simp add: AppModule_def)
  moreover have "FetchModule \<in> set (moduleImports (MetaModule X))" by (simp add: MetaModule_def)
  moreover have "ClassProvider MetaService \<in> set (providers (MetaModule X))" by (simp add: MetaModule_def)
  moreover have "set (constructorNeeds True ext MetaController) \<subseteq> set (map providerToken (providers (MetaModule X)))"
    by (simp add: MetaControllerNeeds_def MetaModule_def)
  ultimately show ?thesis
    using external_packages.node_ordered [OF assms] external_packages.meta_ordered [OF assms(1), of ext] by blast
qed

text \<open>Constructors of node-core as they could be: the store's services ask for the connection, the others for nothing.\<close>

definition sampleNeeds :: "service \<Rightarrow> token list" where
  "sampleNeeds c =
     (if c = StoreCacheService then [Cls Sequelize, Cls NodeConfig, Cls EventEmitter2, Cls SchedulerRegistry]
      else if c = StoreService then [Cls Sequelize, Cls NodeConfig, Cls StoreCacheService, Named ''ISubqueryProject'']
      else if c = ConnectionPoolService then [Cls NodeConfig, Cls ConnectionPoolStateManager]
      else if c = TestRunner then [Named ''IApi'', Cls StoreService, Named ''IIndexerManager'']
      else [])"

lemma sample_buildable: "buildable (constructorNeeds True sampleNeeds) offeredServices nodeCoreServices"
  unfolding buildable_def
  by (rule exI [of _ "map ClassProvider
      [InMemoryCacheService, StoreCacheService, StoreService, ConnectionPoolStateManager, ConnectionPoolService,
       IndexingBenchmarkService, PoiBenchmarkService, DsProcessorService, PoiService, PoiSyncService]"])
    (simp add: sampleNeeds_def needs_defs nodeCoreServices_def insert_commute)

theorem node_services_resolve_witness:
  "\<exists>ps. set ps = set (providers FetchModule) \<and>
     ordered (constructorNeeds True sampleNeeds) (globalExports (AppModule std_packages)) ps"
  by (rule node_services_resolve [OF std_packages.external_packages_axioms sample_buildable, THEN conjunct1])

text \<open>
  C32: what the module of a worker lists fits together exactly in a worker thread.  There its providers have an order over
  the tokens of the global modules, if the connection pool and the processors of node-core have one after the services that
  the module makes without asking for any.  In the main thread there is no such order, because the project service would ask
  for the services of proofs of indexing, which neither the module nor a global module has.  Each token is provided once, by
  the module or by a global module.
\<close>

theorem worker_services_resolve:
  assumes "external_packages X"
    and "buildable (constructorNeeds False ext) (map Cls [ConnectionPoolStateManager, DynamicDsService,
      UnfinalizedBlocksService, InMemoryCacheService] @ offeredServices) [ConnectionPoolService, DsProcessorService]"
  shows "((\<exists>ps. set ps = set (providers WorkerFetchModule) \<and>
      ordered (constructorNeeds isMainThread ext) (globalExports (WorkerModule X)) ps) \<longleftrightarrow> \<not> isMainThread) \<and>
    distinct (map providerToken (providers WorkerFetchModule)) \<and>
    set (map providerToken (providers WorkerFetchModule)) \<inter> set (globalExports (WorkerModule X)) = {} \<and>
    WorkerFetchModule \<in> set (moduleImports (WorkerModule X))"
proof -
  have "distinct (map providerToken (providers WorkerFetchModule))" by (simp add: WorkerFetchModule_def)
  moreover have "WorkerFetchModule \<in> set (moduleImports (WorkerModule X))" by (simp add: WorkerModule_def)
  moreover have "set (map providerToken (providers WorkerFetchModule)) \<inter> set (globalExports (WorkerModule X)) = {}"
    using external_packages.globals_not_provided [OF assms(1)]
    unfolding external_packages.globals_of_worker [OF assms(1)] by auto
  moreover have "(\<exists>ps. set ps = set (providers WorkerFetchModule) \<and>
      ordered (constructorNeeds isMainThread ext) (globalExports (WorkerModule X)) ps) \<longleftrightarrow> \<not> isMainThread"
    using external_packages.worker_needs_worker_thread [OF assms(1), of _ isMainThread ext]
      external_packages.worker_ordered [OF assms] by (cases isMainThread) auto
  ultimately show ?thesis by blast
qed

theorem worker_services_resolve_witness:
  "(\<exists>ps. set ps = set (providers WorkerFetchModule) \<and>
     ordered (constructorNeeds False sampleNeeds) (globalExports (WorkerModule std_packages)) ps) \<and>
   \<not> (\<exists>ps. set ps = set (providers WorkerFetchModule) \<and>
     ordered (constructorNeeds True sampleNeeds) (globalExports (WorkerModule std_packages)) ps)"
proof -
  have "buildable (constructorNeeds False sampleNeeds) (map Cls [ConnectionPoolStateManager, DynamicDsService,
      UnfinalizedBlocksService, InMemoryCacheService] @ offeredServices) [ConnectionPoolService, DsProcessorService]"
    unfolding buildable_def
    by (rule exI [of _ "map ClassProvider [ConnectionPoolService, DsProcessorService]"])
      (simp add: sampleNeeds_def needs_defs)
  note r = worker_services_resolve [OF std_packages.external_packages_axioms this, THEN conjunct1]
  show ?thesis unfolding r by simp
qed

text \<open>The feature modules of the subcommands for testing and reindexing have such orders too.\<close>

theorem subcommand_services_resolve:
  assumes "external_packages X" and "buildable (constructorNeeds True ext) offeredServices testingServices"
    and "buildable (constructorNeeds True ext) (remove1 (Cls SchedulerRegistry) offeredServices) reindexServices"
    and "\<forall>t \<in> set (ext TestRunner). t \<in> providerToken ` set (providers TestingFeatureModule) - {Cls TestRunner} \<or>
      t \<in> set offeredServices"
    and "\<forall>t \<in> set (ext ReindexService).
      t \<in> providerToken ` set (providers ReindexFeatureModule) - {Cls ReindexService} \<or>
      t \<in> set offeredServices - {Cls SchedulerRegistry}"
  shows "(\<exists>ps. set ps = set (providers TestingFeatureModule) \<and> ordered (constructorNeeds True ext) offeredServices ps) \<and>
    (\<exists>ps. set ps = set (providers ReindexFeatureModule) \<and>
      ordered (constructorNeeds True ext) (globalExports (ReindexModule X)) ps)"
  using external_packages.testing_ordered [OF assms(1, 2, 4)] external_packages.reindex_ordered [OF assms(1, 3, 5)] by blast

text \<open>The factory passes to the dispatcher it chooses, parameter for parameter, the services its constructor declares.\<close>

theorem dispatcher_gets_its_services:
  "map (map_of (zip dispatcherParams dispatcherInject)) (dispatcherArgs (chooseDispatcher workers)) =
     map Some (dispatcherNeeds (chooseDispatcher workers)) \<and>
   length dispatcherParams = length dispatcherInject"
  by (cases "chooseDispatcher workers")
    (simp_all add: dispatcherParams_def dispatcherInject_def BlockDispatcherServiceNeeds_def
      WorkerBlockDispatcherServiceNeeds_def)

end
