(* ===== verification/Websocket.thy ===== *)
theory Websocket
  imports Connection
begin

text \<open>
  The websocket client of \<^verbatim>\<open>indexer/rpc-clients/WebsocketClient.ts\<close>: the producer of subscription events as a
  state machine driven by the events of the socket, requests answered by the first response with their id, and
  the streams of subscriptions.  The socket, \<^verbatim>\<open>JSON.stringify\<close> and the order in which a stream serves its
  subscribers are parameters.
\<close>

section \<open>Messages\<close>

datatype JsonRpcId = NumId int | StrId string

record JsonRpcRequest =
  req_id :: JsonRpcId
  req_method :: string
  req_params :: js

record JsonRpcResponse =
  response_id :: JsonRpcId
  response_body :: rpc_response

record SocketWrapperMessageEvent =
  message_type :: string
  message_data :: string

text \<open>What a stream of responses delivers: a value, or its end by an error or by completion.\<close>

datatype 'e stream_event = Value 'e | Failed js_error | Completed

definition toJsonRpcResponse ::
    "(string \<Rightarrow> js result) \<Rightarrow> (js \<Rightarrow> JsonRpcResponse result) \<Rightarrow> SocketWrapperMessageEvent \<Rightarrow> JsonRpcResponse result" where
  "toJsonRpcResponse parseJson parseJsonRpcResponse m =
     (if message_type m \<noteq> ''message'' then throwError (''Unexcepted message type on websocket: '' @ message_type m)
      else rbind (parseJson (message_data m)) parseJsonRpcResponse)"

text \<open>\<^verbatim>\<open>socket.events.map(toJsonRpcResponse)\<close>: a conversion that throws ends the mapped stream with its error.\<close>

fun responseEvent ::
    "(string \<Rightarrow> js result) \<Rightarrow> (js \<Rightarrow> JsonRpcResponse result) \<Rightarrow> SocketWrapperMessageEvent stream_event \<Rightarrow>
     JsonRpcResponse stream_event" where
  "responseEvent parseJson parseResponse (Value m) =
     (case toJsonRpcResponse parseJson parseResponse m of Inl e \<Rightarrow> Failed e | Inr r \<Rightarrow> Value r)"
| "responseEvent parseJson parseResponse (Failed e) = Failed e"
| "responseEvent parseJson parseResponse Completed = Completed"

section \<open>The producer of subscription events\<close>

datatype subscription_kind = IdSubscription | IdEventSubscription | NonResponseSubscription

datatype notification = Next js | ErrorText string | ErrorValue js_error | Complete

text \<open>
  Beside the fields of the class, the state holds the subscriptions that are active at the response stream, the
  requests queued at the socket and what the listener was told.
\<close>

record RpcEventProducer =
  producer_request :: JsonRpcRequest
  running :: bool
  subscriptions :: "nat list"
  active :: "(nat \<times> subscription_kind) list"
  next_subscription :: nat
  queued :: "JsonRpcRequest list"
  heard :: "notification list"

definition newRpcEventProducer :: "JsonRpcRequest \<Rightarrow> RpcEventProducer" where
  "newRpcEventProducer req =
     \<lparr>producer_request = req, running = False, subscriptions = [], active = [], next_subscription = 0,
      queued = [], heard = []\<rparr>"

definition notify :: "notification \<Rightarrow> RpcEventProducer \<Rightarrow> RpcEventProducer" where
  "notify x p = p\<lparr>heard := heard p @ [x]\<rparr>"

definition unsubscribe :: "nat \<Rightarrow> RpcEventProducer \<Rightarrow> RpcEventProducer" where
  "unsubscribe n p = p\<lparr>active := filter (\<lambda>s. fst s \<noteq> n) (active p)\<rparr>"

definition closeSubscriptions :: "RpcEventProducer \<Rightarrow> RpcEventProducer" where
  "closeSubscriptions p = (fold unsubscribe (subscriptions p) p)\<lparr>subscriptions := []\<rparr>"

text \<open>The callbacks of the three subscriptions.\<close>

definition onIdResponse :: "(js \<Rightarrow> string) \<Rightarrow> nat \<Rightarrow> JsonRpcResponse \<Rightarrow> RpcEventProducer \<Rightarrow> RpcEventProducer" where
  "onIdResponse stringifyJson n response p =
     unsubscribe n
       (case response_body response of
          RpcError err \<Rightarrow> notify (ErrorText (stringifyJson err)) (closeSubscriptions p)
        | RpcSuccess r \<Rightarrow> p)"

definition onIdEvent :: "(js \<Rightarrow> string) \<Rightarrow> JsonRpcResponse \<Rightarrow> RpcEventProducer \<Rightarrow> RpcEventProducer" where
  "onIdEvent stringifyJson response p =
     (case response_body response of
        RpcError err \<Rightarrow> notify (ErrorText (stringifyJson err)) (closeSubscriptions p)
      | RpcSuccess r \<Rightarrow> notify (Next r) p)"

definition onError :: "js_error \<Rightarrow> RpcEventProducer \<Rightarrow> RpcEventProducer" where
  "onError e p = notify (ErrorValue e) (closeSubscriptions p)"

definition onComplete :: "RpcEventProducer \<Rightarrow> RpcEventProducer" where
  "onComplete p = notify Complete (closeSubscriptions p)"

fun callback ::
    "(js \<Rightarrow> string) \<Rightarrow> JsonRpcResponse stream_event \<Rightarrow> nat \<times> subscription_kind \<Rightarrow> RpcEventProducer \<Rightarrow> RpcEventProducer" where
  "callback sj (Value r) (n, IdSubscription) p =
     (if response_id r = req_id (producer_request p) then onIdResponse sj n r p else p)"
| "callback sj (Value r) (n, IdEventSubscription) p =
     (if response_id r = req_id (producer_request p) then onIdEvent sj r p else p)"
| "callback sj (Failed e) (n, NonResponseSubscription) p = onError e p"
| "callback sj Completed (n, NonResponseSubscription) p = onComplete p"
| "callback sj _ _ p = p"

text \<open>
  An event of the response stream reaches the subscriptions active at its start in the order \<open>order\<close>, except those
  that a callback has closed meanwhile.
\<close>

definition deliverTo ::
    "(js \<Rightarrow> string) \<Rightarrow> JsonRpcResponse stream_event \<Rightarrow> nat \<times> subscription_kind \<Rightarrow> RpcEventProducer \<Rightarrow> RpcEventProducer" where
  "deliverTo sj ev s p = (if s \<in> set (active p) then callback sj ev s p else p)"

type_synonym subscriber_order = "(nat \<times> subscription_kind) list \<Rightarrow> (nat \<times> subscription_kind) list"

definition deliver ::
    "(js \<Rightarrow> string) \<Rightarrow> subscriber_order \<Rightarrow> JsonRpcResponse stream_event \<Rightarrow> RpcEventProducer \<Rightarrow> RpcEventProducer" where
  "deliver sj order ev p = fold (deliverTo sj ev) (order (active p)) p"

definition connectToClient :: "RpcEventProducer \<Rightarrow> RpcEventProducer" where
  "connectToClient p =
     (let n = next_subscription p in
      p\<lparr>active := active p @ [(n, IdSubscription), (n + 1, IdEventSubscription), (n + 2, NonResponseSubscription)],
        subscriptions := subscriptions p @ [n, n + 1, n + 2],
        next_subscription := n + 3\<rparr>)"

text \<open>\<open>queueRequest\<close> gives the error the socket throws for a request, if any.\<close>

definition queue ::
    "(JsonRpcRequest \<Rightarrow> js_error option) \<Rightarrow> JsonRpcRequest \<Rightarrow> RpcEventProducer \<Rightarrow> unit result \<times> RpcEventProducer" where
  "queue queueRequest req p =
     (case queueRequest req of Some e \<Rightarrow> (Inl e, p) | None \<Rightarrow> (Inr (), p\<lparr>queued := queued p @ [req]\<rparr>))"

definition start ::
    "(JsonRpcRequest \<Rightarrow> js_error option) \<Rightarrow> RpcEventProducer \<Rightarrow> unit result \<times> RpcEventProducer" where
  "start queueRequest p =
     (if running p then (throwError ''Already started. Please stop first before restarting.'', p)
      else queue queueRequest (producer_request p) (connectToClient (p\<lparr>running := True\<rparr>)))"

definition lowerChar :: "char \<Rightarrow> char" where
  "lowerChar c = (let n = of_char c :: nat in if 65 \<le> n \<and> n \<le> 90 then char_of (n + 32) else c)"

text \<open>\<^verbatim>\<open>match(/socket has disconnected/i)\<close>\<close>

definition hasDisconnected :: "js_error \<Rightarrow> bool" where
  "hasDisconnected e = jsIncludes (map lowerChar (err_message e)) ''socket has disconnected''"

definition stop ::
    "(JsonRpcRequest \<Rightarrow> js_error option) \<Rightarrow> RpcEventProducer \<Rightarrow> unit result \<times> RpcEventProducer" where
  "stop queueRequest p =
     (case queue queueRequest ((producer_request p)\<lparr>req_method := ''unsubscribe''\<rparr>) (p\<lparr>running := False\<rparr>) of
        (Inl e, p1) \<Rightarrow> (if hasDisconnected e then Inr () else Inl e, p1)
      | (Inr u, p1) \<Rightarrow> (Inr u, p1))"

section \<open>The client\<close>

text \<open>The requests of the producers by query.\<close>

record WebsocketClient =
  ws_url :: string
  subscriptionStreams :: "string \<rightharpoonup> JsonRpcRequest"

text \<open>The class \<^verbatim>\<open>URL\<close>: parsing, which throws for an invalid address, setting the protocol, and the text.\<close>

record 'u url_lib =
  newURL :: "string \<Rightarrow> 'u result"
  setProtocol :: "string \<Rightarrow> 'u \<Rightarrow> 'u"
  urlString :: "'u \<Rightarrow> string"

definition newWebsocketClient :: "'u url_lib \<Rightarrow> string \<Rightarrow> WebsocketClient result" where
  "newWebsocketClient U baseUrl =
     rbind (newURL U baseUrl) (\<lambda>url.
       Inr \<lparr>ws_url = urlString U (if hasProtocol baseUrl then url else setProtocol U ''ws'' url),
            subscriptionStreams = Map.empty\<rparr>)"

text \<open>\<^verbatim>\<open>firstEvent\<close> of cosmjs settles with the first event of a stream, here of the responses that follow.\<close>

definition ownEvent :: "JsonRpcId \<Rightarrow> JsonRpcResponse stream_event \<Rightarrow> bool" where
  "ownEvent i ev = (case ev of Value r \<Rightarrow> response_id r = i | _ \<Rightarrow> True)"

definition responseForRequestId ::
    "(JsonRpcResponse stream_event list \<Rightarrow> JsonRpcResponse promise) \<Rightarrow> JsonRpcId \<Rightarrow>
     JsonRpcResponse stream_event list \<Rightarrow> JsonRpcResponse promise" where
  "responseForRequestId firstEvent i evs = firstEvent (filter (ownEvent i) evs)"

definition wsExecute ::
    "(JsonRpcResponse stream_event list \<Rightarrow> JsonRpcResponse promise) \<Rightarrow> (js \<Rightarrow> string) \<Rightarrow>
     (JsonRpcRequest \<Rightarrow> js_error option) \<Rightarrow> JsonRpcRequest \<Rightarrow> JsonRpcResponse stream_event list \<Rightarrow> js promise" where
  "wsExecute firstEvent sj queueRequest req evs =
     (case queueRequest req of
        Some e \<Rightarrow> [Inl e]
      | None \<Rightarrow>
          promiseThen (responseForRequestId firstEvent (req_id req) evs) (\<lambda>response.
            (case response_body response of RpcError err \<Rightarrow> throwError (sj err) | RpcSuccess r \<Rightarrow> Inr r)))"

text \<open>\<^verbatim>\<open>listen\<close> gives the request of the producer whose events are heard; responses without a query are dropped.\<close>

definition listen :: "JsonRpcRequest \<Rightarrow> WebsocketClient \<Rightarrow> (JsonRpcRequest \<times> WebsocketClient) result" where
  "listen req c =
     (if req_method req \<noteq> ''subscribe'' then
        throwError ''Request method must be \"subscribe\" to start event listening''
      else rbind (jsGet (req_params req) ''query'') (\<lambda>query.
        (case query of
           JStr q \<Rightarrow>
             (case subscriptionStreams c q of
                Some r \<Rightarrow> Inr (r, c)
              | None \<Rightarrow> Inr (req, c\<lparr>subscriptionStreams := (subscriptionStreams c)(q \<mapsto> req)\<rparr>))
         | _ \<Rightarrow> throwError ''request.params.query must be a string'')))"

definition hasQuery :: "js \<Rightarrow> bool result" where
  "hasQuery response = rbind (jsGet response ''query'') (\<lambda>q. Inr (q \<noteq> JUndefined))"

section \<open>Closing subscriptions\<close>

lemma fold_unsubscribe: "fold unsubscribe ns p = p\<lparr>active := filter (\<lambda>s. fst s \<notin> set ns) (active p)\<rparr>"
  by (induction ns arbitrary: p) (auto simp: unsubscribe_def intro: arg_cong [where f = "\<lambda>x. _\<lparr>active := x\<rparr>"] filter_cong)

lemma closeSubscriptions_eq:
  "closeSubscriptions p =
   p\<lparr>active := filter (\<lambda>s. fst s \<notin> set (subscriptions p)) (active p), subscriptions := []\<rparr>"
  by (simp add: closeSubscriptions_def fold_unsubscribe)

text \<open>
  The invariant of a producer: active subscriptions are distinct and stored, identifiers are fresh, and as long as a
  subscription is active, the ones that end the subscription on an error response and on the end of the socket are.
\<close>

definition wfProducer :: "RpcEventProducer \<Rightarrow> bool" where
  "wfProducer p \<longleftrightarrow>
     distinct (map fst (active p)) \<and> fst ` set (active p) \<subseteq> set (subscriptions p) \<and>
     (\<forall>n \<in> set (subscriptions p). n < next_subscription p) \<and>
     (active p \<noteq> [] \<longrightarrow> IdEventSubscription \<in> snd ` set (active p) \<and> NonResponseSubscription \<in> snd ` set (active p))"

definition closedWith :: "notification \<Rightarrow> RpcEventProducer \<Rightarrow> RpcEventProducer" where
  "closedWith x p = p\<lparr>active := [], subscriptions := [], heard := heard p @ [x]\<rparr>"

lemma close_notify: "wfProducer p \<Longrightarrow> notify x (closeSubscriptions p) = closedWith x p"
proof -
  assume "wfProducer p"
  then have "filter (\<lambda>s. fst s \<notin> set (subscriptions p)) (active p) = []"
    by (auto simp: wfProducer_def filter_empty_conv)
  then show ?thesis by (simp add: closeSubscriptions_eq notify_def closedWith_def)
qed

text \<open>The events that end a subscription, with what the listener is told.\<close>

fun ending :: "(js \<Rightarrow> string) \<Rightarrow> JsonRpcId \<Rightarrow> JsonRpcResponse stream_event \<Rightarrow> notification option" where
  "ending sj i (Value r) =
     (case response_body r of
        RpcError err \<Rightarrow> (if response_id r = i then Some (ErrorText (sj err)) else None)
      | RpcSuccess v \<Rightarrow> None)"
| "ending sj i (Failed e) = Some (ErrorValue e)"
| "ending sj i Completed = Some Complete"

definition reacts :: "JsonRpcResponse stream_event \<Rightarrow> subscription_kind \<Rightarrow> bool" where
  "reacts ev k = (case ev of Value r \<Rightarrow> k \<noteq> NonResponseSubscription | _ \<Rightarrow> k = NonResponseSubscription)"

lemma deliverTo_ending:
  assumes "wfProducer p" and "ending sj (req_id (producer_request p)) ev = Some x"
  shows "deliverTo sj ev s p = (if s \<in> set (active p) \<and> reacts ev (snd s) then closedWith x p else p)"
  using assms
  by (cases "(sj, ev, s, p)" rule: callback.cases)
    (auto simp: deliverTo_def reacts_def onIdResponse_def onIdEvent_def onError_def onComplete_def close_notify
      unsubscribe_def closedWith_def split: rpc_response.splits if_splits)

lemma fold_deliverTo_closed: "fold (deliverTo sj ev) ss (closedWith x p) = closedWith x p"
  by (induction ss) (simp_all add: deliverTo_def closedWith_def)

lemma fold_deliverTo_ending:
  assumes "wfProducer p" and "ending sj (req_id (producer_request p)) ev = Some x"
    and "\<exists>s \<in> set ss. s \<in> set (active p) \<and> reacts ev (snd s)"
  shows "fold (deliverTo sj ev) ss p = closedWith x p"
  using assms(3)
proof (induction ss)
  case (Cons s ss)
  then show ?case
    by (cases "s \<in> set (active p) \<and> reacts ev (snd s)")
      (auto simp: deliverTo_ending [OF assms(1, 2)] fold_deliverTo_closed)
qed simp

lemma deliverTo_going:
  assumes "ending sj (req_id (producer_request p)) ev = None"
  shows "deliverTo sj ev s p =
    (case ev of
       Value r \<Rightarrow>
         (if response_id r = req_id (producer_request p) \<and> s \<in> set (active p) then
            (case snd s of
               IdSubscription \<Rightarrow> unsubscribe (fst s) p
             | IdEventSubscription \<Rightarrow> (case response_body r of RpcSuccess v \<Rightarrow> notify (Next v) p | RpcError v \<Rightarrow> p)
             | NonResponseSubscription \<Rightarrow> p)
          else p)
     | _ \<Rightarrow> p)"
  using assms
  by (cases "(sj, ev, s, p)" rule: callback.cases)
    (auto simp: deliverTo_def onIdResponse_def onIdEvent_def split: rpc_response.splits if_splits)

text \<open>A response with the id of the request that is no error ends the first subscription and is passed on by the second.\<close>

definition passOn :: "js \<Rightarrow> (nat \<times> subscription_kind) list \<Rightarrow> RpcEventProducer \<Rightarrow> RpcEventProducer" where
  "passOn v ss p =
     p\<lparr>active := filter (\<lambda>s. \<not> (s \<in> set ss \<and> snd s = IdSubscription)) (active p),
       heard := heard p @ replicate (length (filter (\<lambda>s. snd s = IdEventSubscription \<and> s \<in> set (active p)) ss)) (Next v)\<rparr>"

lemma unsubscribe_active:
  assumes "distinct (map fst (active p))" and "s \<in> set (active p)"
  shows "unsubscribe (fst s) p = p\<lparr>active := filter (\<lambda>t. t \<noteq> s) (active p)\<rparr>"
proof -
  have "inj_on fst (set (active p))" using assms(1) by (simp add: distinct_map)
  then have "filter (\<lambda>t. fst t \<noteq> fst s) (active p) = filter (\<lambda>t. t \<noteq> s) (active p)"
    using assms(2) by (intro filter_cong) (auto dest: inj_onD)
  then show ?thesis by (simp add: unsubscribe_def)
qed

lemma fold_deliverTo_success:
  assumes "distinct (map fst (active p))" and "response_id r = req_id (producer_request p)"
    and "response_body r = RpcSuccess v"
  shows "fold (deliverTo sj (Value r)) ss p = passOn v ss p"
  using assms
proof (induction ss arbitrary: p)
  case Nil
  then show ?case by (simp add: passOn_def)
next
  case (Cons s ss)
  have going: "ending sj (req_id (producer_request p)) (Value r) = None" using Cons.prems by simp
  consider (id) "snd s = IdSubscription" "s \<in> set (active p)"
    | (ev) "snd s = IdEventSubscription" "s \<in> set (active p)"
    | (none) "s \<notin> set (active p) \<or> snd s = NonResponseSubscription"
    by (cases "snd s") auto
  then show ?case
  proof cases
    case id
    let ?p = "p\<lparr>active := filter (\<lambda>t. t \<noteq> s) (active p)\<rparr>"
    have "deliverTo sj (Value r) s p = ?p"
      using id Cons.prems by (simp add: deliverTo_going [OF going] unsubscribe_active)
    moreover have "fold (deliverTo sj (Value r)) ss ?p = passOn v ss ?p"
      using Cons.prems by (intro Cons.IH) (simp_all add: distinct_map_filter)
    moreover have "passOn v ss ?p = passOn v (s # ss) p"
    proof -
      have "(snd t = IdEventSubscription \<and> t \<noteq> s \<and> t \<in> set (active p)) = (snd t = IdEventSubscription \<and> t \<in> set (active p))" for t
        using id by auto
      moreover have "(\<not> (t \<in> set ss \<and> snd t = IdSubscription) \<and> t \<noteq> s) = (\<not> ((t = s \<or> t \<in> set ss) \<and> snd t = IdSubscription))" for t
        using id by auto
      ultimately show ?thesis using id by (simp add: passOn_def conj_comms)
    qed
    ultimately show ?thesis by simp
  next
    case ev
    let ?p = "notify (Next v) p"
    have "deliverTo sj (Value r) s p = ?p"
      using ev Cons.prems by (simp add: deliverTo_going [OF going])
    moreover have "fold (deliverTo sj (Value r)) ss ?p = passOn v ss ?p"
      using Cons.prems by (intro Cons.IH) (simp_all add: notify_def)
    moreover have "passOn v ss ?p = passOn v (s # ss) p"
    proof -
      have "(t \<in> set ss \<and> snd t = IdSubscription) = ((t = s \<or> t \<in> set ss) \<and> snd t = IdSubscription)" for t
        using ev by auto
      then show ?thesis using ev by (simp add: passOn_def notify_def)
    qed
    ultimately show ?thesis by simp
  next
    case none
    have "deliverTo sj (Value r) s p = p"
      using none Cons.prems by (auto simp: deliverTo_going [OF going])
    moreover have "passOn v ss p = passOn v (s # ss) p"
    proof -
      have "filter (\<lambda>t. \<not> (t \<in> set ss \<and> snd t = IdSubscription)) (active p) =
          filter (\<lambda>t. \<not> (t \<in> set (s # ss) \<and> snd t = IdSubscription)) (active p)"
        using none by (intro filter_cong) auto
      then show ?thesis using none by (auto simp: passOn_def)
    qed
    ultimately show ?thesis using Cons by simp
  qed
qed

lemma fold_deliverTo_foreign:
  "response_id r \<noteq> req_id (producer_request p) \<Longrightarrow> fold (deliverTo sj (Value r)) ss p = p"
  by (induction ss) (simp_all add: deliverTo_going split: rpc_response.split)

section \<open>The producer as a state machine\<close>

text \<open>A stream serves every subscriber once, in some order.\<close>

locale subscriber_stream =
  fixes order :: subscriber_order
  assumes mset_order: "mset (order ss) = mset ss"
begin

lemma set_order: "set (order ss) = set ss"
  using mset_order [of ss] by (metis set_mset_mset)

lemma deliver_ending:
  assumes "wfProducer p" and "ending sj (req_id (producer_request p)) ev = Some x"
  shows "deliver sj order ev p = (if active p = [] then p else closedWith x p)"
proof (cases "active p = []")
  case True
  have "order [] = []" using mset_order [of "[]"] by simp
  with True show ?thesis by (simp add: deliver_def)
next
  case False
  with assms(1) have "IdEventSubscription \<in> snd ` set (active p) \<and> NonResponseSubscription \<in> snd ` set (active p)"
    by (simp add: wfProducer_def)
  then have "\<exists>s \<in> set (order (active p)). s \<in> set (active p) \<and> reacts ev (snd s)"
    by (cases ev) (fastforce simp: reacts_def set_order)+
  with False show ?thesis
    by (simp add: deliver_def fold_deliverTo_ending [OF assms])
qed

lemma deliver_success:
  assumes "wfProducer p" and "response_id r = req_id (producer_request p)" and "response_body r = RpcSuccess v"
  shows "deliver sj order (Value r) p =
    p\<lparr>active := filter (\<lambda>s. snd s \<noteq> IdSubscription) (active p),
      heard := heard p @ replicate (length (filter (\<lambda>s. snd s = IdEventSubscription) (active p))) (Next v)\<rparr>"
proof -
  have "size (filter_mset (\<lambda>s. snd s = IdEventSubscription \<and> s \<in> set (active p)) (mset (order (active p)))) =
      size (filter_mset (\<lambda>s. snd s = IdEventSubscription) (mset (active p)))"
    unfolding mset_order by (intro arg_cong [where f = size] filter_mset_cong) auto
  then have "length (filter (\<lambda>s. snd s = IdEventSubscription \<and> s \<in> set (active p)) (order (active p))) =
      length (filter (\<lambda>s. snd s = IdEventSubscription) (active p))"
    by (simp flip: mset_filter size_mset)
  moreover have "filter (\<lambda>s. \<not> (s \<in> set (order (active p)) \<and> snd s = IdSubscription)) (active p) =
      filter (\<lambda>s. snd s \<noteq> IdSubscription) (active p)"
    by (intro filter_cong) (auto simp: set_order)
  ultimately show ?thesis
    using assms by (simp add: deliver_def fold_deliverTo_success wfProducer_def passOn_def)
qed

lemma deliver_foreign:
  "response_id r \<noteq> req_id (producer_request p) \<Longrightarrow> deliver sj order (Value r) p = p"
  by (simp add: deliver_def fold_deliverTo_foreign)

lemma deliver_cases:
  assumes "wfProducer p"
  obtains (ending) x where "ending sj (req_id (producer_request p)) ev = Some x"
      "deliver sj order ev p = (if active p = [] then p else closedWith x p)"
  | (success) r v where "ev = Value r" "response_id r = req_id (producer_request p)" "response_body r = RpcSuccess v"
  | (foreign) r where "ev = Value r" "response_id r \<noteq> req_id (producer_request p)" "deliver sj order ev p = p"
proof (cases "ending sj (req_id (producer_request p)) ev")
  case None
  then obtain r where r: "ev = Value r" by (cases ev) auto
  show ?thesis
  proof (cases "response_id r = req_id (producer_request p)")
    case True
    with None r obtain v where "response_body r = RpcSuccess v" by (cases "response_body r") auto
    with True r show ?thesis by (rule_tac success) auto
  next
    case False
    with r show ?thesis by (intro foreign) (simp_all add: deliver_foreign)
  qed
next
  case (Some x)
  with assms show ?thesis by (intro ending) (simp_all add: deliver_ending)
qed

lemma wf_deliver:
  assumes "wfProducer p"
  shows "wfProducer (deliver sj order ev p)"
proof (cases rule: deliver_cases [OF assms, of sj ev, case_names ending success foreign])
  case (ending x)
  with assms show ?thesis by (simp add: closedWith_def wfProducer_def)
next
  case (success r v)
  have "fst ` {s \<in> set (active p). snd s \<noteq> IdSubscription} \<subseteq> fst ` set (active p)" by auto
  with success assms show ?thesis
    by (fastforce simp: deliver_success wfProducer_def distinct_map_filter filter_empty_conv image_iff)
next
  case (foreign r)
  with assms show ?thesis by simp
qed

end

text \<open>Subscribers served in the order in which they subscribed.\<close>

interpretation fifo: subscriber_stream "\<lambda>ss. ss"
  by unfold_locales simp

text \<open>
  The stream that owns the producer calls \<open>stop\<close>, after its last listener has left, or from within a callback when the
  producer tells it an error or completion.  The stream is a library's, and its calls are steps of their own.  It makes no
  difference when within a delivery it stops the producer, because delivery neither reads nor writes what \<open>stop\<close> changes.
\<close>

lemma unsubscribe_frame: "unsubscribe n (p\<lparr>running := b, queued := qs\<rparr>) = (unsubscribe n p)\<lparr>running := b, queued := qs\<rparr>"
  by (simp add: unsubscribe_def)

lemma close_frame:
  "closeSubscriptions (p\<lparr>running := b, queued := qs\<rparr>) = (closeSubscriptions p)\<lparr>running := b, queued := qs\<rparr>"
proof -
  have "fold unsubscribe ns (p\<lparr>running := b, queued := qs\<rparr>) = (fold unsubscribe ns p)\<lparr>running := b, queued := qs\<rparr>" for ns p
    by (induction ns arbitrary: p) (simp_all add: unsubscribe_frame)
  then show ?thesis by (simp add: closeSubscriptions_def)
qed

lemmas callback_defs = onIdResponse_def onIdEvent_def onError_def onComplete_def notify_def

lemma callback_frame:
  "callback sj ev s (p\<lparr>running := b, queued := qs\<rparr>) = (callback sj ev s p)\<lparr>running := b, queued := qs\<rparr>"
proof (cases "(sj, ev, s, p)" rule: callback.cases)
  case (1 sj' r n p')
  then show ?thesis
    using close_frame [of qs b p] unsubscribe_frame [of n]
    by (cases "response_body r") (simp_all add: callback_defs, simp_all add: unsubscribe_def)
next
  case (2 sj' r n p')
  then show ?thesis using close_frame [of qs b p] by (cases "response_body r") (simp_all add: callback_defs)
qed (use close_frame [of qs b p] in \<open>simp_all add: callback_defs\<close>)

lemma deliver_frame:
  "deliver sj order ev (p\<lparr>running := b, queued := qs\<rparr>) = (deliver sj order ev p)\<lparr>running := b, queued := qs\<rparr>"
proof -
  have "fold (deliverTo sj ev) ss (p\<lparr>running := b, queued := qs\<rparr>) = (fold (deliverTo sj ev) ss p)\<lparr>running := b, queued := qs\<rparr>" for ss p
    by (induction ss arbitrary: p) (simp_all add: deliverTo_def callback_frame)
  then show ?thesis by (simp add: deliver_def)
qed

text \<open>The producer's life: it is created, started and stopped, and hears the events of the socket.\<close>

inductive producer_reachable ::
    "(js \<Rightarrow> string) \<Rightarrow> subscriber_order \<Rightarrow> (JsonRpcRequest \<Rightarrow> js_error option) \<Rightarrow> JsonRpcRequest \<Rightarrow> RpcEventProducer \<Rightarrow> bool"
  for sj order queueRequest req where
  created: "producer_reachable sj order queueRequest req (newRpcEventProducer req)"
| started: "producer_reachable sj order queueRequest req p \<Longrightarrow>
    producer_reachable sj order queueRequest req (snd (start queueRequest p))"
| stopped: "producer_reachable sj order queueRequest req p \<Longrightarrow>
    producer_reachable sj order queueRequest req (snd (stop queueRequest p))"
| delivered: "producer_reachable sj order queueRequest req p \<Longrightarrow>
    producer_reachable sj order queueRequest req (deliver sj order ev p)"

lemma queue_frame:
  "active (snd (queue q req p)) = active p" "subscriptions (snd (queue q req p)) = subscriptions p"
  "next_subscription (snd (queue q req p)) = next_subscription p" "heard (snd (queue q req p)) = heard p"
  "running (snd (queue q req p)) = running p" "producer_request (snd (queue q req p)) = producer_request p"
  by (simp_all add: queue_def split: option.split)

lemma stop_eq: "snd (stop q p) = snd (queue q ((producer_request p)\<lparr>req_method := ''unsubscribe''\<rparr>) (p\<lparr>running := False\<rparr>))"
  by (simp add: stop_def split: prod.split sum.split)

lemma start_fields:
  assumes "\<not> running p"
  shows "active (snd (start q p)) = active p @ [(next_subscription p, IdSubscription),
      (next_subscription p + 1, IdEventSubscription), (next_subscription p + 2, NonResponseSubscription)]"
    and "subscriptions (snd (start q p)) = subscriptions p @ [next_subscription p, next_subscription p + 1, next_subscription p + 2]"
    and "next_subscription (snd (start q p)) = next_subscription p + 3"
    and "heard (snd (start q p)) = heard p" and "producer_request (snd (start q p)) = producer_request p"
    and "running (snd (start q p))"
  using assms by (simp_all add: start_def queue_frame connectToClient_def Let_def)

lemma wf_start: "wfProducer p \<Longrightarrow> wfProducer (snd (start q p))"
proof (cases "running p")
  case False
  assume wf: "wfProducer p"
  let ?n = "next_subscription p"
  have lt: "\<forall>s \<in> set (active p). fst s < ?n" and old: "\<forall>m \<in> set (subscriptions p). m < ?n"
    using wf by (auto simp: wfProducer_def)
  have "distinct (map fst (active (snd (start q p))))"
    using lt wf by (force simp: start_fields [OF False] wfProducer_def)
  moreover have "\<forall>m \<in> set (subscriptions (snd (start q p))). m < next_subscription (snd (start q p))"
    using old by (auto simp: start_fields [OF False])
  moreover have "fst ` set (active (snd (start q p))) \<subseteq> set (subscriptions (snd (start q p)))"
    using wf by (auto simp: start_fields [OF False] wfProducer_def)
  ultimately show ?thesis by (simp add: wfProducer_def start_fields [OF False])
qed (simp add: start_def)

lemma start_request: "producer_request (snd (start q p)) = producer_request p"
  by (cases "running p") (simp_all add: start_fields, simp add: start_def)

lemma wf_stop: "wfProducer p \<Longrightarrow> wfProducer (snd (stop q p))"
  by (simp add: stop_eq wfProducer_def queue_frame)

lemma stop_request: "producer_request (snd (stop q p)) = producer_request p"
  by (simp add: stop_eq queue_frame)

lemma request_new: "producer_request (newRpcEventProducer req) = req"
  by (simp add: newRpcEventProducer_def)

lemma wf_new: "wfProducer (newRpcEventProducer req)"
  by (simp add: newRpcEventProducer_def wfProducer_def)

lemma closedWith_fields [simp]:
  "active (closedWith x p) = []" "subscriptions (closedWith x p) = []" "heard (closedWith x p) = heard p @ [x]"
  "producer_request (closedWith x p) = producer_request p" "running (closedWith x p) = running p"
  by (simp_all add: closedWith_def)

text \<open>What a listener is to hear of a sequence of events: the own results up to the first event that ends the subscription.\<close>

fun expected :: "(js \<Rightarrow> string) \<Rightarrow> JsonRpcId \<Rightarrow> JsonRpcResponse stream_event list \<Rightarrow> notification list" where
  "expected sj i [] = []"
| "expected sj i (ev # evs) =
     (case ending sj i ev of
        Some x \<Rightarrow> [x]
      | None \<Rightarrow>
          (case ev of
             Value r \<Rightarrow>
               (if response_id r = i then (case response_body r of RpcSuccess v \<Rightarrow> [Next v] | RpcError e \<Rightarrow> []) else [])
           | _ \<Rightarrow> []) @ expected sj i evs)"

context subscriber_stream
begin

lemma deliver_request: "wfProducer p \<Longrightarrow> producer_request (deliver sj order ev p) = producer_request p"
  by (cases rule: deliver_cases [of p sj ev]) (simp_all add: deliver_success)

lemma wf_reachable:
  "producer_reachable sj order q req p \<Longrightarrow> wfProducer p \<and> producer_request p = req"
  by (induction rule: producer_reachable.induct)
    (simp_all add: wf_new wf_start wf_stop wf_deliver deliver_request start_request request_new stop_request)

lemma deliver_inactive: "active p = [] \<Longrightarrow> deliver sj order ev p = p"
  using mset_order [of "[]"] by (simp add: deliver_def)

lemma fold_deliver_inactive: "active p = [] \<Longrightarrow> fold (deliver sj order) evs p = p"
  by (induction evs) (simp_all add: deliver_inactive)

text \<open>A producer with one active subscription for events hears each result once.\<close>

lemma fold_deliver_heard:
  assumes "wfProducer p" and "length (filter (\<lambda>s. snd s = IdEventSubscription) (active p)) = 1"
  shows "heard (fold (deliver sj order) evs p) = heard p @ expected sj (req_id (producer_request p)) evs"
  using assms
proof (induction evs arbitrary: p)
  case (Cons ev evs)
  have ne: "active p \<noteq> []" using Cons.prems by auto
  show ?case
  proof (cases rule: deliver_cases [OF Cons.prems(1), of sj ev, case_names ending success foreign])
    case (ending x)
    with ne show ?thesis by (simp add: fold_deliver_inactive)
  next
    case (success r v)
    have "filter (\<lambda>s. snd s \<noteq> IdSubscription \<and> snd s = IdEventSubscription) (active p) =
        filter (\<lambda>s. snd s = IdEventSubscription) (active p)"
      by (intro filter_cong) auto
    with Cons success show ?thesis
      using wf_deliver [OF Cons.prems(1), of sj ev] by (simp add: deliver_success)
  next
    case (foreign r)
    with Cons show ?thesis by (simp split: rpc_response.split)
  qed
qed simp

end

section \<open>Properties\<close>

text \<open>
  C22: in every reachable state of a producer, an event that ends the subscription (an error response with the id of the
  request, an error of the socket or of a message, the completion of the socket) closes all subscriptions, also those left
  by earlier starts, and tells the listener so exactly once; with no active subscription nothing is heard.  The order in
  which the stream serves the subscriptions does not matter.
\<close>

theorem ending_closes_all:
  assumes order: "\<And>ss. mset (order ss) = mset ss"
    and "producer_reachable sj order queueRequest req p" and "ending sj (req_id req) ev = Some x"
  shows "active (deliver sj order ev p) = [] \<and>
    heard (deliver sj order ev p) = heard p @ (if active p = [] then [] else [x])"
proof -
  have stream: "subscriber_stream order" by (rule subscriber_stream.intro) (rule order)
  have "wfProducer p \<and> producer_request p = req"
    using subscriber_stream.wf_reachable [OF stream] assms(2) .
  with assms(3) show ?thesis
    by (simp add: subscriber_stream.deliver_ending [OF stream])
qed

definition subscribeRequest :: JsonRpcRequest where
  "subscribeRequest = \<lparr>req_id = NumId 7, req_method = ''subscribe'', req_params = JObj [(''query'', JStr ''q'')]\<rparr>"

theorem ending_closes_all_witness:
  "heard (deliver (\<lambda>_. ''e'') (\<lambda>ss. ss) Completed
     (snd (start (\<lambda>_. None) (newRpcEventProducer subscribeRequest)))) = [Complete]"
proof -
  let ?p = "snd (start (\<lambda>_. None) (newRpcEventProducer subscribeRequest))"
  have "producer_reachable (\<lambda>_. ''e'') (\<lambda>ss. ss) (\<lambda>_. None) subscribeRequest ?p"
    by (intro producer_reachable.intros)
  moreover have "heard ?p = []" "active ?p \<noteq> []"
    by (simp_all add: newRpcEventProducer_def start_fields)
  ultimately show ?thesis
    using ending_closes_all [of "\<lambda>ss. ss" "\<lambda>_. ''e''" "\<lambda>_. None" subscribeRequest ?p Completed Complete] by simp
qed

text \<open>
  C21: the listener of a producer that was started once hears, for every sequence of events of the socket, the results
  of the responses with the id of the request in order and once each, up to the first event that ends the
  subscription, and then that event's notification and nothing more.
\<close>

theorem listener_hears_expected:
  assumes order: "\<And>ss. mset (order ss) = mset ss"
  shows "heard (fold (deliver sj order) evs (snd (start queueRequest (newRpcEventProducer req)))) =
    expected sj (req_id req) evs"
proof -
  let ?p = "snd (start queueRequest (newRpcEventProducer req))"
  have stream: "subscriber_stream order" by (rule subscriber_stream.intro) (rule order)
  have "length (filter (\<lambda>s. snd s = IdEventSubscription) (active ?p)) = 1" "heard ?p = []" "producer_request ?p = req"
    by (simp_all add: newRpcEventProducer_def start_fields)
  then show ?thesis
    using subscriber_stream.fold_deliver_heard [OF stream, of ?p] by (simp add: wf_start wf_new)
qed

definition resultFor :: "js \<Rightarrow> JsonRpcResponse" where
  "resultFor v = \<lparr>response_id = NumId 7, response_body = RpcSuccess v\<rparr>"

theorem listener_hears_expected_witness:
  "heard (fold (deliver (\<lambda>_. ''e'') rev)
     [Value (resultFor (JStr ''a'')), Value \<lparr>response_id = NumId 8, response_body = RpcError JNull\<rparr>,
      Value (resultFor (JStr ''b'')), Failed (JsError ''Error'' ''gone''), Value (resultFor (JStr ''c''))]
     (snd (start (\<lambda>_. None) (newRpcEventProducer subscribeRequest)))) =
   [Next (JStr ''a''), Next (JStr ''b''), ErrorValue (JsError ''Error'' ''gone'')]"
  by (subst listener_hears_expected) (simp_all add: subscribeRequest_def resultFor_def)

text \<open>
  C39: stopping a producer does not close its subscriptions, so a listener of a producer that was stopped and started
  again hears every result twice.
\<close>

theorem restart_duplicates:
  assumes order: "\<And>ss. mset (order ss) = mset ss"
    and "response_id r = req_id req" and "response_body r = RpcSuccess v"
  shows "heard (deliver sj order (Value r)
      (snd (start queueRequest (snd (stop queueRequest (snd (start queueRequest (newRpcEventProducer req)))))))) =
    [Next v, Next v]"
proof -
  have stream: "subscriber_stream order" by (rule subscriber_stream.intro) (rule order)
  let ?p1 = "snd (start queueRequest (newRpcEventProducer req))"
  let ?p2 = "snd (stop queueRequest ?p1)"
  let ?p3 = "snd (start queueRequest ?p2)"
  have nr: "\<not> running ?p2" by (simp add: stop_eq queue_frame)
  have "active ?p2 = active ?p1" "heard ?p2 = heard ?p1" by (simp_all add: stop_eq queue_frame)
  then have "length (filter (\<lambda>s. snd s = IdEventSubscription) (active ?p3)) = 2" "heard ?p3 = []"
    by (simp_all add: start_fields [OF nr]) (simp_all add: newRpcEventProducer_def start_fields)
  moreover have "producer_request ?p3 = req" "wfProducer ?p3"
    by (simp_all add: start_request stop_request request_new wf_start wf_stop wf_new)
  ultimately show ?thesis
    using assms(2, 3) by (simp add: subscriber_stream.deliver_success [OF stream] numeral_2_eq_2)
qed

theorem restart_duplicates_witness:
  "heard (deliver (\<lambda>_. ''e'') (\<lambda>ss. ss) (Value (resultFor (JStr ''a'')))
      (snd (start (\<lambda>_. None) (snd (stop (\<lambda>_. None) (snd (start (\<lambda>_. None) (newRpcEventProducer subscribeRequest)))))))) =
    [Next (JStr ''a''), Next (JStr ''a'')]"
  by (rule restart_duplicates) (simp_all add: subscribeRequest_def resultFor_def)

text \<open>\<^verbatim>\<open>firstEvent\<close> settles with the first event of the stream and rejects when the stream ends before one.\<close>

locale first_event_lib =
  fixes firstEvent :: "'e stream_event list \<Rightarrow> 'e promise"
  assumes first_value: "firstEvent (Value v # evs) = [Inr v]"
    and first_failed: "firstEvent (Failed e # evs) = [Inl e]"

definition stdFirstEvent :: "'e stream_event list \<Rightarrow> 'e promise" where
  "stdFirstEvent evs =
     (case evs of
        [] \<Rightarrow> []
      | Value v # _ \<Rightarrow> [Inr v]
      | Failed e # _ \<Rightarrow> [Inl e]
      | Completed # _ \<Rightarrow> [throwError ''Stream completed before all events could be collected''])"

interpretation std_first: first_event_lib stdFirstEvent
  by unfold_locales (simp_all add: stdFirstEvent_def)

text \<open>
  A request is settled by the first response with its id, whatever other responses come before or after: with the
  result of a success response, with the JSON text of an error response.
\<close>

theorem wsExecute_settles:
  assumes "first_event_lib firstEvent" and "queueRequest req = None"
    and "\<And>ev. ev \<in> set before \<Longrightarrow> \<exists>r'. ev = Value r' \<and> response_id r' \<noteq> req_id req" and "response_id r = req_id req"
  shows "wsExecute firstEvent sj queueRequest req (before @ Value r # after) =
    [case response_body r of RpcSuccess v \<Rightarrow> Inr v | RpcError err \<Rightarrow> throwError (sj err)]"
proof -
  have "filter (ownEvent (req_id req)) before = []"
    using assms(3) by (fastforce simp: ownEvent_def filter_empty_conv)
  then have "responseForRequestId firstEvent (req_id req) (before @ Value r # after) = [Inr r]"
    using assms(1, 4) by (simp add: responseForRequestId_def ownEvent_def first_event_lib.first_value)
  with assms(2) show ?thesis
    by (simp add: wsExecute_def promiseThen_def split: rpc_response.split)
qed

theorem wsExecute_settles_witness:
  "wsExecute stdFirstEvent (\<lambda>_. ''e'') (\<lambda>_. None) subscribeRequest
     [Value \<lparr>response_id = StrId ''7'', response_body = RpcError JNull\<rparr>, Value (resultFor (JStr ''a'')), Completed] =
   [Inr (JStr ''a'')]"
  using wsExecute_settles [OF std_first.first_event_lib_axioms, of "\<lambda>_. None" subscribeRequest
      "[Value \<lparr>response_id = StrId ''7'', response_body = RpcError JNull\<rparr>]" "resultFor (JStr ''a'')" "\<lambda>_. ''e''" "[Completed]"]
  by (simp add: subscribeRequest_def resultFor_def)

text \<open>Listening to a query again uses the producer of the first request.\<close>

lemma listen_reuses:
  assumes "listen req c = Inr (r, c')" and "req_params req' = req_params req" and "req_method req' = ''subscribe''"
  shows "listen req' c' = Inr (r, c')"
proof -
  obtain v where v: "jsGet (req_params req) ''query'' = Inr v"
    using assms(1) by (cases "jsGet (req_params req) ''query''") (auto simp: listen_def split: if_splits)
  obtain q where "v = JStr q"
    using assms(1) v by (cases v) (auto simp: listen_def split: if_splits)
  with assms v show ?thesis
    by (auto simp: listen_def split: if_splits option.splits)
qed

end
