(* ===== verification/Codegen.thy ===== *)
theory Codegen
  imports Ds_Processor
begin

text \<open>
  The code generator of \<^verbatim>\<open>common-cosmos/src/codegen\<close>: the names derived from the paths of protobuf files, the
  jobs prepared from the assets and chain types of a project, and the two generators with the effects they have.
  The effects (directories, the generators of third parties, templates) are actions whose outcomes the environment
  gives; \<^verbatim>\<open>path.join\<close> is modelled for POSIX paths.
\<close>

section \<open>Paths\<close>

definition backslash :: char where
  "backslash = CHR 0x5C"

text \<open>The segments of a path with \<^verbatim>\<open>.\<close> and \<^verbatim>\<open>..\<close> resolved; at the root \<^verbatim>\<open>..\<close> has no effect.\<close>

fun resolveSegments :: "bool \<Rightarrow> string list \<Rightarrow> string list \<Rightarrow> string list" where
  "resolveSegments absolute acc [] = rev acc"
| "resolveSegments absolute acc (w # ws) =
     (if w = [] \<or> w = ''.'' then resolveSegments absolute acc ws
      else if w = ''..'' then
        (case acc of
           a # acc' \<Rightarrow> (if a \<noteq> ''..'' then resolveSegments absolute acc' ws else resolveSegments absolute (w # acc) ws)
         | [] \<Rightarrow> resolveSegments absolute (if absolute then [] else [w]) ws)
      else resolveSegments absolute (w # acc) ws)"

definition isAbsolute :: "string \<Rightarrow> bool" where
  "isAbsolute p = (take 1 p = ''/'')"

definition normalizePath :: "string \<Rightarrow> string" where
  "normalizePath p =
     (if p = [] then ''.''
      else
        (let absolute = isAbsolute p;
             trailing = (last p = CHR ''/'');
             res = joinWith ''/'' (resolveSegments absolute [] (splitOn (CHR ''/'') p))
         in if res = [] then (if absolute then ''/'' else if trailing then ''./'' else ''.'')
            else (if absolute then ''/'' else []) @ res @ (if trailing then ''/'' else [])))"

definition pathJoin :: "string list \<Rightarrow> string" where
  "pathJoin ps = normalizePath (joinWith ''/'' (filter (\<lambda>p. p \<noteq> []) ps))"

text \<open>\<^verbatim>\<open>path.basename\<close> and \<^verbatim>\<open>path.dirname\<close> of Node are parameters of the operations that use them.\<close>

section \<open>Names of protobuf files\<close>

definition stripPrefix :: "string \<Rightarrow> string \<Rightarrow> string" where
  "stripPrefix p s = (if startsWith s p then drop (length p) s else s)"

definition stripSuffix :: "string \<Rightarrow> string \<Rightarrow> string" where
  "stripSuffix p s = (if length p \<le> length s \<and> drop (length s - length p) s = p then take (length s - length p) s else s)"

text \<open>\<^verbatim>\<open>path.replace(/^\.\/proto\/|\.proto$/g, '')\<close>\<close>

definition stripProto :: "string \<Rightarrow> string" where
  "stripProto s = stripSuffix ''.proto'' (stripPrefix ''./proto/'' s)"

definition processProtoFilePath :: "string \<Rightarrow> string" where
  "processProtoFilePath p = ''./proto-interfaces/'' @ map (\<lambda>c. if c = CHR ''.'' then CHR ''/'' else c) (stripProto p)"

text \<open>
  Splitting at the slashes that follow two backslashes or no backslash; the first argument holds the characters
  before the position, last first.
\<close>

fun splitSlashes :: "string \<Rightarrow> string \<Rightarrow> string list" where
  "splitSlashes before [] = [[]]"
| "splitSlashes before (c # cs) =
     (if c = CHR ''/'' \<and> (take 2 before = [backslash, backslash] \<or> take 1 before \<noteq> [backslash])
      then [] # splitSlashes (c # before) cs
      else (case splitSlashes (c # before) cs of w # ws \<Rightarrow> (c # w) # ws | [] \<Rightarrow> [[c]]))"

definition pathToNamespace :: "string \<Rightarrow> string" where
  "pathToNamespace p = joinWith ''.'' (splitSlashes [] (stripProto p))"

definition pathToName :: "(string \<Rightarrow> string) \<Rightarrow> string \<Rightarrow> string" where
  "pathToName upperFirst p = concat (map upperFirst (splitOn (CHR ''.'') (pathToNamespace p)))"

definition isProtoPath :: "string \<Rightarrow> string \<Rightarrow> bool" where
  "isProtoPath filePath projectPath = startsWith (pathJoin [projectPath, filePath]) (pathJoin [projectPath, ''./proto/''])"

section \<open>Preparing the jobs\<close>

record CosmwasmRenderJobType =
  contract :: string
  job_messages :: "(string \<times> string) list"

record ProtobufRenderProps =
  messageNames :: "string list"
  props_namespace :: string
  props_name :: string
  props_path :: string

record CustomModule =
  module_file :: string
  module_messages :: "string list"

text \<open>The titles of the three entry points of a contract's interface.\<close>

record IDLObject =
  instantiate_title :: "string option"
  migrate_title :: "string option"
  execute_title :: "string option"

text \<open>The environment: the file system's answers, the loading of interfaces, and lodash's \<^verbatim>\<open>upperFirst\<close>.\<close>

record codegen_lib =
  existsSync :: "string \<Rightarrow> bool"
  loadFromJsonOrYaml :: "string \<Rightarrow> IDLObject result"
  upperFirst :: "string \<Rightarrow> string"

definition upperFirstTitle :: "codegen_lib \<Rightarrow> string option \<Rightarrow> string" where
  "upperFirstTitle L t = (case t of None \<Rightarrow> [] | Some s \<Rightarrow> upperFirst L s)"

definition msgObject :: "codegen_lib \<Rightarrow> IDLObject \<Rightarrow> (string \<times> string) list" where
  "msgObject L c =
     [(''MsgInstantiateContract'', upperFirstTitle L (instantiate_title c)),
      (''MsgMigrateContract'', upperFirstTitle L (migrate_title c)),
      (''MsgExecuteContract'', upperFirstTitle L (execute_title c))]"

definition prepareCosmwasmJobs :: "codegen_lib \<Rightarrow> (string \<times> string) list \<Rightarrow> CosmwasmRenderJobType list result" where
  "prepareCosmwasmJobs L sortedAssets =
     rmap (\<lambda>(key, value).
       rbind (loadFromJsonOrYaml L value) (\<lambda>readContract.
         Inr \<lparr>contract = upperFirst L key, job_messages = filter (\<lambda>kv. snd kv \<noteq> []) (msgObject L readContract)\<rparr>)) sortedAssets"

definition addAsset ::
    "codegen_lib \<Rightarrow> string \<Rightarrow> string \<times> string \<Rightarrow> (string \<times> string) list \<Rightarrow> (string \<times> string) list result" where
  "addAsset L projectPath nv sortedAssets =
     (let filePath = pathJoin [projectPath, snd nv] in
      if \<not> existsSync L filePath then
        throwError (''Error: Asset '' @ fst nv @ '', file '' @ snd nv @ '' does not exist'')
      else Inr (setProp (fst nv) filePath sortedAssets))"

definition prepareSortedAssets ::
    "codegen_lib \<Rightarrow> CosmosDatasource list \<Rightarrow> string \<Rightarrow> (string \<times> string) list result" where
  "prepareSortedAssets L datasources projectPath =
     rfold (\<lambda>d. rfold (addAsset L projectPath) (case assets d of None \<Rightarrow> [] | Some as \<Rightarrow> as))
       (filter (\<lambda>d. assets d \<noteq> None \<and> isRuntimeCosmosDs d) datasources) []"

text \<open>The entry of one chain type; \<open>None\<close> stands for an undefined value, which is filtered out.\<close>

definition chainTypeProps ::
    "codegen_lib \<Rightarrow> string \<Rightarrow> string \<times> CustomModule \<Rightarrow> ProtobufRenderProps option result" where
  "chainTypeProps L projectPath kv =
     (let filePath = module_file (snd kv);
          messages = filter (\<lambda>m. indexOf m ''Msg'' = 0) (module_messages (snd kv)) in
      if \<not> existsSync L (pathJoin [projectPath, filePath]) then
        throwError (''Error: chainType '' @ fst kv @ '', file '' @ filePath @ '' does not exist'')
      else Inr (if messages = [] then None
         else Some \<lparr>messageNames = messages, props_namespace = pathToNamespace filePath,
                    props_name = pathToName (upperFirst L) filePath, props_path = processProtoFilePath filePath\<rparr>))"

definition prepareProtobufRenderProps ::
    "codegen_lib \<Rightarrow> (string \<times> CustomModule) list option list option \<Rightarrow> string \<Rightarrow> ProtobufRenderProps list result" where
  "prepareProtobufRenderProps L chaintypes projectPath =
     (case chaintypes of
        None \<Rightarrow> Inr []
      | Some cts \<Rightarrow>
          rbind (rmap (rmap (chainTypeProps L projectPath)) (List.map_filter id cts))
            (\<lambda>pss. Inr (concat (map (List.map_filter id) pss))))"

section \<open>Options of the generators\<close>

abbreviation disabled :: js where
  "disabled \<equiv> JObj [(''enabled'', JBool False)]"

abbreviation enabled :: js where
  "enabled \<equiv> JObj [(''enabled'', JBool True)]"

definition TELESCOPE_OPTS :: js where
  "TELESCOPE_OPTS = JObj
    [(''removeUnusedImports'', JBool True),
     (''interfaces'', JObj [(''enabled'', JBool False), (''useUnionTypes'', JBool False)]),
     (''prototypes'', JObj
       [(''enabled'', JBool False),
        (''addTypeUrlToDecoders'', JBool True),
        (''addTypeUrlToObjects'', JBool True),
        (''excluded'', JObj
          [(''packages'', JArr [JStr ''amino'', JStr ''gogoproto'']),
           (''protos'', JArr [JStr ''**/query.proto''])]),
        (''methods'', JObj
          [(''fromJSON'', JBool False), (''toJSON'', JBool False), (''encode'', JBool False), (''decode'', JBool False),
           (''toSDK'', JBool False), (''fromSDK'', JBool False), (''toAmino'', JBool False), (''fromAmino'', JBool False),
           (''fromProto'', JBool False), (''toProto'', JBool False)]),
        (''parser'', JObj [(''keepCase'', JBool False)]),
        (''typingsFormat'', JObj
          [(''duration'', JStr ''duration''), (''timestamp'', JStr ''date''), (''useExact'', JBool False),
           (''useDeepPartial'', JBool False)])]),
     (''aminoEncoding'', JObj [(''enabled'', JBool False), (''exceptions'', JObj [])]),
     (''lcdClients'', disabled),
     (''rpcClients'', JObj [(''enabled'', JBool False), (''camelCase'', JBool True)])]"

definition COSMWASM_OPTS :: "string \<Rightarrow> js list \<Rightarrow> js" where
  "COSMWASM_OPTS outPath contracts = JObj
    [(''contracts'', JArr contracts),
     (''outPath'', JStr outPath),
     (''options'', JObj [(''bundle'', disabled), (''types'', enabled), (''messageComposer'', enabled)])]"

section \<open>Effects\<close>

datatype action =
    PrepareDirPath string bool
  | CosmwasmCodegen js
  | RenderWrapper string CosmwasmRenderJobType
  | CopySync string string
  | Telescope js
  | RenderMessageTypes string "ProtobufRenderProps list"
  | RmSync string

text \<open>
  The outcomes of the actions, of making a temporary directory, and the functions of Node's \<^verbatim>\<open>path\<close> and \<^verbatim>\<open>require\<close>
  the generators use.
\<close>

record codegen_env =
  outcome :: "action \<Rightarrow> unit promise"
  makeTempDir :: "string promise"
  dirname :: "string \<Rightarrow> string"
  basename :: "string \<Rightarrow> string"
  requirePackage :: "string \<Rightarrow> string"

text \<open>The runs of an asynchronous computation: its possible results, each with the actions performed.\<close>

type_synonym 'a run = "('a result \<times> action list) list"

definition pureRun :: "'a result \<Rightarrow> 'a run" where
  "pureRun r = [(r, [])]"

definition perform :: "codegen_env \<Rightarrow> action \<Rightarrow> unit run" where
  "perform E a = map (\<lambda>r. (r, [a])) (outcome E a)"

definition runThen :: "'a run \<Rightarrow> ('a \<Rightarrow> 'b run) \<Rightarrow> 'b run" where
  "runThen p f =
     concat (map (\<lambda>(r, log). case r of Inl e \<Rightarrow> [(Inl e, log)] | Inr v \<Rightarrow> map (\<lambda>(r', log'). (r', log @ log')) (f v)) p)"

text \<open>\<^verbatim>\<open>Promise.all\<close>: every action is started.\<close>

definition performAll :: "codegen_env \<Rightarrow> action list \<Rightarrow> unit run" where
  "performAll E as = map (\<lambda>r. (rbind r (\<lambda>_. Inr ()), as)) (promiseAll (map (outcome E) as))"

definition runSeq :: "codegen_env \<Rightarrow> action list \<Rightarrow> unit run" where
  "runSeq E as = foldr (\<lambda>a p. runThen (perform E a) (\<lambda>_. p)) as (pureRun (Inr ()))"

definition runCatch :: "(js_error \<Rightarrow> 'a result) \<Rightarrow> 'a run \<Rightarrow> 'a run" where
  "runCatch h p = map (\<lambda>(r, log). (case r of Inl e \<Rightarrow> h e | Inr v \<Rightarrow> Inr v, log)) p"

definition COSMWASM_INTERFACES_ROOT_DIR :: string where
  "COSMWASM_INTERFACES_ROOT_DIR = ''src/types/cosmwasm-interfaces''"

definition COSMWASM_INTERFACE_WRAPPER_PATH :: string where
  "COSMWASM_INTERFACE_WRAPPER_PATH = ''/src/types/cosmwasm-interface-wrappers''"

definition PROTO_INTERFACES_ROOT_DIR :: string where
  "PROTO_INTERFACES_ROOT_DIR = ''src/types/proto-interfaces''"

definition TYPE_ROOT_DIR :: string where
  "TYPE_ROOT_DIR = ''src/types''"

definition contractFiles :: "codegen_env \<Rightarrow> (string \<times> string) list \<Rightarrow> js list" where
  "contractFiles E sortedAssets =
     map (\<lambda>(name, dir). JObj [(''name'', JStr name), (''dir'', JStr (dirname E dir))]) sortedAssets"

definition renderWrapper :: "string \<Rightarrow> CosmwasmRenderJobType \<Rightarrow> action" where
  "renderWrapper projectPath job =
     RenderWrapper (pathJoin [projectPath, COSMWASM_INTERFACE_WRAPPER_PATH, contract job @ ''MsgWrapper.ts'']) job"

definition generateCosmwasm :: "codegen_lib \<Rightarrow> codegen_env \<Rightarrow> CosmosDatasource list \<Rightarrow> string \<Rightarrow> unit run" where
  "generateCosmwasm L E datasources projectPath =
     (let interfaces = pathJoin [projectPath, COSMWASM_INTERFACES_ROOT_DIR] in
      runThen (pureRun (prepareSortedAssets L datasources projectPath)) (\<lambda>sortedAssets.
        if sortedAssets = [] then perform E (PrepareDirPath interfaces False)
        else
          runThen (performAll E [PrepareDirPath interfaces True,
                                 PrepareDirPath (pathJoin [projectPath, COSMWASM_INTERFACE_WRAPPER_PATH]) True]) (\<lambda>_.
          runCatch (\<lambda>e. Inr ())
            (runThen (perform E (CosmwasmCodegen (COSMWASM_OPTS interfaces (contractFiles E sortedAssets)))) (\<lambda>_.
             runThen (pureRun (prepareCosmwasmJobs L sortedAssets)) (\<lambda>renderJobs.
               performAll E (map (renderWrapper projectPath) renderJobs)))))))"

text \<open>The temporary directory of protobuf files.\<close>

definition commonProtos :: "string list" where
  "commonProtos =
     [''@protobufs/amino'', ''@protobufs/confio'', ''@protobufs/cosmos'', ''@protobufs/cosmos_proto'',
      ''@protobufs/cosmwasm'', ''@protobufs/gogoproto'', ''@protobufs/google'', ''@protobufs/ibc'',
      ''@protobufs/tendermint'']"

definition tmpProtoDir :: "codegen_env \<Rightarrow> string \<Rightarrow> string \<Rightarrow> string" where
  "tmpProtoDir E tmpDir protoPath = pathJoin [tmpDir, basename E protoPath]"

definition tempProtoDir :: "codegen_env \<Rightarrow> string \<Rightarrow> string run" where
  "tempProtoDir E projectPath =
     runThen (map (\<lambda>r. (r, [])) (makeTempDir E)) (\<lambda>tmpDir.
     runThen (runSeq E (map (\<lambda>p. CopySync (requirePackage E p) (tmpProtoDir E tmpDir (requirePackage E p))) commonProtos
                        @ [CopySync (pathJoin [projectPath, ''./proto'']) tmpDir])) (\<lambda>_.
     pureRun (Inr tmpDir)))"

definition protoBody ::
    "codegen_lib \<Rightarrow> codegen_env \<Rightarrow> (string \<times> CustomModule) list option list \<Rightarrow> string \<Rightarrow> string \<Rightarrow> unit run" where
  "protoBody L E chaintypes projectPath tmpPath =
     (let outputPath = pathJoin [projectPath, PROTO_INTERFACES_ROOT_DIR] in
      runThen (pureRun (prepareProtobufRenderProps L (Some chaintypes) projectPath)) (\<lambda>protobufRenderProps.
      runThen (perform E (PrepareDirPath outputPath True)) (\<lambda>_.
      runThen (perform E (Telescope (JObj [(''protoDirs'', JArr [JStr tmpPath]), (''outPath'', JStr outputPath),
                                           (''options'', TELESCOPE_OPTS)]))) (\<lambda>_.
        perform E (RenderMessageTypes (pathJoin [projectPath, TYPE_ROOT_DIR, ''CosmosMessageTypes.ts'']) protobufRenderProps)))))"

definition protoFailure :: "js_error \<Rightarrow> js_error" where
  "protoFailure e =
     JsError ''Error''
       (''Failed to generate from protobufs. '' @ err_message e @ '', '' @
        (if startsWith (err_message e) ''Dependency'' then ''Please add the missing protobuf file to ./proto directory'' else []))"

text \<open>
  The \<^verbatim>\<open>finally\<close> block removes the directory; it throws when the path was not assigned, and what it throws replaces
  the result.
\<close>

definition removeTemp :: "codegen_env \<Rightarrow> string option \<Rightarrow> unit result \<times> action list \<Rightarrow> unit run" where
  "removeTemp E tmpPath rl =
     (case tmpPath of
        None \<Rightarrow> [(throwTypeError ''The path argument must be of type string or an instance of Buffer or URL. Received undefined'', snd rl)]
      | Some t \<Rightarrow>
          map (\<lambda>r. (case r of Inl e \<Rightarrow> Inl e | Inr _ \<Rightarrow> fst rl, snd rl @ [RmSync t])) (outcome E (RmSync t)))"

definition generateProto ::
    "codegen_lib \<Rightarrow> codegen_env \<Rightarrow> (string \<times> CustomModule) list option list \<Rightarrow> string \<Rightarrow> unit run" where
  "generateProto L E chaintypes projectPath =
     concat (map (\<lambda>(r, log).
       (case r of
          Inl e \<Rightarrow> removeTemp E None (Inl (protoFailure e), log)
        | Inr tmpPath \<Rightarrow>
            concat (map (removeTemp E (Some tmpPath))
              (map (\<lambda>(r', log'). (map_sum protoFailure id r', log @ log'))
                (protoBody L E chaintypes projectPath tmpPath)))))
       (tempProtoDir E projectPath))"

section \<open>Lemmas on paths\<close>

lemma startsWith_refl_append: "startsWith (p @ s) p"
  by simp

lemma stripSuffix_append: "stripSuffix p (s @ p) = s"
  by (simp add: stripSuffix_def)

lemma stripProto_path: "stripProto (''./proto/'' @ s @ ''.proto'') = s"
proof -
  have "stripPrefix ''./proto/'' (''./proto/'' @ t) = t" for t
    by (simp add: stripPrefix_def startsWith_def)
  then show ?thesis unfolding stripProto_def by (simp only: stripSuffix_append)
qed

lemma set_joinWith: "c \<in> set (joinWith sep ws) \<Longrightarrow> c \<in> set sep \<or> (\<exists>w \<in> set ws. c \<in> set w)"
  by (induction sep ws rule: joinWith.induct) auto

lemma splitSlashes_plain:
  "backslash \<notin> set s \<Longrightarrow> take 1 before \<noteq> [backslash] \<Longrightarrow> splitSlashes before s = splitOn (CHR ''/'') s"
proof (induction s arbitrary: before)
  case (Cons c s)
  have "splitSlashes (c # before) s = splitOn (CHR ''/'') s"
    using Cons.prems by (intro Cons.IH) auto
  then show ?case
    using Cons.prems by (cases "splitOn (CHR ''/'') s") (auto simp: backslash_def)
qed simp

lemma map_dot_joinWith:
  assumes "\<And>w. w \<in> set ws \<Longrightarrow> CHR ''.'' \<notin> set w"
  shows "map (\<lambda>c. if c = CHR ''.'' then CHR ''/'' else c) (joinWith ''/'' ws) = joinWith ''/'' ws"
proof (rule map_idI)
  fix c assume "c \<in> set (joinWith ''/'' ws)"
  with set_joinWith [of c "''/''" ws] assms have "c \<noteq> CHR ''.''" by auto
  then show "(if c = CHR ''.'' then CHR ''/'' else c) = c" by simp
qed

lemma eq_upto_slash:
  "c \<notin> set u \<Longrightarrow> c \<notin> set v \<Longrightarrow> u @ c # x = v @ c # y \<longleftrightarrow> u = v \<and> x = y"
proof (induction u arbitrary: v)
  case (Cons a u)
  then show ?case by (cases v) auto
qed (auto simp: Cons_eq_append_conv)

text \<open>A directory is a prefix of a path exactly if its segments are.\<close>

lemma joinWith_dir_prefix:
  assumes "\<And>w. w \<in> set S \<Longrightarrow> CHR ''/'' \<notin> set w" and "\<And>w. w \<in> set A \<Longrightarrow> CHR ''/'' \<notin> set w"
    and "A \<noteq> []" and "S \<noteq> []" and "t = [] \<or> t = ''/''"
  shows "startsWith (joinWith ''/'' S @ t) (joinWith ''/'' A @ ''/'') \<longleftrightarrow> (\<exists>rest. S = A @ rest \<and> (rest \<noteq> [] \<or> t = ''/''))"
  using assms(1-4)
proof (induction A arbitrary: S)
  case (Cons a A)
  obtain s S' where S: "S = s # S'" using Cons.prems by (cases S) auto
  have na: "CHR ''/'' \<notin> set a" and ns: "CHR ''/'' \<notin> set s" using Cons.prems S by auto
  show ?case
  proof (cases "S' = []")
    case True
    have "(\<exists>x. s @ t = joinWith ''/'' (a # A) @ CHR ''/'' # x) \<longleftrightarrow> A = [] \<and> s = a \<and> t = ''/''"
    proof (cases "A = []")
      case True
      then show ?thesis using assms(5) ns eq_upto_slash [OF ns na, of "[]"]
        by (auto dest: arg_cong [where f = set])
    next
      case False
      then show ?thesis using assms(5) ns eq_upto_slash [OF ns na, of "[]"]
        by (auto simp: joinWith_Cons_not_Nil dest: arg_cong [where f = set])
    qed
    with True S show ?thesis by (auto simp: startsWith_iff)
  next
    case False
    have js: "joinWith ''/'' S @ t = s @ CHR ''/'' # (joinWith ''/'' S' @ t)"
      using False S by (simp add: joinWith_Cons_not_Nil)
    show ?thesis
    proof (cases "A = []")
      case True
      then have "startsWith (joinWith ''/'' S @ t) (joinWith ''/'' (a # A) @ ''/'') \<longleftrightarrow> s = a"
        by (auto simp: startsWith_iff js eq_upto_slash [OF ns na])
      with True False S show ?thesis by auto
    next
      case A: False
      have "startsWith (joinWith ''/'' S @ t) (joinWith ''/'' (a # A) @ ''/'') \<longleftrightarrow>
          s = a \<and> startsWith (joinWith ''/'' S' @ t) (joinWith ''/'' A @ ''/'')"
        using A by (auto simp: startsWith_iff js joinWith_Cons_not_Nil eq_upto_slash [OF ns na])
      also have "\<dots> \<longleftrightarrow> s = a \<and> (\<exists>rest. S' = A @ rest \<and> (rest \<noteq> [] \<or> t = ''/''))"
        using Cons.IH [of S'] Cons.prems S False A by auto
      finally show ?thesis using S by auto
    qed
  qed
qed simp

text \<open>Resolving the segments of a path.\<close>

definition cleanSegment :: "string \<Rightarrow> bool" where
  "cleanSegment w \<longleftrightarrow> w \<noteq> [] \<and> w \<noteq> ''.'' \<and> w \<noteq> ''..'' \<and> CHR ''/'' \<notin> set w"

lemma resolveSegments_clean:
  "list_all cleanSegment ws \<Longrightarrow> resolveSegments b acc (ws @ vs) = resolveSegments b (rev ws @ acc) vs"
  by (induction ws arbitrary: acc) (auto simp: cleanSegment_def)

lemma resolveSegments_no_slash:
  assumes "\<And>w. w \<in> set ws \<union> set acc \<Longrightarrow> CHR ''/'' \<notin> set w" and "v \<in> set (resolveSegments b acc ws)"
  shows "CHR ''/'' \<notin> set v"
  using assms by (induction b acc ws rule: resolveSegments.induct) (auto split: if_splits list.splits)

lemma resolveSegments_not_empty:
  assumes "[] \<notin> set acc" and "v \<in> set (resolveSegments b acc ws)"
  shows "v \<noteq> []"
  using assms by (induction b acc ws rule: resolveSegments.induct) (auto split: if_splits list.splits)

lemma joinWith_not_Nil: "ws \<noteq> [] \<Longrightarrow> [] \<notin> set ws \<Longrightarrow> joinWith sep ws \<noteq> []"
  by (induction sep ws rule: joinWith.induct) auto

text \<open>Joining an absolute project path of clean segments with a relative path.\<close>

definition projectDir :: "string list \<Rightarrow> string" where
  "projectDir ps = ''/'' @ joinWith ''/'' ps"

definition resolved :: "string list \<Rightarrow> string \<Rightarrow> string list" where
  "resolved ps f = resolveSegments True (rev ps) (splitOn (CHR ''/'') f)"

lemma pathJoin_project:
  assumes "list_all cleanSegment ps" and "ps \<noteq> []" and "f \<noteq> []"
  shows "pathJoin [projectDir ps, f] =
    (if resolved ps f = [] then ''/''
     else ''/'' @ joinWith ''/'' (resolved ps f) @ (if last f = CHR ''/'' then ''/'' else []))"
proof -
  let ?p = "projectDir ps @ CHR ''/'' # f"
  have joined: "joinWith ''/'' (filter (\<lambda>p. p \<noteq> []) [projectDir ps, f]) = ?p"
    using assms(3) by (simp add: projectDir_def)
  have "splitOn (CHR ''/'') (joinWith ''/'' ps @ CHR ''/'' # f) = ps @ splitOn (CHR ''/'') f"
    using assms(1, 2)
  proof (induction ps)
    case (Cons a ps)
    then have na: "CHR ''/'' \<notin> set a" by (simp add: cleanSegment_def)
    with Cons show ?case by (cases ps) (simp_all add: splitOn_append)
  qed simp
  then have segs: "splitOn (CHR ''/'') ?p = [] # ps @ splitOn (CHR ''/'') f" by (simp add: projectDir_def)
  have res: "resolveSegments True [] (splitOn (CHR ''/'') ?p) = resolved ps f"
    using assms(1) by (simp add: segs resolved_def resolveSegments_clean)
  have "[] \<notin> set (rev ps)" using assms(1) by (auto simp: list_all_iff cleanSegment_def)
  then have ne: "joinWith ''/'' (resolved ps f) = [] \<longleftrightarrow> resolved ps f = []"
    using joinWith_not_Nil [of "resolved ps f"] resolveSegments_not_empty by (fastforce simp: resolved_def)
  have "isAbsolute ?p" by (simp add: isAbsolute_def projectDir_def)
  then show ?thesis
    using assms(3) ne unfolding pathJoin_def joined normalizePath_def Let_def by (simp add: res)
qed

lemma resolved_proto:
  assumes "list_all cleanSegment ps"
  shows "resolved ps ''./proto/'' = ps @ [''proto'']"
  by (simp add: resolved_def)

section \<open>Lemmas on runs\<close>

lemma runThen_mem:
  "(r, log) \<in> set (runThen p f) \<longleftrightarrow>
   (\<exists>e. r = Inl e \<and> (Inl e, log) \<in> set p) \<or>
   (\<exists>v log1 log2. (Inr v, log1) \<in> set p \<and> (r, log2) \<in> set (f v) \<and> log = log1 @ log2)"
proof
  assume "(r, log) \<in> set (runThen p f)"
  then obtain r0 l0 where m: "(r0, l0) \<in> set p"
    and c: "(r, log) \<in> set (case r0 of Inl e \<Rightarrow> [(Inl e, l0)] | Inr v \<Rightarrow> map (\<lambda>(r', log'). (r', l0 @ log')) (f v))"
    by (auto simp: runThen_def)
  then show "(\<exists>e. r = Inl e \<and> (Inl e, log) \<in> set p) \<or>
   (\<exists>v log1 log2. (Inr v, log1) \<in> set p \<and> (r, log2) \<in> set (f v) \<and> log = log1 @ log2)"
    by (cases r0) auto
qed (force simp: runThen_def)

lemma perform_mem: "(r, log) \<in> set (perform E a) \<longleftrightarrow> r \<in> set (outcome E a) \<and> log = [a]"
  by (auto simp: perform_def)

lemma pureRun_mem: "(r, log) \<in> set (pureRun r') \<longleftrightarrow> r = r' \<and> log = []"
  by (simp add: pureRun_def)

lemma performAll_mem:
  assumes "(r, log) \<in> set (performAll E as)"
  shows "log = as \<and> (case r of Inl e \<Rightarrow> \<exists>a \<in> set as. Inl e \<in> set (outcome E a) | Inr _ \<Rightarrow> \<forall>a \<in> set as. Inr () \<in> set (outcome E a))"
proof -
  obtain q where q: "q \<in> set (promiseAll (map (outcome E) as))" "r = rbind q (\<lambda>_. Inr ())" "log = as"
    using assms by (auto simp: performAll_def)
  show ?thesis
  proof (cases q)
    case (Inl e)
    with q show ?thesis by (auto simp: promiseAll_Inl)
  next
    case (Inr vs)
    with q have "list_all2 (\<lambda>v p. Inr v \<in> set p) vs (map (outcome E) as)" by (simp add: promiseAll_Inr)
    then have "\<forall>a \<in> set as. Inr () \<in> set (outcome E a)"
      by (fastforce simp: list_all2_conv_all_nth in_set_conv_nth)
    with q Inr show ?thesis by simp
  qed
qed

lemma runCatch_mem:
  "(r, log) \<in> set (runCatch h p) \<longleftrightarrow> (\<exists>r0. (r0, log) \<in> set p \<and> r = (case r0 of Inl e \<Rightarrow> h e | Inr v \<Rightarrow> Inr v))"
  by (force simp: runCatch_def)

lemma runCatch_resolves: "(Inl e, log) \<notin> set (runCatch (\<lambda>_. Inr v) p)"
  by (auto simp: runCatch_mem split: sum.splits)

lemmas run_simps = runThen_mem perform_mem pureRun_mem runCatch_mem

section \<open>Properties\<close>

text \<open>
  C34: the names derived from a protobuf file \<^verbatim>\<open>./proto/a/b/c.proto\<close>, whose path starts with \<^verbatim>\<open>./proto/\<close>, ends with
  \<^verbatim>\<open>.proto\<close> and has segments without dot, slash and backslash between, follow its path: the path of the generated
  interface is \<^verbatim>\<open>./proto-interfaces/a/b/c\<close>, the namespace \<^verbatim>\<open>a.b.c\<close>, from which the path can be recovered, and the name is the
  concatenation of the capitalised segments.
\<close>

theorem proto_names:
  assumes "ws \<noteq> []" and "\<And>w c. w \<in> set ws \<Longrightarrow> c \<in> set w \<Longrightarrow> c \<noteq> CHR ''.'' \<and> c \<noteq> CHR ''/'' \<and> c \<noteq> backslash"
  defines "p \<equiv> ''./proto/'' @ joinWith ''/'' ws @ ''.proto''"
  shows "processProtoFilePath p = ''./proto-interfaces/'' @ joinWith ''/'' ws \<and> pathToNamespace p = joinWith ''.'' ws \<and>
    splitOn (CHR ''.'') (pathToNamespace p) = ws \<and> pathToName upper p = concat (map upper ws)"
proof -
  have strip: "stripProto p = joinWith ''/'' ws" unfolding p_def by (rule stripProto_path)
  have "backslash \<notin> set (joinWith ''/'' ws)"
  proof
    assume "backslash \<in> set (joinWith ''/'' ws)"
    with set_joinWith [of backslash "''/''" ws] assms(2) show False by (auto simp: backslash_def)
  qed
  moreover have "splitOn (CHR ''/'') (joinWith ''/'' ws) = ws"
    using assms(1, 2) by (intro splitOn_joinWith) auto
  ultimately have ns: "pathToNamespace p = joinWith ''.'' ws"
    by (simp add: pathToNamespace_def strip splitSlashes_plain)
  moreover have "splitOn (CHR ''.'') (joinWith ''.'' ws) = ws"
    using assms(1, 2) by (intro splitOn_joinWith) auto
  moreover have "map (\<lambda>c. if c = CHR ''.'' then CHR ''/'' else c) (joinWith ''/'' ws) = joinWith ''/'' ws"
    using assms(2) by (intro map_dot_joinWith) auto
  ultimately show ?thesis by (simp add: processProtoFilePath_def strip pathToName_def)
qed

theorem proto_names_witness:
  "pathToNamespace ''./proto/osmosis/gamm/tx.proto'' = ''osmosis.gamm.tx'' \<and>
   processProtoFilePath ''./proto/osmosis/gamm/tx.proto'' = ''./proto-interfaces/osmosis/gamm/tx''"
proof -
  have "c \<noteq> CHR ''.'' \<and> c \<noteq> CHR ''/'' \<and> c \<noteq> backslash" if "w \<in> set [''osmosis'', ''gamm'', ''tx'']" "c \<in> set w" for w c
    using that by (auto simp: backslash_def)
  then show ?thesis
    using proto_names [of "[''osmosis'', ''gamm'', ''tx'']" "\<lambda>s. s"] by simp
qed

text \<open>
  C33: a file counts as a protobuf file of the project exactly if, with \<^verbatim>\<open>.\<close> and \<^verbatim>\<open>..\<close> resolved, it lies inside the
  directory \<^verbatim>\<open>proto\<close> of the project: no relative path escapes it.
\<close>

theorem isProtoPath_iff:
  assumes "list_all cleanSegment ps" and "ps \<noteq> []" and "f \<noteq> []"
  shows "isProtoPath f (projectDir ps) \<longleftrightarrow>
    (\<exists>rest. resolved ps f = ps @ ''proto'' # rest \<and> (rest \<noteq> [] \<or> last f = CHR ''/''))"
proof (cases "resolved ps f = []")
  case True
  have "''/'' \<noteq> ''/'' @ joinWith ''/'' (ps @ [''proto'']) @ ''/'' @ t" for t by (cases ps) auto
  with True show ?thesis
    using assms(1, 2) by (simp add: isProtoPath_def pathJoin_project [OF assms] pathJoin_project resolved_proto startsWith_iff)
next
  case False
  let ?t = "if last f = CHR ''/'' then ''/'' else []"
  have slash_f: "CHR ''/'' \<notin> set w" if "w \<in> set (resolved ps f)" for w
  proof (rule resolveSegments_no_slash)
    show "w \<in> set (resolveSegments True (rev ps) (splitOn (CHR ''/'') f))" using that by (simp add: resolved_def)
    show "CHR ''/'' \<notin> set v" if "v \<in> set (splitOn (CHR ''/'') f) \<union> set (rev ps)" for v
      using that assms(1) splitOn_no_sep by (auto simp: list_all_iff cleanSegment_def)
  qed
  have slash_p: "CHR ''/'' \<notin> set w" if "w \<in> set (ps @ [''proto''])" for w
  proof -
    have "\<forall>v \<in> set ps. CHR ''/'' \<notin> set v" using assms(1) by (simp add: list_all_iff cleanSegment_def)
    with that show ?thesis by auto
  qed
  have "isProtoPath f (projectDir ps) \<longleftrightarrow>
      startsWith (joinWith ''/'' (resolved ps f) @ ?t) (joinWith ''/'' (ps @ [''proto'']) @ ''/'')"
    using False assms(1, 2) by (simp add: isProtoPath_def pathJoin_project [OF assms] pathJoin_project resolved_proto startsWith_iff)
  also have "\<dots> \<longleftrightarrow> (\<exists>rest. resolved ps f = (ps @ [''proto'']) @ rest \<and> (rest \<noteq> [] \<or> ?t = ''/''))"
    by (rule joinWith_dir_prefix) (use slash_f slash_p False in auto)
  finally show ?thesis by simp
qed

theorem isProtoPath_iff_witness:
  "isProtoPath ''./proto/a/../b.proto'' ''/app'' \<and> \<not> isProtoPath ''./proto/../b.proto'' ''/app''"
proof -
  have "resolved [''app''] ''./proto/a/../b.proto'' = [''app'', ''proto'', ''b.proto'']"
    "resolved [''app''] ''./proto/../b.proto'' = [''app'', ''b.proto'']" "projectDir [''app''] = ''/app''"
    by (simp_all add: resolved_def projectDir_def)
  then show ?thesis
    using isProtoPath_iff [of "[''app'']" "''./proto/a/../b.proto''"] isProtoPath_iff [of "[''app'']" "''./proto/../b.proto''"]
    by (simp add: cleanSegment_def)
qed

lemma indexOf_0_iff: "indexOf m p = 0 \<longleftrightarrow> startsWith m p"
proof (cases m)
  case Nil
  then show ?thesis by (auto simp: indexOf_def startsWith_def)
next
  case (Cons c cs)
  then show ?thesis
    using indexOfFrom_range [of 1 cs p] by (auto simp: indexOf_def)
qed

text \<open>The entries of the chain types, with the messages the wrappers are generated for.\<close>

definition chainTypeEntries :: "(string \<times> CustomModule) list option list \<Rightarrow> (string \<times> CustomModule) list" where
  "chainTypeEntries cts = concat (List.map_filter id cts)"

definition rpcMessages :: "string \<times> CustomModule \<Rightarrow> string list" where
  "rpcMessages kv = filter (\<lambda>m. startsWith m ''Msg'') (module_messages (snd kv))"

definition propsOf :: "codegen_lib \<Rightarrow> string \<times> CustomModule \<Rightarrow> ProtobufRenderProps" where
  "propsOf L kv =
     \<lparr>messageNames = rpcMessages kv, props_namespace = pathToNamespace (module_file (snd kv)),
      props_name = pathToName (upperFirst L) (module_file (snd kv)),
      props_path = processProtoFilePath (module_file (snd kv))\<rparr>"

lemma chainTypeProps_eq:
  "chainTypeProps L projectPath kv =
   (if existsSync L (pathJoin [projectPath, module_file (snd kv)])
    then Inr (if rpcMessages kv = [] then None else Some (propsOf L kv))
    else throwError (''Error: chainType '' @ fst kv @ '', file '' @ module_file (snd kv) @ '' does not exist''))"
  by (simp add: chainTypeProps_def Let_def rpcMessages_def propsOf_def indexOf_0_iff)

text \<open>
  C37: the properties for the message wrappers can be prepared exactly if the files of all chain types exist; then
  they are those of the chain types with a message whose name begins with \<^verbatim>\<open>Msg\<close>, in order and with just these messages.
  Whether a file lies below \<^verbatim>\<open>./proto\<close> has no influence.
\<close>

theorem renderProps_iff:
  "prepareProtobufRenderProps L (Some cts) projectPath = Inr ps \<longleftrightarrow>
   (\<forall>kv \<in> set (chainTypeEntries cts). existsSync L (pathJoin [projectPath, module_file (snd kv)])) \<and>
   ps = map (propsOf L) (filter (\<lambda>kv. rpcMessages kv \<noteq> []) (chainTypeEntries cts))"
proof -
  let ?xss = "List.map_filter id cts" and ?f = "chainTypeProps L projectPath"
  let ?ok = "\<lambda>kv. existsSync L (pathJoin [projectPath, module_file (snd kv)])"
  let ?g = "\<lambda>kv. if rpcMessages kv = [] then None else Some (propsOf L kv)"
  have good: "rmap (rmap ?f) ?xss = Inr (map (map ?g) ?xss)" if "\<forall>kv \<in> set (concat ?xss). ?ok kv"
    using that by (intro rmap_total) (auto intro!: rmap_total simp: chainTypeProps_eq)
  have bad: "\<forall>kv \<in> set (concat ?xss). ?ok kv" if "rmap (rmap ?f) ?xss = Inr yss" for yss
  proof
    fix kv assume "kv \<in> set (concat ?xss)"
    then obtain xs where xs: "xs \<in> set ?xss" "kv \<in> set xs" by auto
    from that have "map (rmap ?f) ?xss = map Inr yss" by (simp only: rmap_Inr_iff)
    then have "rmap ?f xs \<in> set (map Inr yss)" using xs(1) by (metis image_eqI list.set_map)
    then obtain ys where "rmap ?f xs = Inr ys" by auto
    then have "map ?f xs = map Inr ys" by (simp only: rmap_Inr_iff)
    then have "?f kv \<in> set (map Inr ys)" using xs(2) by (metis image_eqI list.set_map)
    then show "?ok kv" by (auto simp: chainTypeProps_eq split: if_splits)
  qed
  have flat: "concat (map (List.map_filter id) (map (map ?g) xss)) =
      map (propsOf L) (filter (\<lambda>kv. rpcMessages kv \<noteq> []) (concat xss))" for xss
    by (induction xss) (auto simp: List.map_filter_def filter_map o_def)
  show ?thesis
  proof (cases "\<forall>kv \<in> set (concat ?xss). ?ok kv")
    case True
    then have "prepareProtobufRenderProps L (Some cts) projectPath =
        Inr (concat (map (List.map_filter id) (map (map ?g) ?xss)))"
      using good by (simp add: prepareProtobufRenderProps_def del: map_map)
    with True show ?thesis unfolding flat chainTypeEntries_def by auto
  next
    case False
    then have "\<exists>e. rmap (rmap ?f) ?xss = Inl e" using bad by (cases "rmap (rmap ?f) ?xss") auto
    with False show ?thesis
      by (auto simp: prepareProtobufRenderProps_def chainTypeEntries_def)
  qed
qed

definition sampleFiles :: "string list \<Rightarrow> codegen_lib" where
  "sampleFiles present =
     \<lparr>existsSync = (\<lambda>p. p \<in> set present),
      loadFromJsonOrYaml = (\<lambda>p. Inr \<lparr>instantiate_title = None, migrate_title = None, execute_title = Some ''ExecuteMsg''\<rparr>),
      upperFirst = (\<lambda>s. toUpperCase (take 1 s) @ drop 1 s)\<rparr>"

definition outsideModule :: CustomModule where
  "outsideModule = \<lparr>module_file = ''../lib/tx.proto'', module_messages = [''MsgSend'', ''Params'']\<rparr>"

lemma pathJoin_outside: "pathJoin [''/app'', ''../lib/tx.proto''] = ''/lib/tx.proto''"
  by (simp add: pathJoin_def normalizePath_def isAbsolute_def Let_def)

theorem renderProps_iff_witness:
  "(\<exists>props. prepareProtobufRenderProps (sampleFiles [''/lib/tx.proto'']) (Some [Some [(''lib'', outsideModule)]]) ''/app'' = Inr [props] \<and>
     messageNames props = [''MsgSend'']) \<and>
   \<not> isProtoPath (module_file outsideModule) ''/app''"
proof -
  let ?kv = "(''lib'', outsideModule)"
  have "chainTypeEntries [Some [?kv]] = [?kv]" "rpcMessages ?kv = [''MsgSend'']"
    by (simp_all add: chainTypeEntries_def List.map_filter_def rpcMessages_def outsideModule_def startsWith_def)
  moreover have "existsSync (sampleFiles [''/lib/tx.proto'']) (pathJoin [''/app'', module_file outsideModule])"
    by (simp add: sampleFiles_def outsideModule_def pathJoin_outside)
  ultimately have "prepareProtobufRenderProps (sampleFiles [''/lib/tx.proto'']) (Some [Some [?kv]]) ''/app'' =
      Inr [propsOf (sampleFiles [''/lib/tx.proto'']) ?kv]"
    by (subst renderProps_iff) simp
  moreover have "messageNames (propsOf (sampleFiles [''/lib/tx.proto'']) ?kv) = [''MsgSend'']"
    using \<open>rpcMessages ?kv = [''MsgSend'']\<close> by (simp add: propsOf_def)
  moreover have "\<not> isProtoPath (module_file outsideModule) ''/app''"
    by (simp add: isProtoPath_def outsideModule_def pathJoin_outside)
      (simp add: pathJoin_def normalizePath_def isAbsolute_def Let_def startsWith_def)
  ultimately show ?thesis by blast
qed

text \<open>The paths a run removes.\<close>

definition removed :: "action list \<Rightarrow> string list" where
  "removed log = List.map_filter (\<lambda>a. case a of RmSync p \<Rightarrow> Some p | _ \<Rightarrow> None) log"

lemma removed_simps [simp]:
  "removed [] = []" "removed (as @ bs) = removed as @ removed bs"
  "removed (RmSync p # as) = p # removed as" "removed (PrepareDirPath p b # as) = removed as"
  "removed (CopySync p q # as) = removed as" "removed (Telescope o' # as) = removed as"
  "removed (RenderMessageTypes p ps # as) = removed as"
  by (simp_all add: removed_def List.map_filter_def)

lemma removed_none: "(\<And>a. a \<in> set log \<Longrightarrow> \<exists>p q. a = CopySync p q) \<Longrightarrow> removed log = []"
  by (induction log) fastforce+

lemma runSeq_actions: "(r, log) \<in> set (runSeq E as) \<Longrightarrow> set log \<subseteq> set as"
proof (induction as arbitrary: r log)
  case (Cons a as)
  have "runSeq E (a # as) = runThen (perform E a) (\<lambda>_. runSeq E as)" by (simp add: runSeq_def)
  with Cons show ?case by (fastforce simp: runThen_mem perform_mem)
qed (simp add: runSeq_def pureRun_def)

lemma tempProtoDir_run:
  assumes "(q, l) \<in> set (tempProtoDir E projectPath)"
  shows "removed l = [] \<and> (\<forall>t. q = Inr t \<longrightarrow> Inr t \<in> set (makeTempDir E))"
proof -
  define copies where "copies = (\<lambda>t. map (\<lambda>p. CopySync (requirePackage E p) (tmpProtoDir E t (requirePackage E p))) commonProtos
                        @ [CopySync (pathJoin [projectPath, ''./proto'']) t])"
  have none: "removed log = []" if "(r, log) \<in> set (runSeq E (copies t))" for r log t
  proof (rule removed_none)
    fix a assume "a \<in> set log"
    then have "a \<in> set (copies t)" using runSeq_actions [OF that] by blast
    then show "\<exists>p q. a = CopySync p q" by (auto simp: copies_def)
  qed
  have "tempProtoDir E projectPath = runThen (map (\<lambda>r. (r, [])) (makeTempDir E)) (\<lambda>t. runThen (runSeq E (copies t)) (\<lambda>_. pureRun (Inr t)))"
    unfolding tempProtoDir_def copies_def ..
  with assms show ?thesis by (auto simp: runThen_mem pureRun_mem dest: none)
qed

lemma perform_then:
  assumes "(r, l) \<in> set (runThen (perform E a) f)"
  shows "(\<exists>e. r = Inl e \<and> l = [a] \<and> Inl e \<in> set (outcome E a)) \<or>
    (\<exists>l'. l = a # l' \<and> Inr () \<in> set (outcome E a) \<and> (r, l') \<in> set (f ()))"
  using assms unfolding runThen_mem perform_mem by auto

lemma protoBody_run:
  assumes "(r, l) \<in> set (protoBody L E cts projectPath t)"
  shows "removed l = [] \<and>
    (r = Inr () \<longrightarrow> (\<exists>ps. prepareProtobufRenderProps L (Some cts) projectPath = Inr ps \<and> l \<noteq> [] \<and>
       last l = RenderMessageTypes (pathJoin [projectPath, TYPE_ROOT_DIR, ''CosmosMessageTypes.ts'']) ps \<and>
       (\<forall>a \<in> set l. Inr () \<in> set (outcome E a)))) \<and>
    (\<forall>e. r = Inl e \<longrightarrow> prepareProtobufRenderProps L (Some cts) projectPath = Inl e \<or> (\<exists>a \<in> set l. Inl e \<in> set (outcome E a)))"
proof (cases "prepareProtobufRenderProps L (Some cts) projectPath")
  case (Inl e)
  with assms show ?thesis by (simp add: protoBody_def Let_def runThen_def pureRun_def)
next
  case (Inr ps)
  let ?out = "pathJoin [projectPath, PROTO_INTERFACES_ROOT_DIR]"
  let ?a = "PrepareDirPath ?out True"
  let ?b = "Telescope (JObj [(''protoDirs'', JArr [JStr t]), (''outPath'', JStr ?out), (''options'', TELESCOPE_OPTS)])"
  let ?c = "RenderMessageTypes (pathJoin [projectPath, TYPE_ROOT_DIR, ''CosmosMessageTypes.ts'']) ps"
  have "(r, l) \<in> set (runThen (perform E ?a) (\<lambda>_. runThen (perform E ?b) (\<lambda>_. perform E ?c)))"
    using assms by (simp add: protoBody_def Let_def Inr runThen_mem [of _ _ "pureRun _"] pureRun_mem)
  from perform_then [OF this] show ?thesis
  proof (elim disjE exE conjE)
    fix l' assume l: "l = ?a # l'" "Inr () \<in> set (outcome E ?a)" and "(r, l') \<in> set (runThen (perform E ?b) (\<lambda>_. perform E ?c))"
    from perform_then [OF this(3)] show ?thesis
    proof (elim disjE exE conjE)
      fix l2 assume "l' = ?b # l2" "Inr () \<in> set (outcome E ?b)" "(r, l2) \<in> set (perform E ?c)"
      with l Inr show ?thesis by (auto simp: perform_mem)
    qed (use l Inr in simp)
  qed (use Inr in simp)
qed

text \<open>
  C35: what a run that generates from protobuf files removes, and how it ends.  Either the temporary directory could not be
  made or filled: then the run ends with the TypeError of removing an undefined path, and removes nothing.  Or its
  last action removes the temporary directory it had made, and this is the only removal; then it succeeds only if
  every step did and the step before was the rendering of the message types with the prepared properties, and it fails
  only with an error of the removal or with the wrapped error of the preparation or of one of the steps.
\<close>

theorem generateProto_cleans_up:
  assumes "(r, log) \<in> set (generateProto L E cts projectPath)"
  shows "(\<exists>e. (Inl e, log) \<in> set (tempProtoDir E projectPath) \<and> removed log = [] \<and>
       r = throwTypeError ''The path argument must be of type string or an instance of Buffer or URL. Received undefined'') \<or>
    (\<exists>t log0. Inr t \<in> set (makeTempDir E) \<and> log = log0 @ [RmSync t] \<and> removed log0 = [] \<and>
       (r = Inr () \<longrightarrow> (\<exists>ps log1. prepareProtobufRenderProps L (Some cts) projectPath = Inr ps \<and>
          log0 = log1 @ [RenderMessageTypes (pathJoin [projectPath, TYPE_ROOT_DIR, ''CosmosMessageTypes.ts'']) ps] \<and>
          Inr () \<in> set (outcome E (RenderMessageTypes (pathJoin [projectPath, TYPE_ROOT_DIR, ''CosmosMessageTypes.ts'']) ps)))) \<and>
       (\<forall>e. r = Inl e \<longrightarrow> Inl e \<in> set (outcome E (RmSync t)) \<or>
          (\<exists>e'. e = protoFailure e' \<and> (prepareProtobufRenderProps L (Some cts) projectPath = Inl e' \<or>
             (\<exists>a \<in> set log0. Inl e' \<in> set (outcome E a))))))"
proof -
  obtain q l where ql: "(q, l) \<in> set (tempProtoDir E projectPath)" and
    m: "(r, log) \<in> set (case q of
          Inl e \<Rightarrow> removeTemp E None (Inl (protoFailure e), l)
        | Inr tmpPath \<Rightarrow>
            concat (map (removeTemp E (Some tmpPath))
              (map (\<lambda>(r', log'). (map_sum protoFailure id r', l @ log')) (protoBody L E cts projectPath tmpPath))))"
    using assms by (auto simp: generateProto_def)
  note temp = tempProtoDir_run [OF ql]
  show ?thesis
  proof (cases q)
    case (Inl e)
    with m have "log = l" "r = throwTypeError ''The path argument must be of type string or an instance of Buffer or URL. Received undefined''"
      by (simp_all add: removeTemp_def)
    with ql temp Inl show ?thesis by blast
  next
    case (Inr t)
    obtain r' log' where body: "(r', log') \<in> set (protoBody L E cts projectPath t)"
      and rm: "(r, log) \<in> set (removeTemp E (Some t) (map_sum protoFailure id r', l @ log'))"
      using m Inr by (auto simp: case_prod_beta)
    from rm obtain u where u: "u \<in> set (outcome E (RmSync t))"
      "r = (case u of Inl e \<Rightarrow> Inl e | Inr _ \<Rightarrow> map_sum protoFailure id r')" "log = (l @ log') @ [RmSync t]"
      unfolding removeTemp_def option.case fst_conv snd_conv set_map by blast
    note b = protoBody_run [OF body]
    have ok: "\<exists>ps log1. prepareProtobufRenderProps L (Some cts) projectPath = Inr ps \<and>
          l @ log' = log1 @ [RenderMessageTypes (pathJoin [projectPath, TYPE_ROOT_DIR, ''CosmosMessageTypes.ts'']) ps] \<and>
          Inr () \<in> set (outcome E (RenderMessageTypes (pathJoin [projectPath, TYPE_ROOT_DIR, ''CosmosMessageTypes.ts'']) ps))"
      if "r = Inr ()"
    proof -
      have "r' = Inr ()" using that u(2) by (cases u; cases r') auto
      then obtain ps where ps: "prepareProtobufRenderProps L (Some cts) projectPath = Inr ps" "log' \<noteq> []"
        "last log' = RenderMessageTypes (pathJoin [projectPath, TYPE_ROOT_DIR, ''CosmosMessageTypes.ts'']) ps"
        "\<forall>a \<in> set log'. Inr () \<in> set (outcome E a)" using b by blast
      moreover have "l @ log' = (l @ butlast log') @ [last log']" using ps(2) by simp
      ultimately show ?thesis by (metis last_in_set)
    qed
    have fails: "Inl e \<in> set (outcome E (RmSync t)) \<or> (\<exists>e'. e = protoFailure e' \<and>
        (prepareProtobufRenderProps L (Some cts) projectPath = Inl e' \<or> (\<exists>a \<in> set (l @ log'). Inl e' \<in> set (outcome E a))))"
      if "r = Inl e" for e
      using that u(1,2) b by (cases u; cases r') auto
    show ?thesis
      by (intro disjI2 exI [of _ t] exI [of _ "l @ log'"] conjI) (use temp Inr u(3) b ok fails in auto)
  qed
qed

definition sampleEnv :: "(action \<Rightarrow> unit promise) \<Rightarrow> codegen_env" where
  "sampleEnv out =
     \<lparr>outcome = out, makeTempDir = [Inr ''/tmp/x''], dirname = (\<lambda>p. p), basename = (\<lambda>p. p), requirePackage = (\<lambda>p. p)\<rparr>"

lemmas run_eval = runThen_def perform_def pureRun_def runSeq_def sampleEnv_def commonProtos_def

lemma sample_tempProtoDir: "\<exists>log. tempProtoDir (sampleEnv (\<lambda>_. [Inr ()])) p = [(Inr ''/tmp/x'', log)]"
  by (simp add: tempProtoDir_def run_eval)

lemma sample_generateProto:
  "\<exists>log. generateProto (sampleFiles []) (sampleEnv (\<lambda>_. [Inr ()])) [] p = [(Inr (), log)]"
proof -
  obtain log where "tempProtoDir (sampleEnv (\<lambda>_. [Inr ()])) p = [(Inr ''/tmp/x'', log)]"
    using sample_tempProtoDir by blast
  then show ?thesis
    by (simp add: generateProto_def protoBody_def prepareProtobufRenderProps_def removeTemp_def Let_def run_eval
        List.map_filter_def)
qed

theorem generateProto_cleans_up_witness:
  "\<exists>log ps. (Inr (), log @ [RenderMessageTypes ''/app/src/types/CosmosMessageTypes.ts'' ps, RmSync ''/tmp/x'']) \<in>
     set (generateProto (sampleFiles []) (sampleEnv (\<lambda>_. [Inr ()])) [] ''/app'')"
proof -
  obtain log where log: "generateProto (sampleFiles []) (sampleEnv (\<lambda>_. [Inr ()])) [] ''/app'' = [(Inr (), log)]"
    using sample_generateProto by blast
  have p: "pathJoin [''/app'', TYPE_ROOT_DIR, ''CosmosMessageTypes.ts''] = ''/app/src/types/CosmosMessageTypes.ts''"
    by (simp add: pathJoin_def normalizePath_def isAbsolute_def Let_def TYPE_ROOT_DIR_def)
  have "(Inr (), log) \<in> set (generateProto (sampleFiles []) (sampleEnv (\<lambda>_. [Inr ()])) [] ''/app'')" using log by simp
  from generateProto_cleans_up [OF this] have "\<exists>log0 log1 ps. log = log0 @ [RmSync ''/tmp/x''] \<and>
      log0 = log1 @ [RenderMessageTypes ''/app/src/types/CosmosMessageTypes.ts'' ps]"
    unfolding p by (auto simp: sampleEnv_def)
  with log show ?thesis by auto
qed

text \<open>
  When the temporary directory cannot be prepared, for instance because the project has no directory
  \<^verbatim>\<open>./proto\<close>, the error is lost: the removal of the unassigned path throws a TypeError instead.
\<close>

theorem generateProto_masks_failure:
  assumes "(Inl e, log) \<in> set (tempProtoDir E projectPath)"
  shows "(throwTypeError ''The path argument must be of type string or an instance of Buffer or URL. Received undefined'', log)
    \<in> set (generateProto L E cts projectPath)"
  using assms by (force simp: generateProto_def removeTemp_def)

definition missingProto :: "action \<Rightarrow> unit promise" where
  "missingProto a = (case a of CopySync f t \<Rightarrow> (if f = ''/app/proto'' then [throwError ''ENOENT''] else [Inr ()]) | _ \<Rightarrow> [Inr ()])"

lemma missing_tempProtoDir: "\<exists>log. (throwError ''ENOENT'', log) \<in> set (tempProtoDir (sampleEnv missingProto) ''/app'')"
  by (simp add: tempProtoDir_def run_eval missingProto_def pathJoin_def normalizePath_def isAbsolute_def Let_def)

theorem generateProto_masks_failure_witness:
  "\<exists>log. (throwTypeError ''The path argument must be of type string or an instance of Buffer or URL. Received undefined'', log)
    \<in> set (generateProto (sampleFiles []) (sampleEnv missingProto) [] ''/app'')"
proof -
  obtain log where "(throwError ''ENOENT'', log) \<in> set (tempProtoDir (sampleEnv missingProto) ''/app'')"
    using missing_tempProtoDir by blast
  from generateProto_masks_failure [OF this] show ?thesis by blast
qed

text \<open>The assets of the runtime data sources, and the error of a missing one.\<close>

definition runtimeAssets :: "CosmosDatasource list \<Rightarrow> (string \<times> string) list" where
  "runtimeAssets datasources =
     concat (map (\<lambda>d. case assets d of None \<Rightarrow> [] | Some as \<Rightarrow> as) (filter isRuntimeCosmosDs datasources))"

lemma addAssets_fold:
  "rfold (addAsset L projectPath) as acc = Inl e \<Longrightarrow>
     \<exists>(name, path) \<in> set as. \<not> existsSync L (pathJoin [projectPath, path]) \<and>
       e = JsError ''Error'' (''Error: Asset '' @ name @ '', file '' @ path @ '' does not exist'')"
proof (induction as arbitrary: acc)
  case (Cons nv as)
  obtain name path where nv: "nv = (name, path)" by (cases nv)
  show ?case
  proof (cases "existsSync L (pathJoin [projectPath, path])")
    case True
    with Cons have "\<exists>(name, path) \<in> set as. \<not> existsSync L (pathJoin [projectPath, path]) \<and>
       e = JsError ''Error'' (''Error: Asset '' @ name @ '', file '' @ path @ '' does not exist'')"
      by (simp add: nv addAsset_def Let_def)
    then show ?thesis by auto
  next
    case False
    with Cons.prems show ?thesis by (auto simp: nv addAsset_def Let_def)
  qed
qed simp

lemma addAssets_missing:
  "nv \<in> set as \<Longrightarrow> \<not> existsSync L (pathJoin [projectPath, snd nv]) \<Longrightarrow> \<exists>e. rfold (addAsset L projectPath) as acc = Inl e"
proof (induction as arbitrary: acc)
  case (Cons x as)
  show ?case
  proof (cases "x = nv")
    case True
    with Cons.prems show ?thesis by (simp add: addAsset_def Let_def)
  next
    case False
    with Cons.prems have "nv \<in> set as" by simp
    from Cons.IH [OF this Cons.prems(2)] show ?thesis by (cases "addAsset L projectPath x acc") auto
  qed
qed simp

lemma prepareSortedAssets_fold:
  "prepareSortedAssets L datasources projectPath = rfold (addAsset L projectPath) (runtimeAssets datasources) []"
proof -
  have "rfold (\<lambda>d. rfold g (case assets d of None \<Rightarrow> [] | Some as \<Rightarrow> as)) (filter (\<lambda>d. assets d \<noteq> None \<and> isRuntimeCosmosDs d) ds) acc =
      rfold g (concat (map (\<lambda>d. case assets d of None \<Rightarrow> [] | Some as \<Rightarrow> as) (filter isRuntimeCosmosDs ds))) acc"
    for g and ds :: "CosmosDatasource list" and acc :: "(string \<times> string) list"
    by (induction ds arbitrary: acc) (auto simp: rfold_append split: option.splits cong: rbind_cong_fun)
  then show ?thesis by (simp add: prepareSortedAssets_def runtimeAssets_def)
qed

lemma generateCosmwasm_Inl:
  assumes "(Inl e, log) \<in> set (generateCosmwasm L E datasources projectPath)"
  shows "prepareSortedAssets L datasources projectPath = Inl e \<and> log = [] \<or>
    (\<exists>d b. d \<in> {pathJoin [projectPath, COSMWASM_INTERFACES_ROOT_DIR], pathJoin [projectPath, COSMWASM_INTERFACE_WRAPPER_PATH]} \<and>
       PrepareDirPath d b \<in> set log \<and> Inl e \<in> set (outcome E (PrepareDirPath d b)))"
proof -
  let ?interfaces = "pathJoin [projectPath, COSMWASM_INTERFACES_ROOT_DIR]"
  let ?wrappers = "pathJoin [projectPath, COSMWASM_INTERFACE_WRAPPER_PATH]"
  show ?thesis
  proof (cases "prepareSortedAssets L datasources projectPath")
    case (Inl e')
    then show ?thesis using assms by (auto simp: generateCosmwasm_def Let_def run_simps)
  next
    case (Inr sortedAssets)
    show ?thesis
    proof (cases "sortedAssets = []")
      case True
      then show ?thesis using assms Inr by (auto simp: generateCosmwasm_def Let_def run_simps)
    next
      case False
      then have "(Inl e, log) \<in> set (performAll E [PrepareDirPath ?interfaces True, PrepareDirPath ?wrappers True])"
        using assms Inr by (simp add: generateCosmwasm_def Let_def runThen_mem [of _ _ "pureRun _"] pureRun_mem
            runThen_mem [of _ _ "performAll _ _"] runCatch_resolves)
      from performAll_mem [OF this] show ?thesis by auto
    qed
  qed
qed

text \<open>
  C36: how generating from contract interfaces fails.  If the file of an asset of a runtime data source does not exist,
  the only run does nothing and fails.  And a run that fails either has done nothing, and its error names an asset of a
  runtime data source whose file does not exist, or it has tried to prepare one of the two output directories and
  fails with the error of that; failures of the generator, of loading an interface or of a template are swallowed.
\<close>

theorem generateCosmwasm_failures:
  "((\<exists>(name, path) \<in> set (runtimeAssets datasources). \<not> existsSync L (pathJoin [projectPath, path])) \<longrightarrow>
     (\<exists>e. generateCosmwasm L E datasources projectPath = [(Inl e, [])])) \<and>
   (\<forall>e log. (Inl e, log) \<in> set (generateCosmwasm L E datasources projectPath) \<longrightarrow>
     (log = [] \<and> (\<exists>(name, path) \<in> set (runtimeAssets datasources). \<not> existsSync L (pathJoin [projectPath, path]) \<and>
        e = JsError ''Error'' (''Error: Asset '' @ name @ '', file '' @ path @ '' does not exist''))) \<or>
     (\<exists>d b. d \<in> {pathJoin [projectPath, COSMWASM_INTERFACES_ROOT_DIR], pathJoin [projectPath, COSMWASM_INTERFACE_WRAPPER_PATH]} \<and>
        PrepareDirPath d b \<in> set log \<and> Inl e \<in> set (outcome E (PrepareDirPath d b))))"
proof (intro conjI allI impI)
  assume "\<exists>(name, path) \<in> set (runtimeAssets datasources). \<not> existsSync L (pathJoin [projectPath, path])"
  then obtain e where "prepareSortedAssets L datasources projectPath = Inl e"
    unfolding prepareSortedAssets_fold using addAssets_missing by fastforce
  then show "\<exists>e. generateCosmwasm L E datasources projectPath = [(Inl e, [])]"
    by (simp add: generateCosmwasm_def Let_def runThen_def pureRun_def)
next
  fix e log
  assume "(Inl e, log) \<in> set (generateCosmwasm L E datasources projectPath)"
  from generateCosmwasm_Inl [OF this] show "(log = [] \<and> (\<exists>(name, path) \<in> set (runtimeAssets datasources).
        \<not> existsSync L (pathJoin [projectPath, path]) \<and>
        e = JsError ''Error'' (''Error: Asset '' @ name @ '', file '' @ path @ '' does not exist''))) \<or>
     (\<exists>d b. d \<in> {pathJoin [projectPath, COSMWASM_INTERFACES_ROOT_DIR], pathJoin [projectPath, COSMWASM_INTERFACE_WRAPPER_PATH]} \<and>
        PrepareDirPath d b \<in> set log \<and> Inl e \<in> set (outcome E (PrepareDirPath d b)))"
    unfolding prepareSortedAssets_fold
  proof (elim disjE conjE)
    assume e: "rfold (addAsset L projectPath) (runtimeAssets datasources) [] = Inl e" and "log = []"
    then show ?thesis using addAssets_fold [OF e] by (intro disjI1 conjI)
  qed (rule disjI2)
qed

definition wasmDs :: CosmosDatasource where
  "wasmDs =
     \<lparr>ds_kind = RuntimeKind, startBlock = Some 1, mapping = \<lparr>mapping_file = ''./dist/index.js'', handlers = []\<rparr>,
      processor = None, assets = Some [(''cw20'', ''./cw20.json'')]\<rparr>"

theorem generateCosmwasm_failures_witness:
  "generateCosmwasm (sampleFiles []) (sampleEnv (\<lambda>_. [Inr ()])) [wasmDs] ''/app'' =
     [(throwError ''Error: Asset cw20, file ./cw20.json does not exist'', [])]"
proof -
  have as: "runtimeAssets [wasmDs] = [(''cw20'', ''./cw20.json'')]"
    by (simp add: runtimeAssets_def wasmDs_def isRuntimeCosmosDs_def)
  have no: "Inl x \<notin> set (outcome (sampleEnv (\<lambda>_. [Inr ()])) a)" for x a by (simp add: sampleEnv_def)
  obtain e where run: "generateCosmwasm (sampleFiles []) (sampleEnv (\<lambda>_. [Inr ()])) [wasmDs] ''/app'' = [(Inl e, [])]"
    using conjunct1 [OF generateCosmwasm_failures [of "[wasmDs]" "sampleFiles []" "''/app''" "sampleEnv (\<lambda>_. [Inr ()])"]]
    by (auto simp: as sampleFiles_def)
  then have "e = JsError ''Error'' ''Error: Asset cw20, file ./cw20.json does not exist''"
    using conjunct2 [OF generateCosmwasm_failures [of "[wasmDs]" "sampleFiles []" "''/app''" "sampleEnv (\<lambda>_. [Inr ()])"],
        THEN spec, of e, THEN spec, of "[]"] by (simp add: as no)
  with run show ?thesis by simp
qed

section \<open>Names of contract wrappers\<close>

lemma prepareCosmwasmJobs_contracts:
  assumes "prepareCosmwasmJobs L sortedAssets = Inr jobs"
  shows "map contract jobs = map (\<lambda>kv. upperFirst L (fst kv)) sortedAssets"
proof (rule nth_equalityI)
  have l: "length jobs = length sortedAssets"
    using assms unfolding prepareCosmwasmJobs_def by (rule rmap_length)
  then show "length (map contract jobs) = length (map (\<lambda>kv. upperFirst L (fst kv)) sortedAssets)" by simp
  fix i
  assume "i < length (map contract jobs)"
  with l have i: "i < length jobs" "i < length sortedAssets" by simp_all
  obtain key asset where kv: "sortedAssets ! i = (key, asset)" by fastforce
  have "rbind (loadFromJsonOrYaml L asset) (\<lambda>c. Inr \<lparr>contract = upperFirst L key,
      job_messages = filter (\<lambda>kv. snd kv \<noteq> []) (msgObject L c)\<rparr>) = Inr (jobs ! i)"
    using arg_cong [OF assms [unfolded prepareCosmwasmJobs_def rmap_Inr_iff], of "\<lambda>xs. xs ! i"] i kv by simp
  then obtain c where "jobs ! i = \<lparr>contract = upperFirst L key, job_messages = filter (\<lambda>kv. snd kv \<noteq> []) (msgObject L c)\<rparr>"
    unfolding rbind_Inr_iff by (metis sum.inject(2))
  then show "map contract jobs ! i = map (\<lambda>kv. upperFirst L (fst kv)) sortedAssets ! i"
    using i kv by simp
qed

text \<open>
  The path of a wrapper is made of the asset's name with an upper-case first letter.  So two assets whose names differ
  in the case of their first letter are rendered to one file, although each has a job of its own.
\<close>

theorem colliding_assets_share_wrapper:
  assumes "prepareCosmwasmJobs L sortedAssets = Inr jobs" and "i < j" and "j < length sortedAssets"
    and "upperFirst L (fst (sortedAssets ! i)) = upperFirst L (fst (sortedAssets ! j))"
  shows "\<exists>path. renderWrapper projectPath (jobs ! i) = RenderWrapper path (jobs ! i) \<and>
    renderWrapper projectPath (jobs ! j) = RenderWrapper path (jobs ! j)"
proof -
  have c: "contract (jobs ! k) = upperFirst L (fst (sortedAssets ! k))" if "k < length sortedAssets" for k
    using arg_cong [OF prepareCosmwasmJobs_contracts [OF assms(1)], of "\<lambda>xs. xs ! k"] that
      arg_cong [OF prepareCosmwasmJobs_contracts [OF assms(1)], of length] by simp
  have "contract (jobs ! i) = contract (jobs ! j)" using c [of i] c [of j] assms(2-4) by simp
  then show ?thesis by (simp add: renderWrapper_def)
qed

theorem colliding_assets_share_wrapper_witness:
  "\<exists>jobs path. prepareCosmwasmJobs (sampleFiles []) [(''cw20'', ''a.json''), (''Cw20'', ''b.json'')] = Inr jobs \<and>
     renderWrapper ''/app'' (jobs ! 0) = RenderWrapper path (jobs ! 0) \<and>
     renderWrapper ''/app'' (jobs ! 1) = RenderWrapper path (jobs ! 1)"
proof -
  let ?as = "[(''cw20'', ''a.json''), (''Cw20'', ''b.json'')]"
  obtain jobs where jobs: "prepareCosmwasmJobs (sampleFiles []) ?as = Inr jobs"
    by (simp add: prepareCosmwasmJobs_def sampleFiles_def)
  have "upperFirst (sampleFiles []) ''cw20'' = upperFirst (sampleFiles []) ''Cw20''"
    by (simp add: sampleFiles_def toUpperCase_def upperChar_def char_of_def bit_0)
  with colliding_assets_share_wrapper [OF jobs, of 0 1 "''/app''"] jobs show ?thesis by auto
qed

end
