(* ===== verification/Project.thy ===== *)
theory Project
  imports Api Codegen
begin

text \<open>
  Loading a project: the versions of manifests (\<^verbatim>\<open>common-cosmos/src/project/versioned\<close>, \<^verbatim>\<open>load.ts\<close>), the network
  configuration with its chain types (\<^verbatim>\<open>node/src/utils/project.ts\<close>), the project itself
  (\<^verbatim>\<open>node/src/configure/SubqueryProject.ts\<close>) and the dictionary of its network
  (\<^verbatim>\<open>node/src/indexer/dictionary.service.ts\<close>).  Readers, protobufjs, class-transformer and the functions of
  node-core are parameters.
\<close>

section \<open>The network configuration\<close>

text \<open>The chain types of a manifest as the map from keys to files and messages, if there are any.\<close>

record raw_network =
  raw_chainId :: js
  raw_genesisHash :: js
  raw_endpoint :: js
  raw_dictionary :: js
  raw_chaintypes :: "(string \<times> CustomModule) list option"

text \<open>Overrides: \<open>None\<close> where the property is absent.\<close>

record network_overrides =
  over_chainId :: "js option"
  over_genesisHash :: "js option"
  over_endpoint :: "js option"
  over_dictionary :: "js option"
  over_chaintypes :: "(string \<times> CustomModule) list option option"

definition override :: "'v \<Rightarrow> 'v option \<Rightarrow> 'v" where
  "override v w = (case w of None \<Rightarrow> v | Some x \<Rightarrow> x)"

definition overrideNetwork :: "raw_network \<Rightarrow> network_overrides \<Rightarrow> raw_network" where
  "overrideNetwork n over =
     \<lparr>raw_chainId = override (raw_chainId n) (over_chainId over),
      raw_genesisHash = override (raw_genesisHash n) (over_genesisHash over),
      raw_endpoint = override (raw_endpoint n) (over_endpoint over),
      raw_dictionary = override (raw_dictionary n) (over_dictionary over),
      raw_chaintypes = override (raw_chaintypes n) (over_chaintypes over)\<rparr>"

text \<open>The configuration that \<^verbatim>\<open>genesisHash\<close> has been removed from.\<close>

record 'g CosmosProjectNetConfig =
  net_chainId :: js
  net_endpoint :: js
  net_dictionary :: js
  net_chaintypes :: "'g chain_types"

record ('root, 'g) protobuf_lib =
  protoParse :: "string \<Rightarrow> (string option \<times> 'root) result"
  newRoot :: "'root"
  addRoot :: "'root \<Rightarrow> 'root \<Rightarrow> 'root result"
  lookupIn :: "'root \<Rightarrow> string \<Rightarrow> 'g result"

text \<open>The answer of a reader: the text of the file, undefined, or an error.\<close>

type_synonym reader = "string \<Rightarrow> string option result"

definition loadNetworkChainType ::
    "('root, 'g) protobuf_lib \<Rightarrow> reader \<Rightarrow> string \<Rightarrow> (string option \<times> 'root) result" where
  "loadNetworkChainType P getFile file =
     rbind (getFile file) (\<lambda>proto.
       (case proto of
          None \<Rightarrow> throwError (''Unable to load chain type from '' @ file)
        | Some text \<Rightarrow>
            if text = [] then throwError (''Unable to load chain type from '' @ file) else protoParse P text))"

definition addChainType ::
    "('root, 'g) protobuf_lib \<Rightarrow> reader \<Rightarrow> string \<times> CustomModule \<Rightarrow> (string \<times> CosmosChainType) list \<times> 'root \<Rightarrow>
     ((string \<times> CosmosChainType) list \<times> 'root) result" where
  "addChainType P getFile kv acc =
     rbind (loadNetworkChainType P getFile (module_file (snd kv))) (\<lambda>(pkg, proto).
     rbind (addRoot P (snd acc) proto) (\<lambda>root.
       Inr (setProp (fst kv) \<lparr>messages = module_messages (snd kv), packageName = pkg\<rparr> (fst acc), root)))"

definition processNetworkConfig ::
    "('root, 'g) protobuf_lib \<Rightarrow> reader \<Rightarrow> raw_network \<Rightarrow> 'g CosmosProjectNetConfig result" where
  "processNetworkConfig P getFile network =
     (if truthy (raw_chainId network) \<and> truthy (raw_genesisHash network) then
        throwError ''Please only provide one of chainId and genesisHash''
      else
        (let cid = (if truthy (raw_genesisHash network) \<and> \<not> truthy (raw_chainId network)
                    then raw_genesisHash network else raw_chainId network);
             entries = (case raw_chaintypes network of None \<Rightarrow> [] | Some kvs \<Rightarrow> kvs)
         in rbind (rfold (addChainType P getFile) entries ([], newRoot P)) (\<lambda>(types, root).
              Inr \<lparr>net_chainId = cid, net_endpoint = raw_endpoint network, net_dictionary = raw_dictionary network,
                   net_chaintypes = \<lparr>type_entries = types, lookupTypeOrEnum = lookupIn P root\<rparr>\<rparr>)))"

section \<open>Versions of manifests\<close>

text \<open>A manifest after its transformation to the class of its version.\<close>

record ('ds, 'tpl) manifest_impl =
  impl_specVersion :: string
  impl_network :: raw_network
  impl_schema_file :: string
  impl_dataSources :: "'ds list"
  impl_templates :: "'tpl list option"
  impl_runner_node_version :: string
  impl_parent :: js
  impl_description :: js
  impl_repository :: js

text \<open>
  \<^verbatim>\<open>plainToInstance\<close> to a class, the validation of the instance, the text of its deployment.  The table of versions is an
  object, in which members inherited from \<^verbatim>\<open>Object.prototype\<close> are found as well.
\<close>

datatype manifest_class = ProjectManifestV1_0_0 | InheritedMember string

definition supportedVersions :: "string \<Rightarrow> manifest_class option" where
  "supportedVersions v =
     (if v = ''1.0.0'' then Some ProjectManifestV1_0_0
      else if v \<in> set objectPrototype then Some (InheritedMember v) else None)"

record ('ds, 'tpl) manifest_lib =
  plainToInstance :: "manifest_class \<Rightarrow> js \<Rightarrow> ('ds, 'tpl) manifest_impl result"
  validateManifest :: "('ds, 'tpl) manifest_impl \<Rightarrow> unit result"
  deploymentYaml :: "('ds, 'tpl) manifest_impl \<Rightarrow> string option"

definition propertyKey :: "js \<Rightarrow> string" where
  "propertyKey v = (case v of JStr s \<Rightarrow> s | JNum n \<Rightarrow> numberToString n | JUndefined \<Rightarrow> ''undefined'' | JNull \<Rightarrow> ''null''
     | JBool b \<Rightarrow> (if b then ''true'' else ''false'') | _ \<Rightarrow> ''[object]'')"

definition newManifestVersioned :: "('ds, 'tpl) manifest_lib \<Rightarrow> js \<Rightarrow> ('ds, 'tpl) manifest_impl result" where
  "newManifestVersioned M projectManifest =
     rbind (jsGet projectManifest ''specVersion'') (\<lambda>v.
       (case supportedVersions (propertyKey v) of
          None \<Rightarrow> throwError ''specVersion not supported for project manifest file''
        | Some klass \<Rightarrow> plainToInstance M klass projectManifest))"

definition isV1_0_0 :: "('ds, 'tpl) manifest_impl \<Rightarrow> bool" where
  "isV1_0_0 m = (impl_specVersion m = ''1.0.0'')"

definition asV1_0_0 :: "('ds, 'tpl) manifest_impl \<Rightarrow> ('ds, 'tpl) manifest_impl" where
  "asV1_0_0 m = m"

definition toDeployment :: "('ds, 'tpl) manifest_lib \<Rightarrow> ('ds, 'tpl) manifest_impl \<Rightarrow> string option" where
  "toDeployment M m = deploymentYaml M m"

text \<open>
  The manifest object holds the transformed instance; its remaining members forward to it.  The guard \<^verbatim>\<open>manifestIsV1_0_0\<close>
  reads the version through the accessor, so it agrees with the member \<^verbatim>\<open>isV1_0_0\<close>.
\<close>

definition asImpl :: "('ds, 'tpl) manifest_impl \<Rightarrow> ('ds, 'tpl) manifest_impl" where
  "asImpl m = m"

definition manifestSpecVersion :: "('ds, 'tpl) manifest_impl \<Rightarrow> string" where
  "manifestSpecVersion m = impl_specVersion (asImpl m)"

definition manifestIsV1_0_0 :: "('ds, 'tpl) manifest_impl \<Rightarrow> bool" where
  "manifestIsV1_0_0 m = (manifestSpecVersion m = ''1.0.0'')"

definition validateImpl :: "('ds, 'tpl) manifest_lib \<Rightarrow> ('ds, 'tpl) manifest_impl \<Rightarrow> unit result" where
  "validateImpl M m = validateManifest M (asImpl m)"

definition manifestDataSources :: "('ds, 'tpl) manifest_impl \<Rightarrow> 'ds list" where
  "manifestDataSources m = impl_dataSources (asImpl m)"

definition manifestSchema :: "('ds, 'tpl) manifest_impl \<Rightarrow> string" where
  "manifestSchema m = impl_schema_file (asImpl m)"

definition manifestDescription :: "('ds, 'tpl) manifest_impl \<Rightarrow> js" where
  "manifestDescription m = impl_description (asImpl m)"

definition manifestRepository :: "('ds, 'tpl) manifest_impl \<Rightarrow> js" where
  "manifestRepository m = impl_repository (asImpl m)"

definition parseCosmosProjectManifest :: "('ds, 'tpl) manifest_lib \<Rightarrow> js \<Rightarrow> ('ds, 'tpl) manifest_impl result" where
  "parseCosmosProjectManifest M raw =
     rbind (newManifestVersioned M raw) (\<lambda>m. rbind (validateImpl M m) (\<lambda>_. Inr m))"

definition validateCosmosManifest :: "('ds, 'tpl) manifest_lib \<Rightarrow> js \<Rightarrow> bool" where
  "validateCosmosManifest M raw = (case parseCosmosProjectManifest M raw of Inl e \<Rightarrow> False | Inr m \<Rightarrow> True)"

section \<open>Projects\<close>

record ('ds, 'tpl, 'pds, 'ptpl, 'schema, 'g) SubqueryProject =
  project_id :: string
  project_root :: string
  project_network :: "'g CosmosProjectNetConfig"
  project_dataSources :: "'pds list"
  project_schema :: "'schema"
  project_templates :: "'ptpl list"
  project_runner_version :: string
  project_parent :: js

text \<open>The schedules that node-core computes from the timestamps of blocks replace the data sources.\<close>

definition applyCronTimestamps ::
    "('pds list \<Rightarrow> 'pds list result) \<Rightarrow> ('ds, 'tpl, 'pds, 'ptpl, 'schema, 'g) SubqueryProject \<Rightarrow>
     ('ds, 'tpl, 'pds, 'ptpl, 'schema, 'g) SubqueryProject result" where
  "applyCronTimestamps insertBlockFiltersCronSchedules p =
     rbind (insertBlockFiltersCronSchedules (project_dataSources p)) (\<lambda>dss. Inr (p\<lparr>project_dataSources := dss\<rparr>))"

text \<open>The functions of node-core and its utilities that loading uses.\<close>

record ('ds, 'tpl, 'pds, 'ptpl, 'schema) loader_lib =
  buildSchemaFromString :: "string option \<Rightarrow> 'schema result"
  updateDataSources :: "'ds list \<Rightarrow> 'pds list result"
  loadProjectTemplates :: "'tpl list option \<Rightarrow> 'ptpl list result"
  validateSemver :: "string \<Rightarrow> string \<Rightarrow> bool"
  readerRoot :: "string option"

definition endpointArray :: "raw_network \<Rightarrow> raw_network" where
  "endpointArray n = (case raw_endpoint n of JStr s \<Rightarrow> n\<lparr>raw_endpoint := JArr [JStr s]\<rparr> | _ \<Rightarrow> n)"

definition readSchema :: "reader \<Rightarrow> string \<Rightarrow> string option result" where
  "readSchema getFile file =
     (case getFile file of Inl e \<Rightarrow> throwError (''unable to fetch the schema from '' @ file) | Inr text \<Rightarrow> Inr text)"

definition chooseId :: "string option \<Rightarrow> string \<Rightarrow> string" where
  "chooseId rr path = (case rr of Some r \<Rightarrow> (if r \<noteq> [] then r else path) | None \<Rightarrow> path)"

definition loadProjectFromManifestBase ::
    "('root, 'g) protobuf_lib \<Rightarrow> ('ds, 'tpl, 'pds, 'ptpl, 'schema) loader_lib \<Rightarrow> (js \<Rightarrow> string) \<Rightarrow> string \<Rightarrow> reader \<Rightarrow>
     ('ds, 'tpl) manifest_impl \<Rightarrow> string \<Rightarrow> string \<Rightarrow> network_overrides \<Rightarrow>
     ('ds, 'tpl, 'pds, 'ptpl, 'schema, 'g) SubqueryProject result" where
  "loadProjectFromManifestBase P L text packageVersion getFile m path root over =
     rbind (processNetworkConfig P getFile (overrideNetwork (endpointArray (impl_network m)) over)) (\<lambda>network.
     if \<not> truthy (net_endpoint network) then
       throwError (''Network endpoint must be provided for network. chainId=\"'' @ text (net_chainId network) @ ''\"'')
     else
       rbind (readSchema getFile (impl_schema_file m)) (\<lambda>schemaString.
       rbind (buildSchemaFromString L schemaString) (\<lambda>schema.
       rbind (updateDataSources L (impl_dataSources m)) (\<lambda>dss.
       rbind (loadProjectTemplates L (impl_templates m)) (\<lambda>tpls.
       if \<not> validateSemver L packageVersion (impl_runner_node_version m) then
         throwError (''Runner require node version '' @ impl_runner_node_version m @ '', current node '' @ packageVersion)
       else
         Inr \<lparr>project_id = chooseId (readerRoot L) path, project_root = root, project_network = network,
              project_dataSources = dss, project_schema = schema, project_templates = tpls,
              project_runner_version = impl_runner_node_version m, project_parent = impl_parent m\<rparr>)))))"

definition createProject ::
    "('ds, 'tpl) manifest_lib \<Rightarrow> ('root, 'g) protobuf_lib \<Rightarrow> ('ds, 'tpl, 'pds, 'ptpl, 'schema) loader_lib \<Rightarrow>
     (js \<Rightarrow> string) \<Rightarrow> string \<Rightarrow> reader \<Rightarrow> js \<Rightarrow> string \<Rightarrow> string \<Rightarrow> network_overrides \<Rightarrow>
     ('ds, 'tpl, 'pds, 'ptpl, 'schema, 'g) SubqueryProject result" where
  "createProject M P L text packageVersion getFile rawManifest path root over =
     (if rawManifest = JUndefined then throwError (''Get manifest from project path '' @ path @ '' failed'')
      else
        rbind (parseCosmosProjectManifest M rawManifest) (\<lambda>m.
          if \<not> isV1_0_0 m then throwError ''Manifest specVersion <1.0.0 is not supported''
          else loadProjectFromManifestBase P L text packageVersion getFile (asV1_0_0 m) path root over))"

text \<open>The dictionary: the configured one, or the one resolved for the chain; several are not supported.\<close>

definition createDictionary :: "js promise \<Rightarrow> 'g CosmosProjectNetConfig \<Rightarrow> string promise" where
  "createDictionary resolveDictionary network =
     promiseThen
       (if net_dictionary network \<noteq> JUndefined \<and> net_dictionary network \<noteq> JNull
        then [Inr (net_dictionary network)] else resolveDictionary)
       (\<lambda>url. case url of
          JStr s \<Rightarrow> Inr s
        | _ \<Rightarrow> Inl (JsError ''AssertionError'' ''Cosmos doesn't yet support multiple dictionary endpoints''))"

section \<open>Properties\<close>

lemma loadNetworkChainType_Inr:
  "loadNetworkChainType P getFile file = Inr r \<longleftrightarrow>
   (\<exists>text. getFile file = Inr (Some text) \<and> text \<noteq> [] \<and> protoParse P text = Inr r)"
proof (cases "getFile file")
  case (Inr t)
  then show ?thesis by (cases t) (simp_all add: loadNetworkChainType_def)
qed (simp add: loadNetworkChainType_def)

text \<open>An entry of the processed chain types comes from the parsed file of its entry in the manifest.\<close>

definition loadedFrom ::
    "('root, 'g) protobuf_lib \<Rightarrow> reader \<Rightarrow> string \<times> CustomModule \<Rightarrow> string \<times> CosmosChainType \<Rightarrow> bool" where
  "loadedFrom P getFile kv e \<longleftrightarrow>
     (\<exists>text pkg proto. getFile (module_file (snd kv)) = Inr (Some text) \<and> protoParse P text = Inr (pkg, proto) \<and>
        e = (fst kv, \<lparr>messages = module_messages (snd kv), packageName = pkg\<rparr>))"

lemma addChainType_Inr:
  assumes "addChainType P getFile kv (types, root) = Inr (types', root')"
  shows "\<exists>e. loadedFrom P getFile kv e \<and> types' = setProp (fst e) (snd e) types"
proof -
  from assms obtain pkg proto where "loadNetworkChainType P getFile (module_file (snd kv)) = Inr (pkg, proto)"
    and t: "types' = setProp (fst kv) \<lparr>messages = module_messages (snd kv), packageName = pkg\<rparr> types"
    by (auto simp: addChainType_def rbind_Inr_iff)
  then have "loadedFrom P getFile kv (fst kv, \<lparr>messages = module_messages (snd kv), packageName = pkg\<rparr>)"
    unfolding loadNetworkChainType_Inr loadedFrom_def by blast
  with t show ?thesis by (intro exI [of _ "(fst kv, \<lparr>messages = module_messages (snd kv), packageName = pkg\<rparr>)"]) simp
qed

lemma setProp_new: "k \<notin> fst ` set kvs \<Longrightarrow> setProp k v kvs = kvs @ [(k, v)]"
  by (induction k v kvs rule: setProp.induct) auto

lemma addChainTypes:
  assumes "rfold (addChainType P getFile) kvs (types, root) = Inr (types', root')"
    and "distinct (map fst types @ map fst kvs)"
  shows "\<exists>es. types' = types @ es \<and> list_all2 (loadedFrom P getFile) kvs es"
  using assms
proof (induction kvs arbitrary: types root)
  case (Cons kv kvs)
  then obtain types1 root1 where step: "addChainType P getFile kv (types, root) = Inr (types1, root1)"
    and rest: "rfold (addChainType P getFile) kvs (types1, root1) = Inr (types', root')"
    by (auto simp: rbind_Inr_iff)
  from addChainType_Inr [OF step] obtain e where e: "loadedFrom P getFile kv e" "types1 = setProp (fst e) (snd e) types"
    by blast
  then have k: "fst e = fst kv" by (auto simp: loadedFrom_def)
  with e Cons.prems(2) have t1: "types1 = types @ [e]" by (cases e) (simp add: setProp_new)
  from Cons.IH [OF rest] Cons.prems(2) k t1 obtain es where
    "types' = types1 @ es" "list_all2 (loadedFrom P getFile) kvs es" by auto
  with e(1) t1 show ?case by (intro exI [of _ "e # es"]) simp
qed simp

definition chainEntries :: "raw_network \<Rightarrow> (string \<times> CustomModule) list" where
  "chainEntries n = (case raw_chaintypes n of None \<Rightarrow> [] | Some kvs \<Rightarrow> kvs)"

lemma processNetworkConfig_loads:
  assumes "processNetworkConfig P getFile n = Inr net" and "distinct (map fst (chainEntries n))"
  shows "list_all2 (loadedFrom P getFile) (chainEntries n) (type_entries (net_chaintypes net))"
proof -
  from assms(1) obtain types root where
    "rfold (addChainType P getFile) (chainEntries n) ([], newRoot P) = Inr (types, root)" "type_entries (net_chaintypes net) = types"
    by (auto simp: processNetworkConfig_def Let_def rbind_Inr_iff chainEntries_def split: if_splits)
  with addChainTypes [of P getFile "chainEntries n" "[]"] assms(2) show ?thesis by auto
qed

text \<open>
  A processed network has exactly one of chain id and genesis hash as its chain id, and its chain types are, in
  order, those of the manifest, each with the package of its parsed file.
\<close>

theorem processNetworkConfig_correct:
  assumes "processNetworkConfig P getFile n = Inr net" and "distinct (map fst (chainEntries n))"
  shows "\<not> (truthy (raw_chainId n) \<and> truthy (raw_genesisHash n)) \<and>
    net_chainId net = (if truthy (raw_genesisHash n) then raw_genesisHash n else raw_chainId n) \<and>
    list_all2 (loadedFrom P getFile) (chainEntries n) (type_entries (net_chaintypes net))"
  using assms processNetworkConfig_loads [OF assms]
  by (auto simp: processNetworkConfig_def Let_def rbind_Inr_iff split: if_splits)

definition sampleProto :: "(string, string) protobuf_lib" where
  "sampleProto =
     \<lparr>protoParse = (\<lambda>t. Inr (Some (takeWhile (\<lambda>c. c \<noteq> CHR '':'') t), t)), newRoot = [], addRoot = (\<lambda>r p. Inr (r @ p)),
      lookupIn = (\<lambda>r n. Inr n)\<rparr>"

definition sampleNetwork :: raw_network where
  "sampleNetwork =
     \<lparr>raw_chainId = JUndefined, raw_genesisHash = JStr ''0xab'', raw_endpoint = JStr ''https://rpc'', raw_dictionary = JUndefined,
      raw_chaintypes = Some [(''k'', \<lparr>module_file = ''a.proto'', module_messages = [''MsgA'']\<rparr>)]\<rparr>"

definition sampleReader :: reader where
  "sampleReader f = (if f = ''a.proto'' then Inr (Some ''pkg:x'') else throwError f)"

lemma sample_network_eval:
  "processNetworkConfig sampleProto sampleReader sampleNetwork =
   Inr \<lparr>net_chainId = JStr ''0xab'', net_endpoint = JStr ''https://rpc'', net_dictionary = JUndefined,
        net_chaintypes = \<lparr>type_entries = [(''k'', \<lparr>messages = [''MsgA''], packageName = Some ''pkg''\<rparr>)],
                          lookupTypeOrEnum = Inr\<rparr>\<rparr>"
  by (simp add: processNetworkConfig_def Let_def sampleNetwork_def sampleProto_def sampleReader_def addChainType_def
      loadNetworkChainType_def)

theorem processNetworkConfig_correct_witness:
  "\<exists>net. processNetworkConfig sampleProto sampleReader sampleNetwork = Inr net \<and> net_chainId net = JStr ''0xab'' \<and>
     list_all2 (loadedFrom sampleProto sampleReader) (chainEntries sampleNetwork) (type_entries (net_chaintypes net))"
proof -
  have "distinct (map fst (chainEntries sampleNetwork))" by (simp add: chainEntries_def sampleNetwork_def)
  from processNetworkConfig_correct [OF sample_network_eval this] show ?thesis
    using sample_network_eval by auto
qed

text \<open>
  A message that the manifest lists for a protobuf file is decoded with the type of that file's package: the
  registry built for the processed network resolves its type URL to the type found in the joint protobuf root.
\<close>

lemma project_messages_lookup:
  assumes "type_registry R" and "processNetworkConfig P getFile n = Inr net" and "distinct (map fst (chainEntries n))"
    and "buildRegistry R defaults wasmType (Some (net_chaintypes net)) = Inr registry"
    and "kv \<in> set (chainEntries n)" and "msg \<in> set (module_messages (snd kv))"
  shows "\<exists>text pkg proto g. getFile (module_file (snd kv)) = Inr (Some text) \<and> protoParse P text = Inr (pkg, proto) \<and>
    lookupTypeOrEnum (net_chaintypes net) ((case pkg of None \<Rightarrow> fst kv | Some p \<Rightarrow> p) @ ''.'' @ msg) = Inr g \<and>
    lookupType R registry (''/'' @ (case pkg of None \<Rightarrow> fst kv | Some p \<Rightarrow> p) @ ''.'' @ msg) = Some g"
proof -
  from list_all2_left_mem [OF processNetworkConfig_loads [OF assms(2, 3)] assms(5)] obtain e where
    e: "e \<in> set (type_entries (net_chaintypes net))" "loadedFrom P getFile kv e"
    by blast
  from e(2) obtain content pkg proto where l: "getFile (module_file (snd kv)) = Inr (Some content)"
    "protoParse P content = Inr (pkg, proto)" "e = (fst kv, \<lparr>messages = module_messages (snd kv), packageName = pkg\<rparr>)"
    by (auto simp: loadedFrom_def)
  let ?name = "(case pkg of None \<Rightarrow> fst kv | Some p \<Rightarrow> p) @ ''.'' @ msg"
  have "''/'' @ ?name = ''/'' @ qualifiedName e msg" "msg \<in> set (messages (snd e))"
    using l(3) assms(6) by (simp_all add: qualifiedName_def split: option.split)
  with e(1) have "''/'' @ ?name \<in> declaredUrls (net_chaintypes net)"
    unfolding declaredUrls_def by blast
  with buildRegistry_lookup [OF assms(1, 4), of "''/'' @ ?name"] obtain g where
    "lookupTypeOrEnum (net_chaintypes net) ?name = Inr g" "lookupType R registry (''/'' @ ?name) = Some g" by auto
  with l show ?thesis by blast
qed

text \<open>
  C25: a project is only created from a manifest that passes validation with version 1.0.0; then its endpoint is
  present, an endpoint given as one string is a list of one, and the runner accepts the version of the node.
\<close>

theorem createProject_sound:
  assumes "createProject M P L text packageVersion getFile raw path root over = Inr p"
  shows "\<exists>m. newManifestVersioned M raw = Inr m \<and> validateManifest M m = Inr () \<and> impl_specVersion m = ''1.0.0'' \<and>
    validateSemver L packageVersion (project_runner_version p) \<and> project_runner_version p = impl_runner_node_version m \<and>
    truthy (net_endpoint (project_network p)) \<and>
    (over_endpoint over = None \<longrightarrow> net_endpoint (project_network p) =
       (case raw_endpoint (impl_network m) of JStr s \<Rightarrow> JArr [JStr s] | v \<Rightarrow> v)) \<and>
    (\<forall>v. over_endpoint over = Some v \<longrightarrow> net_endpoint (project_network p) = v)"
proof -
  obtain m where m: "newManifestVersioned M raw = Inr m" "validateManifest M m = Inr ()" "impl_specVersion m = ''1.0.0''"
    and l: "loadProjectFromManifestBase P L text packageVersion getFile m path root over = Inr p"
    using assms by (auto simp: createProject_def parseCosmosProjectManifest_def validateImpl_def asImpl_def rbind_Inr_iff isV1_0_0_def
        asV1_0_0_def
        split: if_splits)
  from l obtain network where net: "processNetworkConfig P getFile (overrideNetwork (endpointArray (impl_network m)) over) = Inr network"
    "truthy (net_endpoint network)" "validateSemver L packageVersion (impl_runner_node_version m)"
    "project_network p = network" "project_runner_version p = impl_runner_node_version m"
    by (auto simp: loadProjectFromManifestBase_def rbind_Inr_iff split: if_splits)
  from net(1) have "net_endpoint network = override (raw_endpoint (endpointArray (impl_network m))) (over_endpoint over)"
    by (auto simp: processNetworkConfig_def Let_def rbind_Inr_iff overrideNetwork_def split: if_splits)
  moreover have "raw_endpoint (endpointArray n) = (case raw_endpoint n of JStr s \<Rightarrow> JArr [JStr s] | v \<Rightarrow> v)" for n :: raw_network
    by (simp add: endpointArray_def split: js.split)
  ultimately show ?thesis using m net by (auto simp: override_def)
qed

definition sampleImpl :: "(unit, unit) manifest_impl" where
  "sampleImpl =
     \<lparr>impl_specVersion = ''1.0.0'', impl_network = sampleNetwork, impl_schema_file = ''s.graphql'', impl_dataSources = [],
      impl_templates = None, impl_runner_node_version = ''3'', impl_parent = JUndefined, impl_description = JUndefined,
      impl_repository = JUndefined\<rparr>"

definition sampleManifests :: "(unit, unit) manifest_lib" where
  "sampleManifests =
     \<lparr>plainToInstance = (\<lambda>c v. Inr sampleImpl), validateManifest = (\<lambda>m. Inr ()), deploymentYaml = (\<lambda>m. None)\<rparr>"

definition sampleLoader :: "(unit, unit, unit, unit, unit) loader_lib" where
  "sampleLoader =
     \<lparr>buildSchemaFromString = (\<lambda>s. Inr ()), updateDataSources = Inr, loadProjectTemplates = (\<lambda>t. Inr []),
      validateSemver = (\<lambda>v w. v = w), readerRoot = None\<rparr>"

definition noOverrides :: network_overrides where
  "noOverrides =
     \<lparr>over_chainId = None, over_genesisHash = None, over_endpoint = None, over_dictionary = None, over_chaintypes = None\<rparr>"

definition schemaReader :: reader where
  "schemaReader f = (if f = ''s.graphql'' then Inr (Some ''type A'') else sampleReader f)"

theorem createProject_sound_witness:
  "\<exists>p. createProject sampleManifests sampleProto sampleLoader (\<lambda>v. ''x'') ''3'' schemaReader
         (JObj [(''specVersion'', JStr ''1.0.0'')]) ''/app'' ''/app'' noOverrides = Inr p \<and>
     net_endpoint (project_network p) = JArr [JStr ''https://rpc'']"
proof -
  have "\<exists>p. createProject sampleManifests sampleProto sampleLoader (\<lambda>v. ''x'') ''3'' schemaReader
         (JObj [(''specVersion'', JStr ''1.0.0'')]) ''/app'' ''/app'' noOverrides = Inr p"
    by (simp add: createProject_def parseCosmosProjectManifest_def validateImpl_def asImpl_def newManifestVersioned_def propertyKey_def
        supportedVersions_def sampleManifests_def sampleImpl_def isV1_0_0_def asV1_0_0_def
        loadProjectFromManifestBase_def endpointArray_def sampleNetwork_def overrideNetwork_def noOverrides_def override_def
        processNetworkConfig_def Let_def addChainType_def loadNetworkChainType_def schemaReader_def sampleReader_def
        sampleProto_def readSchema_def sampleLoader_def)
  then obtain p where p: "createProject sampleManifests sampleProto sampleLoader (\<lambda>v. ''x'') ''3'' schemaReader
         (JObj [(''specVersion'', JStr ''1.0.0'')]) ''/app'' ''/app'' noOverrides = Inr p" by blast
  obtain m where m: "newManifestVersioned sampleManifests (JObj [(''specVersion'', JStr ''1.0.0'')]) = Inr m"
    and n: "net_endpoint (project_network p) = (case raw_endpoint (impl_network m) of JStr s \<Rightarrow> JArr [JStr s] | v \<Rightarrow> v)"
    using createProject_sound [OF p] by (auto simp: noOverrides_def)
  have "m = sampleImpl"
    using m by (simp add: newManifestVersioned_def propertyKey_def supportedVersions_def sampleManifests_def)
  with n p show ?thesis by (simp add: sampleImpl_def sampleNetwork_def)
qed

end
