(* ===== verification/Models.thy ===== *)
theory Models
  imports Ds_Processor
begin

text \<open>
  The classes that describe valid manifests: \<^verbatim>\<open>common-cosmos/src/project/models.ts\<close> and
  \<^verbatim>\<open>versioned/v1_0_0/model.ts\<close>.  Their decorators are data here; the validation that class-validator performs with them is
  a parameter with the contract \<open>class_validator\<close>.  Classes of \<^verbatim>\<open>@subql/common\<close> that these classes extend or refer to are
  fields of \<open>base_models\<close>.
\<close>

section \<open>Decorated classes\<close>

datatype constraint =
    IsString | IsInt | IsBoolean | IsObject | IsArray | IsNotEmpty | IsEnum "string list" | Equals string | IsFileReferences

text \<open>
  A field has a name, is optional or not, may be validated only if another property has a given value, and carries
  constraints.  Nested validation goes to a class, to a class for each value of a map, or to the class that the
  property \<^verbatim>\<open>kind\<close> selects, with a default or with an error for an unknown kind.
\<close>

datatype class_spec = Class string "field_spec list"
  and field_spec = Field (field_name: string) (isOptional: bool) (validateIf: "(string \<times> string) option")
    (constraints: "constraint list") (nested: nesting)
  and nesting =
    Plain | Nested class_spec | NestedEach class_spec | NestedByKind class_spec "(string \<times> class_spec) list"
  | NestedOnlyKinds "(string \<times> class_spec) list"

abbreviation required :: "string \<Rightarrow> constraint list \<Rightarrow> field_spec" where
  "required n cs \<equiv> Field n False None cs Plain"

abbreviation optional :: "string \<Rightarrow> constraint list \<Rightarrow> field_spec" where
  "optional n cs \<equiv> Field n True None cs Plain"

fun fieldsOf :: "class_spec \<Rightarrow> field_spec list" where
  "fieldsOf (Class n fs) = fs"

record base_models =
  BaseDataSource :: "field_spec list"
  RunnerNodeImpl :: "field_spec list"
  RunnerQueryBaseModel :: class_spec
  BaseDeploymentV1_0_0 :: "field_spec list"
  FileType :: class_spec
  CommonProjectNetworkV1_0_0 :: "field_spec list"
  ProjectManifestBaseImpl :: "field_spec list"

section \<open>Filters and handlers\<close>

definition kindEnum :: "string list" where
  "kindEnum = map kindValue handlerKinds"

definition BlockFilterModel :: class_spec where
  "BlockFilterModel = Class ''BlockFilter'' [optional ''modulo'' [IsInt], optional ''timestamp'' [IsString]]"

definition TxFilterModel :: class_spec where
  "TxFilterModel = Class ''TxFilter'' [optional ''includeFailedTx'' [IsBoolean]]"

definition MessageFilterModel :: class_spec where
  "MessageFilterModel = Class ''MessageFilter''
     (fieldsOf TxFilterModel @
      [required ''type'' [IsString],
       optional ''values'' [IsObject],
       Field ''contractCall'' True (Some (''type'', MsgExecuteContract)) [IsString] Plain])"

text \<open>The message filter of an event filter has a type but no nested validation.\<close>

definition EventFilterModel :: class_spec where
  "EventFilterModel = Class ''EventFilter''
     [required ''type'' [IsString], optional ''messageFilter'' [], optional ''attributes'' [IsObject]]"

text \<open>Likewise the filter of a block handler.\<close>

definition BlockHandlerModel :: class_spec where
  "BlockHandlerModel = Class ''BlockHandler''
     [required ''kind'' [IsEnum kindEnum], required ''handler'' [IsString], optional ''filter'' []]"

definition TransactionHandlerModel :: class_spec where
  "TransactionHandlerModel = Class ''TransactionHandler''
     [required ''kind'' [IsEnum kindEnum], required ''handler'' [IsString]]"

definition MessageHandlerModel :: class_spec where
  "MessageHandlerModel = Class ''MessageHandler''
     [required ''kind'' [IsEnum kindEnum], required ''handler'' [IsString],
      Field ''filter'' True None [] (Nested MessageFilterModel)]"

definition EventHandlerModel :: class_spec where
  "EventHandlerModel = Class ''EventHandler''
     [Field ''filter'' True None [] (Nested EventFilterModel),
      required ''kind'' [IsEnum kindEnum], required ''handler'' [IsString]]"

definition CustomHandlerModel :: class_spec where
  "CustomHandlerModel = Class ''CustomHandler''
     [required ''kind'' [IsString], required ''handler'' [IsString], optional ''filter'' [IsObject]]"

text \<open>The classes to which the handlers of a runtime mapping are transformed by their kind.\<close>

definition handlerClasses :: "(string \<times> class_spec) list" where
  "handlerClasses =
     [(kindValue Event, EventHandlerModel), (kindValue Message, MessageHandlerModel),
      (kindValue Transaction, TransactionHandlerModel), (kindValue Block, BlockHandlerModel)]"

definition RuntimeMappingModel :: class_spec where
  "RuntimeMappingModel = Class ''RuntimeMapping''
     [Field ''handlers'' False None [IsArray] (NestedOnlyKinds handlerClasses), required ''file'' [IsString]]"

definition CustomMappingModel :: class_spec where
  "CustomMappingModel = Class ''CustomMapping''
     [Field ''handlers'' False None [IsArray] (Nested CustomHandlerModel), required ''file'' [IsString]]"

section \<open>Data sources\<close>

definition CosmosProcessorOptionsModel :: class_spec where
  "CosmosProcessorOptionsModel = Class ''CosmosProcessorOptions'' [optional ''abi'' [IsString]]"

definition CosmosRuntimeDataSourceBaseModel :: "base_models \<Rightarrow> class_spec" where
  "CosmosRuntimeDataSourceBaseModel B = Class ''CosmosRuntimeDataSourceBase''
     (BaseDataSource B @
      [required ''kind'' [IsEnum [RuntimeKind, ''cosmos/Custom'']],
       Field ''mapping'' False None [] (Nested RuntimeMappingModel),
       optional ''assets'' [IsFileReferences],
       Field ''options'' True None [] (Nested CosmosProcessorOptionsModel)])"

definition CosmosFileReferenceModel :: class_spec where
  "CosmosFileReferenceModel = Class ''CosmosFileReferenceImpl'' [required ''file'' [IsString]]"

definition CosmosCustomModuleModel :: class_spec where
  "CosmosCustomModuleModel = Class ''CosmosCustomModuleImpl''
     [required ''file'' [IsString], required ''messages'' [IsArray]]"

definition CosmosCustomDataSourceBaseModel :: "base_models \<Rightarrow> class_spec" where
  "CosmosCustomDataSourceBaseModel B = Class ''CosmosCustomDataSourceBase''
     (BaseDataSource B @
      [required ''kind'' [IsString],
       Field ''mapping'' False None [] (Nested CustomMappingModel),
       Field ''assets'' False None [] (NestedEach CosmosFileReferenceModel),
       required ''processor'' [IsObject]])"

section \<open>The manifest of version 1.0.0\<close>

definition CosmosRunnerNodeModel :: "base_models \<Rightarrow> class_spec" where
  "CosmosRunnerNodeModel B = Class ''CosmosRunnerNodeImpl'' (RunnerNodeImpl B @ [required ''name'' [Equals ''@subql/node-cosmos'']])"

definition CosmosRuntimeDataSourceModel :: "base_models \<Rightarrow> class_spec" where
  "CosmosRuntimeDataSourceModel B = Class ''CosmosRuntimeDataSourceImpl'' (fieldsOf (CosmosRuntimeDataSourceBaseModel B))"

definition CosmosCustomDataSourceModel :: "base_models \<Rightarrow> class_spec" where
  "CosmosCustomDataSourceModel B = Class ''CosmosCustomDataSourceImpl'' (fieldsOf (CosmosCustomDataSourceBaseModel B))"

definition CosmosProjectNetworkDeploymentModel :: class_spec where
  "CosmosProjectNetworkDeploymentModel = Class ''CosmosProjectNetworkDeployment''
     [required ''chainId'' [IsString, IsNotEmpty],
      optional ''bypassBlocks'' [IsArray],
      Field ''chaintypes'' True None [] (NestedEach CosmosCustomModuleModel)]"

definition CosmosProjectNetworkModel :: "base_models \<Rightarrow> class_spec" where
  "CosmosProjectNetworkModel B = Class ''CosmosProjectNetwork''
     (CommonProjectNetworkV1_0_0 B @ [Field ''chaintypes'' True None [] (NestedEach CosmosCustomModuleModel)])"

definition RuntimeDatasourceTemplateModel :: "base_models \<Rightarrow> class_spec" where
  "RuntimeDatasourceTemplateModel B = Class ''RuntimeDatasourceTemplateImpl''
     (fieldsOf (CosmosRuntimeDataSourceModel B) @ [required ''name'' [IsString]])"

definition CustomDatasourceTemplateModel :: "base_models \<Rightarrow> class_spec" where
  "CustomDatasourceTemplateModel B = Class ''CustomDatasourceTemplateImpl''
     (fieldsOf (CosmosCustomDataSourceModel B) @ [required ''name'' [IsString]])"

definition CosmosRunnerSpecsModel :: "base_models \<Rightarrow> class_spec" where
  "CosmosRunnerSpecsModel B = Class ''CosmosRunnerSpecsImpl''
     [Field ''node'' False None [IsObject] (Nested (CosmosRunnerNodeModel B)),
      Field ''query'' False None [IsObject] (Nested (RunnerQueryBaseModel B))]"

definition dataSourcesField :: "base_models \<Rightarrow> field_spec" where
  "dataSourcesField B =
     Field ''dataSources'' False None [IsArray]
       (NestedByKind (CosmosCustomDataSourceModel B) [(''cosmos/Runtime'', CosmosRuntimeDataSourceModel B)])"

definition templatesField :: "base_models \<Rightarrow> field_spec" where
  "templatesField B =
     Field ''templates'' True None [IsArray]
       (NestedByKind (CustomDatasourceTemplateModel B) [(''cosmos/Runtime'', RuntimeDatasourceTemplateModel B)])"

definition DeploymentV1_0_0Model :: "base_models \<Rightarrow> class_spec" where
  "DeploymentV1_0_0Model B = Class ''DeploymentV1_0_0''
     (BaseDeploymentV1_0_0 B @
      [Field ''network'' False None [] (Nested CosmosProjectNetworkDeploymentModel),
       Field ''runner'' False None [IsObject] (Nested (CosmosRunnerSpecsModel B)),
       dataSourcesField B, templatesField B])"

definition ProjectManifestV1_0_0Model :: "base_models \<Rightarrow> class_spec" where
  "ProjectManifestV1_0_0Model B = Class ''ProjectManifestV1_0_0Impl''
     (ProjectManifestBaseImpl B @
      [required ''specVersion'' [Equals ''1.0.0''],
       required ''name'' [IsString],
       required ''version'' [IsString],
       Field ''network'' False None [IsObject] (Nested (CosmosProjectNetworkModel B)),
       Field ''schema'' False None [] (Nested (FileType B)),
       dataSourcesField B, templatesField B,
       Field ''runner'' False None [IsObject] (Nested (CosmosRunnerSpecsModel B)),
       optional ''parent'' [IsObject]])"

section \<open>The contract of validation\<close>

text \<open>An own property of an object, undefined when there is none.\<close>

definition ownProp :: "js \<Rightarrow> string \<Rightarrow> js" where
  "ownProp v k = (case v of JObj kvs \<Rightarrow> (case map_of kvs k of Some w \<Rightarrow> w | None \<Rightarrow> JUndefined) | _ \<Rightarrow> JUndefined)"

definition isObject :: "js \<Rightarrow> bool" where
  "isObject v = (case v of JObj kvs \<Rightarrow> True | _ \<Rightarrow> False)"

definition absent :: "js \<Rightarrow> bool" where
  "absent v = (v = JUndefined \<or> v = JNull)"

fun satisfies :: "constraint \<Rightarrow> js \<Rightarrow> bool" where
  "satisfies IsString v = (case v of JStr s \<Rightarrow> True | _ \<Rightarrow> False)"
| "satisfies IsInt v = (case v of JNum n \<Rightarrow> True | _ \<Rightarrow> False)"
| "satisfies IsBoolean v = (case v of JBool b \<Rightarrow> True | _ \<Rightarrow> False)"
| "satisfies IsObject v = isObject v"
| "satisfies IsArray v = (case v of JArr vs \<Rightarrow> True | _ \<Rightarrow> False)"
| "satisfies IsNotEmpty v = (\<not> absent v \<and> v \<noteq> JStr [])"
| "satisfies (IsEnum ws) v = (case v of JStr s \<Rightarrow> s \<in> set ws | _ \<Rightarrow> False)"
| "satisfies (Equals w) v = (v = JStr w)"
| "satisfies IsFileReferences v = (validateFileReferences v = Inr True)"

text \<open>Nested validation passes over absent values and goes into arrays.\<close>

definition elements :: "(js \<Rightarrow> bool) \<Rightarrow> js \<Rightarrow> bool" where
  "elements P v = (absent v \<or> isObject v \<and> P v \<or> (case v of JArr vs \<Rightarrow> list_all P vs | _ \<Rightarrow> False))"

definition eachValue :: "(js \<Rightarrow> bool) \<Rightarrow> js \<Rightarrow> bool" where
  "eachValue P v =
     (absent v \<or> (case v of JObj kvs \<Rightarrow> list_all (\<lambda>kv. P (snd kv)) kvs | JArr vs \<Rightarrow> list_all P vs | _ \<Rightarrow> False))"

definition kindText :: "js \<Rightarrow> string option" where
  "kindText v = (case ownProp v ''kind'' of JStr s \<Rightarrow> Some s | _ \<Rightarrow> None)"

definition byKind :: "(string option \<Rightarrow> (js \<Rightarrow> bool) option) \<Rightarrow> js \<Rightarrow> bool" where
  "byKind select v = (case select (kindText v) of Some P \<Rightarrow> P v | None \<Rightarrow> False)"

definition orDefault :: "(js \<Rightarrow> bool) \<Rightarrow> (string \<times> (js \<Rightarrow> bool)) list \<Rightarrow> string option \<Rightarrow> (js \<Rightarrow> bool) option" where
  "orDefault d tbl k = (case Option.bind k (map_of tbl) of Some P \<Rightarrow> Some P | None \<Rightarrow> Some d)"

definition onlyKinds :: "(string \<times> (js \<Rightarrow> bool)) list \<Rightarrow> js \<Rightarrow> bool" where
  "onlyKinds tbl v =
     (case v of JArr vs \<Rightarrow> list_all (byKind (\<lambda>k. Option.bind k (map_of tbl))) vs | _ \<Rightarrow> False)"

fun nestedOk :: "(class_spec \<Rightarrow> js \<Rightarrow> bool) \<Rightarrow> nesting \<Rightarrow> js \<Rightarrow> bool" where
  "nestedOk valid Plain = (\<lambda>v. True)"
| "nestedOk valid (Nested c) = elements (valid c)"
| "nestedOk valid (NestedEach c) = eachValue (valid c)"
| "nestedOk valid (NestedByKind d tbl) = elements (byKind (orDefault (valid d) (map (map_prod id valid) tbl)))"
| "nestedOk valid (NestedOnlyKinds tbl) = onlyKinds (map (map_prod id valid) tbl)"

definition fieldCheck ::
    "string \<Rightarrow> bool \<Rightarrow> (string \<times> string) option \<Rightarrow> constraint list \<Rightarrow> (js \<Rightarrow> bool) \<Rightarrow> js \<Rightarrow> bool" where
  "fieldCheck n opt cond cs nest obj =
     (let v = ownProp obj n in
      opt \<and> absent v \<or> (case cond of Some (k, w) \<Rightarrow> ownProp obj k \<noteq> JStr w | None \<Rightarrow> False) \<or>
      list_all (\<lambda>c. satisfies c v) cs \<and> nest v)"

fun fieldOk :: "(class_spec \<Rightarrow> js \<Rightarrow> bool) \<Rightarrow> js \<Rightarrow> field_spec \<Rightarrow> bool" where
  "fieldOk valid obj (Field n opt cond cs nest) = fieldCheck n opt cond cs (nestedOk valid nest) obj"

text \<open>An object that passes validation satisfies the decorators of every field of its class.\<close>

locale class_validator =
  fixes valid :: "class_spec \<Rightarrow> js \<Rightarrow> bool"
  assumes valid_fields: "valid c v \<Longrightarrow> isObject v \<and> list_all (fieldOk valid v) (fieldsOf c)"
begin

lemma valid_field: "valid c v \<Longrightarrow> f \<in> set (fieldsOf c) \<Longrightarrow> fieldOk valid v f"
  using valid_fields by (auto simp: list_all_iff)

lemma valid_required:
  "valid c v \<Longrightarrow> Field n False None cs nest \<in> set (fieldsOf c) \<Longrightarrow>
   list_all (\<lambda>k. satisfies k (ownProp v n)) cs \<and> nestedOk valid nest (ownProp v n)"
  by (drule (1) valid_field) (simp add: fieldCheck_def Let_def)

lemma valid_optional:
  "valid c v \<Longrightarrow> Field n True None cs nest \<in> set (fieldsOf c) \<Longrightarrow>
   absent (ownProp v n) \<or> list_all (\<lambda>k. satisfies k (ownProp v n)) cs \<and> nestedOk valid nest (ownProp v n)"
  by (drule (1) valid_field) (simp add: fieldCheck_def Let_def)

end

text \<open>Validation that checks just the decorators.\<close>

primrec stdClass :: "class_spec \<Rightarrow> js \<Rightarrow> bool"
  and stdField :: "field_spec \<Rightarrow> js \<Rightarrow> bool"
  and stdNesting :: "nesting \<Rightarrow> js \<Rightarrow> bool" where
  "stdClass (Class n fs) = (\<lambda>v. isObject v \<and> list_all (\<lambda>p. p v) (map stdField fs))"
| "stdField (Field n opt cond cs nest) = fieldCheck n opt cond cs (stdNesting nest)"
| "stdNesting Plain = (\<lambda>v. True)"
| "stdNesting (Nested c) = elements (stdClass c)"
| "stdNesting (NestedEach c) = eachValue (stdClass c)"
| "stdNesting (NestedByKind d tbl) = elements (byKind (orDefault (stdClass d) (map (map_prod id stdClass) tbl)))"
| "stdNesting (NestedOnlyKinds tbl) = onlyKinds (map (map_prod id stdClass) tbl)"

lemma stdNesting_eq: "stdNesting nest = nestedOk stdClass nest"
  by (cases nest) simp_all

interpretation std_validator: class_validator stdClass
proof
  fix c v assume "stdClass c v"
  moreover obtain n fs where "c = Class n fs" by (cases c)
  moreover have "stdField f v = fieldOk stdClass v f" for f
    by (cases f) (simp add: stdNesting_eq)
  ultimately show "isObject v \<and> list_all (fieldOk stdClass v) (fieldsOf c)"
    by (simp add: list_all_iff)
qed

section \<open>Well-typed manifests\<close>

definition wellTypedMessageFilter :: "js \<Rightarrow> bool" where
  "wellTypedMessageFilter f \<longleftrightarrow>
     (\<exists>t. ownProp f ''type'' = JStr t) \<and>
     (absent (ownProp f ''includeFailedTx'') \<or> (\<exists>b. ownProp f ''includeFailedTx'' = JBool b)) \<and>
     (absent (ownProp f ''values'') \<or> isObject (ownProp f ''values'')) \<and>
     (ownProp f ''type'' = JStr MsgExecuteContract \<longrightarrow>
        absent (ownProp f ''contractCall'') \<or> (\<exists>s. ownProp f ''contractCall'' = JStr s))"

definition wellTypedEventFilter :: "js \<Rightarrow> bool" where
  "wellTypedEventFilter f \<longleftrightarrow>
     (\<exists>t. ownProp f ''type'' = JStr t) \<and> (absent (ownProp f ''attributes'') \<or> isObject (ownProp f ''attributes''))"

definition wellTypedHandler :: "js \<Rightarrow> bool" where
  "wellTypedHandler h \<longleftrightarrow>
     (\<exists>k s. ownProp h ''kind'' = JStr (kindValue k) \<and> ownProp h ''handler'' = JStr s \<and>
        (k = Message \<longrightarrow> elements wellTypedMessageFilter (ownProp h ''filter'')) \<and>
        (k = Event \<longrightarrow> elements wellTypedEventFilter (ownProp h ''filter'')))"

definition wellTypedMapping :: "js \<Rightarrow> bool" where
  "wellTypedMapping m \<longleftrightarrow>
     (\<exists>f hs. ownProp m ''file'' = JStr f \<and> ownProp m ''handlers'' = JArr hs \<and> list_all wellTypedHandler hs)"

lemma satisfies_simps [simp]:
  "satisfies IsString v \<longleftrightarrow> (\<exists>s. v = JStr s)"
  "satisfies IsBoolean v \<longleftrightarrow> (\<exists>b. v = JBool b)"
  "satisfies IsArray v \<longleftrightarrow> (\<exists>vs. v = JArr vs)"
  "satisfies (IsEnum ws) v \<longleftrightarrow> (\<exists>s \<in> set ws. v = JStr s)"
  by (cases v; auto)+

declare satisfies.simps(1, 3, 5, 7) [simp del]

lemma elements_mono: "elements P v \<Longrightarrow> (\<And>w. P w \<Longrightarrow> Q w) \<Longrightarrow> elements Q v"
  by (cases v) (auto simp: elements_def list_all_iff)

context class_validator
begin

lemma valid_message_filter:
  assumes "valid MessageFilterModel f"
  shows "wellTypedMessageFilter f"
proof -
  have t: "\<exists>t. ownProp f ''type'' = JStr t"
    using valid_required [OF assms, of "''type''" "[IsString]" Plain]
    by (simp add: MessageFilterModel_def TxFilterModel_def)
  have i: "absent (ownProp f ''includeFailedTx'') \<or> (\<exists>b. ownProp f ''includeFailedTx'' = JBool b)"
    using valid_optional [OF assms, of "''includeFailedTx''" "[IsBoolean]" Plain]
    by (simp add: MessageFilterModel_def TxFilterModel_def)
  have v: "absent (ownProp f ''values'') \<or> isObject (ownProp f ''values'')"
    using valid_optional [OF assms, of "''values''" "[IsObject]" Plain]
    by (simp add: MessageFilterModel_def TxFilterModel_def)
  have "fieldOk valid f (Field ''contractCall'' True (Some (''type'', MsgExecuteContract)) [IsString] Plain)"
    using assms by (rule valid_field) (simp add: MessageFilterModel_def)
  with t i v show ?thesis by (auto simp: wellTypedMessageFilter_def fieldCheck_def Let_def)
qed

lemma valid_event_filter:
  assumes "valid EventFilterModel f"
  shows "wellTypedEventFilter f"
  using valid_required [OF assms, of "''type''" "[IsString]" Plain]
    valid_optional [OF assms, of "''attributes''" "[IsObject]" Plain]
  by (simp add: EventFilterModel_def wellTypedEventFilter_def)

lemma valid_handler_parts:
  assumes "valid c h" and "required ''handler'' [IsString] \<in> set (fieldsOf c)"
  shows "\<exists>s. ownProp h ''handler'' = JStr s"
  using valid_required [OF assms] by simp

lemma valid_nested_filter:
  assumes "valid c h" and "Field ''filter'' True None [] (Nested m) \<in> set (fieldsOf c)"
  shows "elements (valid m) (ownProp h ''filter'')"
  using valid_optional [OF assms] by (auto simp: elements_def)

lemma valid_handler:
  assumes "byKind (\<lambda>k. Option.bind k (map_of (map (map_prod id valid) handlerClasses))) h"
  shows "wellTypedHandler h"
proof -
  let ?model = "\<lambda>k. case k of Event \<Rightarrow> EventHandlerModel | Message \<Rightarrow> MessageHandlerModel
      | Transaction \<Rightarrow> TransactionHandlerModel | Block \<Rightarrow> BlockHandlerModel"
  have "\<exists>k \<in> {Event, Message, Transaction, Block}. ownProp h ''kind'' = JStr (kindValue k) \<and> valid (?model k) h"
    using assms by (auto simp: byKind_def kindText_def handlerClasses_def split: js.splits if_splits option.splits)
  then obtain k where k: "ownProp h ''kind'' = JStr (kindValue k)" and c: "valid (?model k) h" by blast
  have "\<exists>s. ownProp h ''handler'' = JStr s"
    using c by (rule valid_handler_parts) (cases k; simp add: EventHandlerModel_def MessageHandlerModel_def
        TransactionHandlerModel_def BlockHandlerModel_def)
  moreover have "elements wellTypedMessageFilter (ownProp h ''filter'')" if "k = Message"
    using valid_nested_filter [of MessageHandlerModel h MessageFilterModel] c that
    by (intro elements_mono [OF _ valid_message_filter]) (simp_all add: MessageHandlerModel_def)
  moreover have "elements wellTypedEventFilter (ownProp h ''filter'')" if "k = Event"
    using valid_nested_filter [of EventHandlerModel h EventFilterModel] c that
    by (intro elements_mono [OF _ valid_event_filter]) (simp_all add: EventHandlerModel_def)
  ultimately show ?thesis using k by (auto simp: wellTypedHandler_def)
qed

lemma valid_mapping:
  assumes "valid RuntimeMappingModel m"
  shows "wellTypedMapping m"
proof -
  have "\<exists>f. ownProp m ''file'' = JStr f"
    using valid_required [OF assms, of "''file''" "[IsString]" Plain] by (simp add: RuntimeMappingModel_def)
  moreover have "onlyKinds (map (map_prod id valid) handlerClasses) (ownProp m ''handlers'')"
    using valid_required [OF assms, of "''handlers''" "[IsArray]" "NestedOnlyKinds handlerClasses"]
    by (simp add: RuntimeMappingModel_def)
  ultimately show ?thesis
    using valid_handler by (auto simp: wellTypedMapping_def onlyKinds_def list_all_iff split: js.splits)
qed

lemma valid_runtime_ds:
  assumes "valid (CosmosRuntimeDataSourceModel B) ds"
  shows "elements wellTypedMapping (ownProp ds ''mapping'')"
  using valid_required [OF assms, of "''mapping''" "[]" "Nested RuntimeMappingModel"] valid_mapping
  by (auto simp: CosmosRuntimeDataSourceModel_def CosmosRuntimeDataSourceBaseModel_def intro: elements_mono)

lemma valid_data_sources:
  assumes "valid (ProjectManifestV1_0_0Model B) raw"
  shows "\<exists>dss. ownProp raw ''dataSources'' = JArr dss \<and>
    (\<forall>ds \<in> set dss. ownProp ds ''kind'' = JStr RuntimeKind \<longrightarrow> elements wellTypedMapping (ownProp ds ''mapping''))"
proof -
  let ?tbl = "[(''cosmos/Runtime'', CosmosRuntimeDataSourceModel B)]"
  have "list_all (\<lambda>k. satisfies k (ownProp raw ''dataSources'')) [IsArray] \<and>
      nestedOk valid (NestedByKind (CosmosCustomDataSourceModel B) ?tbl) (ownProp raw ''dataSources'')"
    using assms by (rule valid_required) (simp add: ProjectManifestV1_0_0Model_def dataSourcesField_def)
  then obtain dss where dss: "ownProp raw ''dataSources'' = JArr dss"
    and el: "list_all (byKind (orDefault (valid (CosmosCustomDataSourceModel B)) (map (map_prod id valid) ?tbl))) dss"
    by (auto simp: elements_def absent_def isObject_def)
  have "elements wellTypedMapping (ownProp ds ''mapping'')" if "ds \<in> set dss" "ownProp ds ''kind'' = JStr RuntimeKind" for ds
  proof -
    have "byKind (orDefault (valid (CosmosCustomDataSourceModel B)) (map (map_prod id valid) ?tbl)) ds"
      using el that(1) by (simp add: list_all_iff)
    with that(2) have "valid (CosmosRuntimeDataSourceModel B) ds"
      by (simp add: byKind_def kindText_def orDefault_def RuntimeKind_def)
    then show ?thesis by (rule valid_runtime_ds)
  qed
  with dss show ?thesis by blast
qed

lemma valid_runner:
  assumes "valid (ProjectManifestV1_0_0Model B) raw"
  shows "ownProp (ownProp (ownProp raw ''runner'') ''node'') ''name'' = JStr ''@subql/node-cosmos''"
proof -
  have nested: "valid c v" if "satisfies IsObject v" "elements (valid c) v" for c v
    using that by (cases v) (auto simp: elements_def absent_def isObject_def)
  have "valid (CosmosRunnerSpecsModel B) (ownProp raw ''runner'')"
    using valid_required [OF assms, of "''runner''" "[IsObject]" "Nested (CosmosRunnerSpecsModel B)"]
    by (intro nested) (simp_all add: ProjectManifestV1_0_0Model_def)
  then have "valid (CosmosRunnerNodeModel B) (ownProp (ownProp raw ''runner'') ''node'')"
    using valid_required [of "CosmosRunnerSpecsModel B" _ "''node''" "[IsObject]" "Nested (CosmosRunnerNodeModel B)"]
    by (intro nested) (simp_all add: CosmosRunnerSpecsModel_def)
  from valid_required [OF this, of "''name''" "[Equals ''@subql/node-cosmos'']" Plain] show ?thesis
    by (simp add: CosmosRunnerNodeModel_def)
qed

end

text \<open>
  C24: a manifest that passes validation has version 1.0.0 and names the Cosmos node as its runner, and the mappings of
  its runtime data sources have a file and handlers, each of one of the four kinds and with a function.  The filters of
  message handlers have a type and, where present, a boolean \<^verbatim>\<open>includeFailedTx\<close>, an object of values and, for contract
  executions, a string as \<^verbatim>\<open>contractCall\<close>; the filters of event handlers have a type and, where present, an object of
  attributes.  Nothing is claimed of the filters of block and transaction handlers, nor of the \<^verbatim>\<open>messageFilter\<close> of an
  event filter, whose contents the classes do not validate.
\<close>

theorem manifest_well_typed:
  assumes "class_validator valid" and "valid (ProjectManifestV1_0_0Model B) raw"
  shows "ownProp raw ''specVersion'' = JStr ''1.0.0'' \<and>
    ownProp (ownProp (ownProp raw ''runner'') ''node'') ''name'' = JStr ''@subql/node-cosmos'' \<and>
    (\<exists>dss. ownProp raw ''dataSources'' = JArr dss \<and>
       (\<forall>ds \<in> set dss. ownProp ds ''kind'' = JStr RuntimeKind \<longrightarrow> elements wellTypedMapping (ownProp ds ''mapping'')))"
proof -
  have "ownProp raw ''specVersion'' = JStr ''1.0.0''"
    using class_validator.valid_required [OF assms, of "''specVersion''" "[Equals ''1.0.0'']" Plain]
    by (simp add: ProjectManifestV1_0_0Model_def)
  with class_validator.valid_data_sources [OF assms] class_validator.valid_runner [OF assms] show ?thesis by blast
qed

definition emptyBase :: base_models where
  "emptyBase =
     \<lparr>BaseDataSource = [], RunnerNodeImpl = [], RunnerQueryBaseModel = Class ''Q'' [], BaseDeploymentV1_0_0 = [],
      FileType = CosmosFileReferenceModel, CommonProjectNetworkV1_0_0 = [], ProjectManifestBaseImpl = []\<rparr>"

definition sampleHandler :: js where
  "sampleHandler = JObj
     [(''kind'', JStr ''cosmos/MessageHandler''), (''handler'', JStr ''handleMessage''),
      (''filter'', JObj [(''type'', JStr ''/cosmos.bank.v1beta1.MsgSend'')])]"

definition sampleManifest :: js where
  "sampleManifest = JObj
     [(''specVersion'', JStr ''1.0.0''), (''name'', JStr ''p''), (''version'', JStr ''0.0.1''), (''network'', JObj []),
      (''dataSources'', JArr [JObj [(''kind'', JStr ''cosmos/Runtime''),
         (''mapping'', JObj [(''file'', JStr ''dist/index.js''), (''handlers'', JArr [sampleHandler])])]]),
      (''runner'', JObj [(''node'', JObj [(''name'', JStr ''@subql/node-cosmos'')]), (''query'', JObj [])])]"

lemma sampleManifest_valid: "stdClass (ProjectManifestV1_0_0Model emptyBase) sampleManifest"
  by (simp add: ProjectManifestV1_0_0Model_def emptyBase_def sampleManifest_def sampleHandler_def fieldCheck_def Let_def
      ownProp_def isObject_def absent_def elements_def dataSourcesField_def templatesField_def CosmosRunnerSpecsModel_def
      CosmosRunnerNodeModel_def CosmosProjectNetworkModel_def byKind_def kindText_def orDefault_def
      CosmosRuntimeDataSourceModel_def CosmosRuntimeDataSourceBaseModel_def RuntimeKind_def RuntimeMappingModel_def
      onlyKinds_def handlerClasses_def MessageHandlerModel_def MessageFilterModel_def TxFilterModel_def kindEnum_def
      handlerKinds_def MsgExecuteContract_def)

theorem manifest_well_typed_witness:
  "\<exists>m. ownProp sampleManifest ''dataSources'' = JArr [m] \<and> elements wellTypedMapping (ownProp m ''mapping'')"
proof -
  have "ownProp sampleManifest ''dataSources'' = JArr [JObj [(''kind'', JStr ''cosmos/Runtime''),
         (''mapping'', JObj [(''file'', JStr ''dist/index.js''), (''handlers'', JArr [sampleHandler])])]]"
    by (simp add: ownProp_def sampleManifest_def)
  moreover have "ownProp (JObj [(''kind'', JStr ''cosmos/Runtime''), mp]) ''kind'' = JStr RuntimeKind" for mp
    by (simp add: ownProp_def RuntimeKind_def)
  ultimately show ?thesis
    using manifest_well_typed [OF std_validator.class_validator_axioms sampleManifest_valid] by fastforce
qed

section \<open>Filters that are not validated\<close>

text \<open>
  The fields \<^verbatim>\<open>messageFilter\<close> of event filters and \<^verbatim>\<open>filter\<close> of block handlers name a class but carry no nested validation:
  whatever value they have, a validator that checks just the decorators accepts the rest of the object as if the field
  were absent, while the same value is refused as the filter of a message handler.
\<close>

lemma ownProp_Cons: "ownProp (JObj ((k, v) # kvs)) n = (if k = n then v else ownProp (JObj kvs) n)"
  by (simp add: ownProp_def)

theorem nested_filters_unchecked:
  "stdClass EventFilterModel (JObj ((''messageFilter'', v) # kvs)) = stdClass EventFilterModel (JObj kvs) \<and>
   stdClass BlockHandlerModel (JObj ((''filter'', v) # kvs)) = stdClass BlockHandlerModel (JObj kvs) \<and>
   (stdClass MessageHandlerModel (JObj ((''filter'', JObj fs) # kvs)) \<longrightarrow> stdClass MessageFilterModel (JObj fs))"
  by (simp add: EventFilterModel_def BlockHandlerModel_def MessageHandlerModel_def fieldCheck_def Let_def ownProp_Cons
      isObject_def absent_def elements_def)

end
