(* ===== verification/Release.thy ===== *)
theory Release
  imports Json
begin

text \<open>
  The release scripts of the repository: \<^verbatim>\<open>.github/actions/create-release/gh-release-script.js\<close>, which cuts
  the section of a version out of a change log and publishes it, and
  \<^verbatim>\<open>.github/actions/create-prerelease/remove-stable-version.js\<close>.  The process exits, failures reported to the
  workflow and the request are actions; the outcome of the request is a parameter.
\<close>

section \<open>Gathering the release information\<close>

text \<open>The characters of \<open>[0-9]+(\.[0-9]+)+\<close>: numbers separated by dots, at least two.\<close>

definition isVersionNumber :: "string \<Rightarrow> bool" where
  "isVersionNumber v =
     (let ps = splitOn (CHR ''.'') v in 2 \<le> length ps \<and> list_all (\<lambda>p. p \<noteq> [] \<and> list_all isDigit p) ps)"

text \<open>A pattern of single characters, in which \<open>d\<close> stands for a digit, matches a prefix.\<close>

fun matchesPattern :: "string \<Rightarrow> string \<Rightarrow> bool" where
  "matchesPattern [] s = True"
| "matchesPattern (p # ps) [] = False"
| "matchesPattern (p # ps) (c # s) = ((if p = CHR ''d'' then isDigit c else c = p) \<and> matchesPattern ps s)"

text \<open>The expression \<^verbatim>\<open>regex\<close> at the start of a text; a version number holds no bracket.\<close>

definition releaseHeadingAt :: "string \<Rightarrow> bool" where
  "releaseHeadingAt s =
     (startsWith s ''## ['' \<and>
      (let r = drop 4 s; v = takeWhile (\<lambda>c. c \<noteq> CHR '']'') r
       in isVersionNumber v \<and> matchesPattern ''] - dddd-dd-dd'' (drop (length v) r)))"

text \<open>\<^verbatim>\<open>regex.test(line)\<close> looks for a match anywhere.\<close>

fun isReleaseHeading :: "string \<Rightarrow> bool" where
  "isReleaseHeading [] = releaseHeadingAt []"
| "isReleaseHeading (c # s) = (releaseHeadingAt (c # s) \<or> isReleaseHeading s)"

text \<open>The first loop: the index of the first line that mentions the version.\<close>

fun findVersion :: "string \<Rightarrow> nat \<Rightarrow> string list \<Rightarrow> nat option" where
  "findVersion version j [] = None"
| "findVersion version j (line # lines) =
     (if jsIncludes line (''['' @ version @ '']'') then Some j else findVersion version (Suc j) lines)"

text \<open>The second loop: its first line is taken, the others up to the next heading.\<close>

fun collectInfo :: "nat \<Rightarrow> string \<Rightarrow> string list \<Rightarrow> string" where
  "collectInfo j releaseInfo [] = releaseInfo"
| "collectInfo j releaseInfo (line # lines) =
     (if j = 0 \<or> \<not> isReleaseHeading line then collectInfo (Suc j) (releaseInfo @ line @ [CHR 0x0A]) lines
      else releaseInfo)"

definition gatherReleaseInfo :: "string \<Rightarrow> string \<Rightarrow> string" where
  "gatherReleaseInfo version changeLogs =
     (let lines = splitOn (CHR 0x0A) changeLogs in
      (case findVersion version 0 lines of
         None \<Rightarrow> []
       | Some i \<Rightarrow> collectInfo 0 [] (drop i lines)))"

section \<open>Publishing\<close>

record release_request =
  authorization :: string
  request_owner :: string
  request_name :: string
  request_repo :: string
  tag_name :: string
  request_body :: string

datatype failure_argument = FailureText string | FailureValue js_error

datatype release_action =
    ExitProcess nat
  | SetFailed failure_argument
  | PostRelease release_request

text \<open>A template literal prints an absent value as \<^verbatim>\<open>undefined\<close>.\<close>

definition templateText :: "string option \<Rightarrow> string" where
  "templateText s = (case s of None \<Rightarrow> ''undefined'' | Some t \<Rightarrow> t)"

text \<open>The request of \<^verbatim>\<open>publishRelease\<close> and what follows its outcome; the token comes from the environment.\<close>

definition releaseRequest :: "string option \<Rightarrow> string \<Rightarrow> string \<Rightarrow> string \<Rightarrow> release_request" where
  "releaseRequest token repoName version releaseInfo =
     \<lparr>authorization = ''token '' @ templateText token,
      request_owner = ''subquery'',
      request_name = ''['' @ version @ ''] '' @ repoName,
      request_repo = ''subql-cosmos'',
      tag_name = templateText (jsIndex (splitOn (CHR ''/'') repoName) 1) @ ''/'' @ version,
      request_body = releaseInfo\<rparr>"

definition publishRelease ::
    "(release_request \<Rightarrow> unit result) \<Rightarrow> string option \<Rightarrow> string \<Rightarrow> string \<Rightarrow> string \<Rightarrow> release_action list" where
  "publishRelease send token repoName version releaseInfo =
     (let r = releaseRequest token repoName version releaseInfo
      in PostRelease r # (case send r of Inl e \<Rightarrow> [SetFailed (FailureValue e)] | Inr _ \<Rightarrow> []))"

text \<open>
  The whole script on the name and the version of a package and its change log.  \<^verbatim>\<open>core.setFailed\<close> records a
  failure and returns, and reading the file may throw, which ends the script.
\<close>

definition releaseScript ::
    "(release_request \<Rightarrow> unit result) \<Rightarrow> string option \<Rightarrow> string \<Rightarrow> string \<Rightarrow> string result \<Rightarrow>
     release_action list result" where
  "releaseScript send token repoName version changeLog =
     (if jsIncludes version ''-'' then Inr [ExitProcess 0]
      else rbind changeLog (\<lambda>changeLogs.
        let releaseInfo = gatherReleaseInfo version changeLogs in
        Inr ((if releaseInfo = []
              then [SetFailed (FailureText
                      ''No release info found, either missing in changelog or changelog is formatted incorrectly'')]
              else []) @
             publishRelease send token repoName version releaseInfo)))"

text \<open>
  The prerelease script drops a stable version from the package file; the result is the object to write back,
  if anything is written.
\<close>

definition removeStableVersion :: "(string \<times> js) list \<Rightarrow> (string \<times> js) list option" where
  "removeStableVersion pJson =
     (case map_of pJson ''stableVersion'' of
        None \<Rightarrow> None
      | Some v \<Rightarrow> if truthy v then Some (filter (\<lambda>kv. fst kv \<noteq> ''stableVersion'') pJson) else None)"

section \<open>Change logs\<close>

text \<open>A change log: lines before the releases, then a heading and notes for each release.\<close>

record release =
  release_version :: string
  release_date :: string
  release_notes :: "string list"

definition releaseLines :: "release \<Rightarrow> string list" where
  "releaseLines r = (''## ['' @ release_version r @ ''] - '' @ release_date r) # release_notes r"

definition changeLogText :: "string list \<Rightarrow> release list \<Rightarrow> string" where
  "changeLogText preamble rs = joinWith [CHR 0x0A] (preamble @ concat (map releaseLines rs))"

definition wellFormedRelease :: "release \<Rightarrow> bool" where
  "wellFormedRelease r =
     (isVersionNumber (release_version r) \<and>
      length (release_date r) = 10 \<and> matchesPattern ''dddd-dd-dd'' (release_date r) \<and>
      list_all (\<lambda>line. CHR 0x0A \<notin> set line \<and> \<not> isReleaseHeading line) (release_notes r))"

definition mentions :: "string \<Rightarrow> string list \<Rightarrow> bool" where
  "mentions version lines = list_ex (\<lambda>line. jsIncludes line (''['' @ version @ '']'')) lines"

section \<open>Lemmas\<close>

lemma splitOn_covers: "x \<in> set s \<Longrightarrow> x = c \<or> (\<exists>w \<in> set (splitOn c s). x \<in> set w)"
proof (induction s)
  case (Cons y s)
  obtain w ws where "splitOn c s = w # ws" by (metis splitOn_not_Nil neq_Nil_conv)
  with Cons show ?case by auto
qed simp

lemma versionNumber_chars:
  assumes "isVersionNumber v" and "x \<in> set v"
  shows "x = CHR ''.'' \<or> isDigit x"
  using assms splitOn_covers [of x v "CHR ''.''"] by (fastforce simp: isVersionNumber_def list_all_iff Let_def)

lemma versionNumber_plain:
  assumes "isVersionNumber v"
  shows "CHR '']'' \<notin> set v" and "CHR 0x0A \<notin> set v" and "CHR ''-'' \<notin> set v"
  by (auto simp: isDigit_def dest: versionNumber_chars [OF assms])

lemma matchesPattern_append: "matchesPattern p s \<Longrightarrow> matchesPattern p (s @ t)"
  by (induction p s rule: matchesPattern.induct) auto

lemma matchesPattern_chars:
  "matchesPattern p s \<Longrightarrow> length s = length p \<Longrightarrow> x \<in> set s \<Longrightarrow> isDigit x \<or> x \<in> set p"
  by (induction p s rule: matchesPattern.induct) (auto split: if_splits)

lemma releaseHeadingAt_line:
  assumes "isVersionNumber v" and "matchesPattern ''dddd-dd-dd'' d"
  shows "isReleaseHeading (''## ['' @ v @ ''] - '' @ d)"
proof -
  have t: "takeWhile (\<lambda>c. c \<noteq> CHR '']'') (v @ CHR '']'' # u) = v" for u
    using versionNumber_plain(1) [OF assms(1)] by (induction v) auto
  have "matchesPattern (''] - '' @ ''dddd-dd-dd'') (''] - '' @ d)" using assms(2) by simp
  with assms(1) have "releaseHeadingAt (''## ['' @ v @ ''] - '' @ d)"
    by (simp add: releaseHeadingAt_def startsWith_def t)
  then show ?thesis by simp
qed

lemma wellFormed_heading:
  "wellFormedRelease r \<Longrightarrow> isReleaseHeading (hd (releaseLines r))"
  using releaseHeadingAt_line [of "release_version r" "release_date r"]
  by (simp add: wellFormedRelease_def releaseLines_def)

lemma heading_mentions: "jsIncludes (''## ['' @ v @ ''] - '' @ d) (''['' @ v @ '']'')"
proof -
  have "''## ['' @ v @ ''] - '' @ d = ''## '' @ (''['' @ v @ '']'') @ '' - '' @ d" by simp
  then show ?thesis unfolding jsIncludes_iff by blast
qed

lemma wellFormed_lines:
  assumes "wellFormedRelease r" and "line \<in> set (releaseLines r)"
  shows "CHR 0x0A \<notin> set line"
proof -
  have "CHR 0x0A \<notin> set (release_date r)"
    using assms(1) matchesPattern_chars [of "''dddd-dd-dd''" "release_date r" "CHR 0x0A"]
    by (auto simp: wellFormedRelease_def isDigit_def)
  with assms versionNumber_plain(2) [of "release_version r"] show ?thesis
    by (auto simp: wellFormedRelease_def releaseLines_def list_all_iff)
qed

lemma findVersion_None: "\<not> mentions v lines \<Longrightarrow> findVersion v j lines = None"
  by (induction lines arbitrary: j) (auto simp: mentions_def)

lemma findVersion_first:
  "\<not> mentions v before \<Longrightarrow> jsIncludes line (''['' @ v @ '']'') \<Longrightarrow>
   findVersion v j (before @ line # lines) = Some (j + length before)"
  by (induction before arbitrary: j) (auto simp: mentions_def)

lemma collectInfo_notes:
  assumes "list_all (\<lambda>line. \<not> isReleaseHeading line) notes"
    and "later = [] \<or> isReleaseHeading (hd later)"
  shows "collectInfo (Suc j) info (notes @ later) = info @ concat (map (\<lambda>line. line @ [CHR 0x0A]) notes)"
  using assms(1)
proof (induction "notes" arbitrary: j info)
  case Nil
  with assms(2) show ?case by (cases later) auto
qed simp

section \<open>Properties\<close>

lemma gatherReleaseInfo_section:
  assumes "list_all wellFormedRelease (newer @ r # older)"
    and "list_all (\<lambda>line. CHR 0x0A \<notin> set line) preamble"
    and "\<not> mentions (release_version r) (preamble @ concat (map releaseLines newer))"
  shows "gatherReleaseInfo (release_version r) (changeLogText preamble (newer @ r # older)) =
    concat (map (\<lambda>line. line @ [CHR 0x0A]) (releaseLines r))"
proof -
  define before where "before = preamble @ concat (map releaseLines newer)"
  define later where "later = concat (map releaseLines older)"
  define heading where "heading = ''## ['' @ release_version r @ ''] - '' @ release_date r"
  have lines: "preamble @ concat (map releaseLines (newer @ r # older)) = before @ heading # release_notes r @ later"
    by (simp add: before_def later_def heading_def releaseLines_def)
  have "splitOn (CHR 0x0A) (changeLogText preamble (newer @ r # older)) = before @ heading # release_notes r @ later"
    unfolding changeLogText_def lines [symmetric]
  proof (rule splitOn_joinWith)
    show "preamble @ concat (map releaseLines (newer @ r # older)) \<noteq> []" unfolding lines by simp
    show "CHR 0x0A \<notin> set w" if "w \<in> set (preamble @ concat (map releaseLines (newer @ r # older)))" for w
      using that assms(2) wellFormed_lines assms(1) by (fastforce simp: list_all_iff)
  qed
  moreover have "jsIncludes heading (''['' @ release_version r @ '']'')"
    unfolding heading_def by (rule heading_mentions)
  then have "findVersion (release_version r) 0 (before @ heading # release_notes r @ later) = Some (length before)"
    using findVersion_first [OF assms(3) [folded before_def], of heading 0 "release_notes r @ later"] by simp
  moreover have "later = [] \<or> isReleaseHeading (hd later)"
    using assms(1) wellFormed_heading by (cases older) (auto simp: later_def releaseLines_def)
  then have "collectInfo 0 [] (heading # release_notes r @ later) =
      concat (map (\<lambda>line. line @ [CHR 0x0A]) (releaseLines r))"
    using assms(1) collectInfo_notes [of "release_notes r" later 0 "heading @ [CHR 0x0A]"]
    by (simp add: wellFormedRelease_def list_all_iff releaseLines_def heading_def)
  ultimately show ?thesis by (simp add: gatherReleaseInfo_def)
qed

lemma publishes_section:
  assumes "list_all wellFormedRelease (newer @ r # older)"
    and "list_all (\<lambda>line. CHR 0x0A \<notin> set line) preamble"
    and "\<not> mentions (release_version r) (preamble @ concat (map releaseLines newer))"
  shows "releaseScript send token repoName (release_version r) (Inr (changeLogText preamble (newer @ r # older))) =
    Inr (publishRelease send token repoName (release_version r)
           (concat (map (\<lambda>line. line @ [CHR 0x0A]) (releaseLines r))))"
proof -
  have "isVersionNumber (release_version r)" using assms(1) by (simp add: wellFormedRelease_def)
  then have "\<not> jsIncludes (release_version r) ''-''" using versionNumber_plain(3) [of "release_version r"] by (auto simp: jsIncludes_iff)
  with gatherReleaseInfo_section [OF assms] show ?thesis
    by (simp add: releaseScript_def releaseLines_def)
qed

text \<open>
  C38: from a change log written as headings and notes, in which no line before the section of a version mentions the
  version in brackets, the script run for that version and a package \<^verbatim>\<open>scope/name\<close> sends one request and does nothing
  before it: to create, in the repository and with the token of the environment, the release titled by version and
  package, tagged \<^verbatim>\<open>name/version\<close>, whose body is exactly the section: the heading and its notes up to the heading of
  the next release, each line ended by a newline.  If the request fails, that failure is reported, and else nothing
  follows.
\<close>

theorem release_publishes_section:
  assumes "list_all wellFormedRelease (newer @ r # older)"
    and "list_all (\<lambda>line. CHR 0x0A \<notin> set line) preamble"
    and "\<not> mentions (release_version r) (preamble @ concat (map releaseLines newer))"
    and "CHR ''/'' \<notin> set scope" and "CHR ''/'' \<notin> set pkg"
  shows "releaseScript send (Some token) (scope @ ''/'' @ pkg) (release_version r)
      (Inr (changeLogText preamble (newer @ r # older))) =
    (let request = \<lparr>authorization = ''token '' @ token, request_owner = ''subquery'',
           request_name = ''['' @ release_version r @ ''] '' @ scope @ ''/'' @ pkg, request_repo = ''subql-cosmos'',
           tag_name = pkg @ ''/'' @ release_version r,
           request_body = ''## ['' @ release_version r @ ''] - '' @ release_date r @ [CHR 0x0A] @
             concat (map (\<lambda>line. line @ [CHR 0x0A]) (release_notes r))\<rparr>
     in case send request of
          Inl e \<Rightarrow> Inr [PostRelease request, SetFailed (FailureValue e)]
        | Inr u \<Rightarrow> Inr [PostRelease request])"
proof -
  have "splitOn (CHR ''/'') (scope @ ''/'' @ pkg) = [scope, pkg]"
    using assms(4,5) by (simp add: splitOn_append splitOn_single)
  then have "jsIndex (splitOn (CHR ''/'') (scope @ ''/'' @ pkg)) 1 = Some pkg" by (simp add: jsIndex_def)
  then show ?thesis
    unfolding publishes_section [OF assms(1-3)]
    by (simp add: publishRelease_def releaseRequest_def templateText_def releaseLines_def Let_def split: sum.split)
qed

definition sampleRelease :: "string \<Rightarrow> string \<Rightarrow> string list \<Rightarrow> release" where
  "sampleRelease v d notes = \<lparr>release_version = v, release_date = d, release_notes = notes\<rparr>"

lemmas release_eval =
  sampleRelease_def wellFormedRelease_def isVersionNumber_def releaseHeadingAt_def isDigit_def mentions_def
  releaseLines_def jsIncludes_def indexOf_def startsWith_def

theorem release_publishes_section_witness:
  "releaseScript (\<lambda>r. Inr ()) (Some ''t'') ''@subql/node-cosmos'' ''1.10.0''
     (Inr (changeLogText [''# Changelog'', ''''] [sampleRelease ''2.0.0'' ''2023-06-01'' [''### Fixed'', ''- x''],
        sampleRelease ''1.10.0'' ''2023-05-02'' [''### Added'', ''- y'', ''''], sampleRelease ''1.9.0'' ''2023-01-01'' []])) =
   Inr [PostRelease \<lparr>authorization = ''token t'', request_owner = ''subquery'',
          request_name = ''[1.10.0] @subql/node-cosmos'', request_repo = ''subql-cosmos'', tag_name = ''node-cosmos/1.10.0'',
          request_body = ''## [1.10.0] - 2023-05-02'' @ [CHR 0x0A] @ ''### Added'' @ [CHR 0x0A] @ ''- y'' @ [CHR 0x0A, CHR 0x0A]\<rparr>]"
proof -
  let ?r = "sampleRelease ''1.10.0'' ''2023-05-02'' [''### Added'', ''- y'', '''']"
  have "list_all wellFormedRelease ([sampleRelease ''2.0.0'' ''2023-06-01'' [''### Fixed'', ''- x'']] @
      ?r # [sampleRelease ''1.9.0'' ''2023-01-01'' []])"
    by (simp add: release_eval)
  note published = release_publishes_section [OF this, of "[''# Changelog'', '''']" "''@subql''" "''node-cosmos''"
      "\<lambda>r. Inr ()" "''t''"]
  show ?thesis using published by (simp add: release_eval)
qed

text \<open>
  A version that the change log does not mention is released all the same: the failure is recorded, and then the
  release is created with an empty description.
\<close>

theorem release_without_notes:
  assumes "\<not> jsIncludes version ''-''" and "\<not> mentions version (splitOn (CHR 0x0A) changeLogs)"
  shows "\<exists>msg. releaseScript send token repoName version (Inr changeLogs) =
    Inr (SetFailed (FailureText msg) # publishRelease send token repoName version [])"
  using assms by (simp add: releaseScript_def gatherReleaseInfo_def findVersion_None)

theorem release_without_notes_witness:
  "\<exists>msg. releaseScript (\<lambda>r. Inr ()) None ''@subql/node-cosmos'' ''3.0.0'' (Inr ''# Changelog'') =
    Inr (SetFailed (FailureText msg) # publishRelease (\<lambda>r. Inr ()) None ''@subql/node-cosmos'' ''3.0.0'' [])"
  by (rule release_without_notes) (simp_all add: release_eval)

lemma prerelease_not_published:
  "jsIncludes version ''-'' \<Longrightarrow> releaseScript send token repoName version changeLog = Inr [ExitProcess 0]"
  by (simp add: releaseScript_def)

lemma map_of_filter_other: "k \<noteq> k' \<Longrightarrow> map_of (filter (\<lambda>kv. fst kv \<noteq> k') kvs) k = map_of kvs k"
  by (induction kvs) auto

lemma removeStableVersion_gone:
  "removeStableVersion pJson = Some p \<Longrightarrow> ''stableVersion'' \<notin> fst ` set p \<and>
    (\<forall>k. k \<noteq> ''stableVersion'' \<longrightarrow> map_of p k = map_of pJson k)"
  by (auto simp: removeStableVersion_def map_of_filter_other split: option.splits if_splits)

end
