(* ===== verification/Startup.thy ===== *)
theory Startup
  imports Js_Value
begin

text \<open>
  The entry points of the node: \<^verbatim>\<open>main.ts\<close> and \<^verbatim>\<open>init.ts\<close>, the subcommands \<^verbatim>\<open>reindex\<close>, \<^verbatim>\<open>force-clean\<close> and \<^verbatim>\<open>testing\<close>
  with their dispatch in \<^verbatim>\<open>yargs.ts\<close>, and the start of a worker in \<^verbatim>\<open>indexer/worker/worker.ts\<close>.  Each awaits services
  one after the other; the calls are steps whose outcomes an environment gives, and what a process does is the list of
  its actions.
\<close>

section \<open>Steps\<close>

datatype app_module = AppModule | ReindexModule | ForceCleanModule | WorkerModule | TestingModule

text \<open>The awaited calls of the entry points.\<close>

datatype step =
    CreateApp app_module
  | InitApp
  | GetService string
  | InitApiService
  | InitProjectService "int option"
  | InitFetchService
  | EnableShutdownHooks
  | ListenOn int
  | InitReindexService
  | Reindex int
  | ForceClean
  | RegisterApp
  | RunTests
  | InitWorkerServices

datatype process_action =
    Performed step
  | LogInfo string
  | LogWarn string
  | LogError string
  | ExitWith nat

type_synonym environment = "step \<Rightarrow> unit result"

text \<open>Awaiting calls in order: the first failure ends the sequence, the failing call included in the actions.\<close>

fun awaitAll :: "environment \<Rightarrow> step list \<Rightarrow> process_action list \<times> unit result" where
  "awaitAll E [] = ([], Inr ())"
| "awaitAll E (s # ss) =
     (case E s of
        Inl e \<Rightarrow> ([Performed s], Inl e)
      | Inr u \<Rightarrow> (case awaitAll E ss of (as, r) \<Rightarrow> (Performed s # as, r)))"

text \<open>\<^verbatim>\<open>try { ... } catch (e) { logger.error(e, text); process.exit(1); }\<close>, and what follows a success.\<close>

definition guarded :: "environment \<Rightarrow> step list \<Rightarrow> string \<Rightarrow> process_action list \<Rightarrow> process_action list" where
  "guarded E steps failureText success =
     (case awaitAll E steps of
        (as, Inl e) \<Rightarrow> as @ [LogError failureText, ExitWith 1]
      | (as, Inr u) \<Rightarrow> as @ success)"

section \<open>The node\<close>

text \<open>
  \<^verbatim>\<open>validate(argv.port) ?? await findAvailablePort(DEFAULT_PORT)\<close> on the text of the option, a decimal
  numeral or \<^verbatim>\<open>undefined\<close>; the search may find no port.  Then \<^verbatim>\<open>!port\<close> also holds of zero.  In the message an absent port prints as null and counts as zero in the sum.
\<close>

definition defaultPort :: int where
  "defaultPort = 3000"

definition choosePort :: "(int \<Rightarrow> int option result) \<Rightarrow> string \<Rightarrow> int option result" where
  "choosePort findAvailablePort argvPort =
     (case parseInt10 argvPort of Some p \<Rightarrow> Inr (Some p) | None \<Rightarrow> findAvailablePort defaultPort)"

definition noPortText :: "int option \<Rightarrow> string" where
  "noPortText port =
     ''Unable to find available port (tried ports in range ('' @
     (case port of None \<Rightarrow> ''null'' | Some p \<Rightarrow> numberToString p) @ ''..'' @
     numberToString ((case port of None \<Rightarrow> 0 | Some p \<Rightarrow> p) + 10) @
     '')). Try setting a free port manually by setting the --port flag''"

definition unsafeText :: string where
  "unsafeText =
     ''UNSAFE MODE IS ENABLED. This is not recommended for most projects and will not be supported by our hosted service''"

text \<open>The services are initialised in the order in which later ones rely on earlier ones.\<close>

definition nodeSteps :: "int \<Rightarrow> step list" where
  "nodeSteps port =
     [CreateApp AppModule, InitApp, GetService ''IProjectService'', GetService ''FetchService'', GetService ''ApiService'',
      InitApiService, InitProjectService None, InitFetchService, EnableShutdownHooks, ListenOn port]"

text \<open>The whole of \<^verbatim>\<open>bootstrap\<close> for a package of the given name and version; only the search for a port can make it reject.\<close>

definition bootstrap ::
    "environment \<Rightarrow> (int \<Rightarrow> int option result) \<Rightarrow> string \<Rightarrow> string \<Rightarrow> string \<Rightarrow> bool \<Rightarrow> process_action list \<times> unit result" where
  "bootstrap E findAvailablePort name version argvPort unsafe =
     (let started = LogInfo (''Current '' @ name @ '' version is '' @ version) in
      (case choosePort findAvailablePort argvPort of
         Inl e \<Rightarrow> ([started], Inl e)
       | Inr port \<Rightarrow>
           (if port = None \<or> port = Some 0 then ([started, LogError (noPortText port), ExitWith 1], Inr ())
            else (started # (if unsafe then [LogWarn unsafeText] else []) @
                    guarded E (nodeSteps (the port)) ''Node failed to start''
                      [LogInfo (''Node started on port: '' @ numberToString (the port))], Inr ()))))"

section \<open>Subcommands and workers\<close>

definition reindexInit :: "environment \<Rightarrow> int \<Rightarrow> process_action list" where
  "reindexInit E targetHeight =
     guarded E [CreateApp ReindexModule, InitApp, GetService ''ReindexService'', InitReindexService, Reindex targetHeight]
       ''Reindex failed to execute'' [ExitWith 0]"

definition forceCleanInit :: "environment \<Rightarrow> process_action list" where
  "forceCleanInit E =
     guarded E [CreateApp ForceCleanModule, InitApp, GetService ''ForceCleanService'', ForceClean]
       ''Force-clean failed to execute'' [ExitWith 0]"

definition testingInit :: "environment \<Rightarrow> process_action list" where
  "testingInit E = guarded E [RegisterApp, RunTests] ''Testing failed'' [ExitWith 0]"

text \<open>
  The runner of a test: a context without a server, whose project service is ready before the runner is handed out.
\<close>

definition getTestRunner :: "environment \<Rightarrow> process_action list \<times> unit result" where
  "getTestRunner E =
     awaitAll E [CreateApp TestingModule, InitApp, GetService ''IProjectService'', InitProjectService None,
                 GetService ''TestRunner'']"

text \<open>A worker does not exit: it logs the failure and throws it on to the host.\<close>

definition initWorker :: "environment \<Rightarrow> int \<Rightarrow> process_action list \<times> unit result" where
  "initWorker E startHeight =
     (case awaitAll E [CreateApp WorkerModule, InitApp, GetService ''IProjectService'', InitProjectService (Some startHeight),
                       GetService ''WorkerService'', InitWorkerServices] of
        (as, Inl e) \<Rightarrow> (as @ [LogError ''Failed to start worker''], Inl e)
      | (as, Inr u) \<Rightarrow> (as, Inr u))"

text \<open>The command line: a subcommand runs its own entry point, and the node starts only without one.\<close>

datatype command = NoCommand | TestingCommand | ForceCleanCommand | ReindexCommand int

definition mainProcess ::
    "environment \<Rightarrow> (int \<Rightarrow> int option result) \<Rightarrow> string \<Rightarrow> string \<Rightarrow> string \<Rightarrow> bool \<Rightarrow> command \<Rightarrow>
     process_action list \<times> unit result" where
  "mainProcess E findAvailablePort name version argvPort unsafe c =
     (case c of
        NoCommand \<Rightarrow> bootstrap E findAvailablePort name version argvPort unsafe
      | TestingCommand \<Rightarrow> (testingInit E, Inr ())
      | ForceCleanCommand \<Rightarrow> (forceCleanInit E, Inr ())
      | ReindexCommand h \<Rightarrow> (reindexInit E h, Inr ()))"

section \<open>Properties\<close>

lemma awaitAll_success: "snd (awaitAll E ss) = Inr () \<longleftrightarrow> (\<forall>s \<in> set ss. E s = Inr ())"
  by (induction ss) (auto split: sum.splits prod.splits)

text \<open>The calls made are all of them, or those up to the first that fails.\<close>

lemma awaitAll_actions:
  "(snd (awaitAll E ss) = Inr () \<and> fst (awaitAll E ss) = map Performed ss) \<or>
   (\<exists>before s after e. ss = before @ s # after \<and> (\<forall>x \<in> set before. E x = Inr ()) \<and> E s = Inl e \<and>
      awaitAll E ss = (map Performed (before @ [s]), Inl e))"
proof (induction ss)
  case (Cons s ss)
  show ?case
  proof (cases "E s")
    case (Inl e)
    then show ?thesis by (intro disjI2 exI [of _ "[]"]) simp
  next
    case (Inr u)
    from Cons.IH show ?thesis
    proof
      assume "snd (awaitAll E ss) = Inr () \<and> fst (awaitAll E ss) = map Performed ss"
      with Inr show ?thesis by (auto split: prod.split)
    next
      assume "\<exists>before x after e. ss = before @ x # after \<and> (\<forall>y \<in> set before. E y = Inr ()) \<and> E x = Inl e \<and>
        awaitAll E ss = (map Performed (before @ [x]), Inl e)"
      then obtain before x after e where "ss = before @ x # after" "\<forall>y \<in> set before. E y = Inr ()" "E x = Inl e"
        "awaitAll E ss = (map Performed (before @ [x]), Inl e)" by blast
      with Inr show ?thesis by (intro disjI2 exI [of _ "s # before"]) auto
    qed
  qed
qed simp

lemma guarded_cases:
  obtains (success) "\<forall>s \<in> set ss. E s = Inr ()" and "guarded E ss t ok = map Performed ss @ ok"
  | (failure) before s after e where "ss = before @ s # after" and "\<forall>x \<in> set before. E x = Inr ()" and "E s = Inl e"
      and "guarded E ss t ok = map Performed (before @ [s]) @ [LogError t, ExitWith 1]"
  using awaitAll_actions [of E ss]
proof (elim disjE exE conjE)
  assume "snd (awaitAll E ss) = Inr ()" and "fst (awaitAll E ss) = map Performed ss"
  then show thesis using awaitAll_success [of E ss]
    by (intro success) (auto simp: guarded_def split: prod.splits)
next
  fix before s after e
  assume "ss = before @ s # after" and "\<forall>x \<in> set before. E x = Inr ()" and "E s = Inl e"
    and "awaitAll E ss = (map Performed (before @ [s]), Inl e)"
  then show thesis by (intro failure) (auto simp: guarded_def)
qed

lemma guarded_exit_0:
  "ExitWith 0 \<in> set (guarded E ss t [ExitWith 0]) \<longleftrightarrow> (\<forall>s \<in> set ss. E s = Inr ())"
  by (cases rule: guarded_cases [where E = E and ss = ss and t = t and ok = "[ExitWith 0]"]) auto

text \<open>When the last call of a sequence was made, all calls before it were made and succeeded.\<close>

lemma guarded_last:
  assumes "Performed x \<in> set (guarded E (pre @ [x]) t ok)" and "x \<notin> set pre" and "Performed x \<notin> set ok"
  shows "(\<forall>s \<in> set pre. E s = Inr ()) \<and> (\<exists>tail. guarded E (pre @ [x]) t ok = map Performed (pre @ [x]) @ tail)"
proof (cases rule: guarded_cases [where E = E and ss = "pre @ [x]" and t = t and ok = ok])
  case (failure before s after e)
  then have "x \<in> set (before @ [s])" using assms(1) by auto
  with failure(1) assms(2) have "before = pre \<and> s = x"
    by (cases after rule: rev_cases) (auto simp: append_eq_append_conv2 Cons_eq_append_conv)
  with failure show ?thesis by auto
qed auto

text \<open>
  The node listens only when everything before succeeded: if it listens on a port, the port is the number of the
  option or the port found, it is not zero, and the services were initialised in order before, the API service before
  the project service and this before the fetch service.
\<close>

theorem node_listens_when_ready:
  assumes "Performed (ListenOn p) \<in> set (fst (bootstrap E findPort name version argvPort unsafe))"
  shows "choosePort findPort argvPort = Inr (Some p) \<and> p \<noteq> 0 \<and>
    (\<forall>s \<in> set (butlast (nodeSteps p)). E s = Inr ()) \<and>
    (\<exists>before after. fst (bootstrap E findPort name version argvPort unsafe) = before @ map Performed (nodeSteps p) @ after)"
proof -
  obtain q where q: "choosePort findPort argvPort = Inr (Some q)" "q \<noteq> 0"
    using assms by (auto simp: bootstrap_def Let_def split: sum.splits option.splits if_splits)
  let ?ok = "[LogInfo (''Node started on port: '' @ numberToString q)]"
  let ?pre = "butlast (nodeSteps q)"
  obtain intro where intro: "fst (bootstrap E findPort name version argvPort unsafe) =
      intro @ guarded E (?pre @ [ListenOn q]) ''Node failed to start'' ?ok" "Performed (ListenOn p) \<notin> set intro"
    using q by (simp add: bootstrap_def nodeSteps_def)
  then have run: "Performed (ListenOn p) \<in> set (guarded E (?pre @ [ListenOn q]) ''Node failed to start'' ?ok)"
    using assms by simp
  then have "p = q"
    by (cases rule: guarded_cases [where E = E and ss = "?pre @ [ListenOn q]" and t = "''Node failed to start''" and ok = ?ok])
      (auto simp: nodeSteps_def append_eq_append_conv2 Cons_eq_append_conv append_eq_Cons_conv)
  with run have "(\<forall>s \<in> set ?pre. E s = Inr ()) \<and>
      (\<exists>tail. guarded E (?pre @ [ListenOn q]) ''Node failed to start'' ?ok = map Performed (?pre @ [ListenOn q]) @ tail)"
    by (intro guarded_last) (simp_all add: nodeSteps_def)
  moreover have "?pre @ [ListenOn q] = nodeSteps q" by (simp add: nodeSteps_def)
  ultimately show ?thesis using q \<open>p = q\<close> intro(1) by metis
qed

theorem node_listens_when_ready_witness:
  "choosePort (\<lambda>d. Inr (Some (d + 1))) ''undefined'' = Inr (Some 3001) \<and>
   (\<exists>before after. fst (bootstrap (\<lambda>s. Inr ()) (\<lambda>d. Inr (Some (d + 1))) ''node'' ''3.9.2'' ''undefined'' False) =
      before @ map Performed (nodeSteps 3001) @ after)"
proof -
  have "parseInt10 ''undefined'' = None"
    by (simp add: parseInt10_def isBlank_def parseDigits_def isDigit_def)
  then have "Performed (ListenOn 3001) \<in>
      set (fst (bootstrap (\<lambda>s. Inr ()) (\<lambda>d. Inr (Some (d + 1))) ''node'' ''3.9.2'' ''undefined'' False))"
    by (simp add: bootstrap_def choosePort_def defaultPort_def guarded_def nodeSteps_def)
  from node_listens_when_ready [OF this] show ?thesis by blast
qed

text \<open>When no port is found the message does not show the ports that were tried but the absent port.\<close>

theorem no_port_message:
  assumes "parseInt10 argvPort = None" and "findPort defaultPort = Inr None"
  shows "\<exists>t u. bootstrap E findPort name version argvPort unsafe = ([LogInfo t, LogError u, ExitWith 1], Inr ()) \<and>
    jsIncludes u ''(tried ports in range (null..10))''"
proof -
  have "noPortText None = ''Unable to find available port '' @ ''(tried ports in range (null..10))'' @
      ''. Try setting a free port manually by setting the --port flag''"
    by (simp add: noPortText_def numberToString_def digitsOf.simps digitChar_def char_of_eq_iff take_bit_eq_mod)
  then have "jsIncludes (noPortText None) ''(tried ports in range (null..10))''" unfolding jsIncludes_iff by blast
  with assms show ?thesis by (simp add: bootstrap_def choosePort_def)
qed

theorem no_port_message_witness:
  "\<exists>t u. bootstrap (\<lambda>s. Inr ()) (\<lambda>d. Inr None) ''node'' ''3.9.2'' ''undefined'' False = ([LogInfo t, LogError u, ExitWith 1], Inr ()) \<and>
    jsIncludes u ''(tried ports in range (null..10))''"
  by (rule no_port_message) (simp_all add: parseInt10_def isBlank_def parseDigits_def isDigit_def)

end
