(* ===== verification/Spec2Isabelle.thy ===== *)
theory Spec2Isabelle
  imports Skipping Modules Websocket Project Models Release Startup
begin

text \<open>
  Verification of the SubQuery node for Cosmos chains (\<^verbatim>\<open>packages/node\<close>, \<^verbatim>\<open>packages/common-cosmos\<close>, \<^verbatim>\<open>packages/types\<close>).

  The program.  A project is a manifest of data sources with handlers and filters, and the chain types of its
  network.  The node loads the project, connects to an endpoint, fetches batches of blocks, wraps them lazily in the
  objects handlers receive, and hands these, filtered, to the handlers in a fixed order.  A dictionary of interesting
  heights is queried so that other blocks can be skipped.  A code generator writes types for contract interfaces and
  protobuf files.

  Theories, in the order of their imports:
  \<^item> \<open>Prelude\<close>: results, promises, strings, arrays of JavaScript.  A promise is the list of the ways in which it can
    settle; \<^verbatim>\<open>Promise.all\<close> combines every choice and every rejection.
  \<^item> \<open>Js_Value\<close>, \<open>Json\<close>: dynamic values with property access, \<^verbatim>\<open>in\<close>, \<^verbatim>\<open>===\<close>, numerals, doubles on integers; UTF-8 decoding,
    and the contract \<open>json_parser\<close> of \<^verbatim>\<open>JSON.parse\<close> with a parser that satisfies it.
  \<^item> \<open>Lazy_Cell\<close>: the getters that replace themselves by their value (\<^verbatim>\<open>decodedTx\<close>, \<^verbatim>\<open>decodedMsg\<close> in \<^verbatim>\<open>utils/cosmos.ts\<close>).
  \<^item> \<open>Cosmos_Types\<close>, \<open>Samples\<close>: the data of \<^verbatim>\<open>types/src\<close>, and sample values for the instances of the properties.
  \<^item> \<open>Filters\<close>: \<^verbatim>\<open>filterBlock\<close> to \<^verbatim>\<open>filterEvents\<close> of \<^verbatim>\<open>utils/cosmos.ts\<close>, with the state of the decoded message; they are
    compared with a declarative reading of the filters.
  \<^item> \<open>Client\<close>: \<^verbatim>\<open>CosmosClient\<close> of \<^verbatim>\<open>indexer/api.service.ts\<close>: decoding of messages and rewriting of request errors.
  \<^item> \<open>Wrap\<close>: \<^verbatim>\<open>wrapBlock\<close> to \<^verbatim>\<open>wrapEvent\<close>: positions of messages, numbering of events, location of the message of an event.
  \<^item> \<open>Block_Content\<close>: fetching of batches and \<^verbatim>\<open>LazyBlockContent\<close>; the caches and the event counter are a state machine of
    accesses in any order, compared with eager wrapping.
  \<^item> \<open>Indexer\<close>: \<^verbatim>\<open>indexer.manager.ts\<close>; indexing a block follows the schedule of the block, and the filters of runtime
    handlers agree with those of custom handlers.
  \<^item> \<open>Ds_Processor\<close>: classification of data sources, adaptation of processors, dynamic data sources, sandboxes.
  \<^item> \<open>Dictionary\<close>: \<^verbatim>\<open>buildDictionaryQueryEntries\<close> of \<^verbatim>\<open>fetch.service.ts\<close>; what handlers accept is found by the query.  The
    locale \<open>query_library\<close> is the contract of lodash.
  \<^item> \<open>Skipping\<close>: the dictionary and the indexer together.  A block without a row that the query asks for changes nothing,
    so following the dictionary ends like indexing every block, for every \<^verbatim>\<open>indexData\<close> that respects the filters (\<open>runtime_indexing\<close>).
  \<^item> \<open>Api\<close>: the registry of message types (contract \<open>type_registry\<close>) and the client of fixed height.
  \<^item> \<open>Connection\<close>: \<^verbatim>\<open>cosmosClient.connection.ts\<close>, \<^verbatim>\<open>HttpClient.ts\<close> and the start of \<^verbatim>\<open>ApiService\<close>, over a pool of
    connections with the contract \<open>connection_pool\<close>.
  \<^item> \<open>Services\<close>: headers of unfinalized blocks, heights, dispatchers and workers; indexing with workers
    agrees with indexing without (\<open>indexing_worker\<close>).
  \<^item> \<open>Modules\<close>: the modules of the application as data; every service that the node, a worker and the subcommands list
    can be built from what the modules of other packages offer (\<open>external_packages\<close>).
  \<^item> \<open>Websocket\<close>: \<^verbatim>\<open>WebsocketClient.ts\<close>; the producer of subscription events is a state machine with the inductive
    predicate \<open>producer_reachable\<close>, over any order in which a stream serves its subscribers (\<open>subscriber_stream\<close>).
  \<^item> \<open>Codegen\<close>: \<^verbatim>\<open>common-cosmos/src/codegen\<close>; effects are actions whose outcomes an environment gives.
  \<^item> \<open>Project\<close>: network configuration, manifest versions, \<^verbatim>\<open>SubqueryProject.ts\<close>, the dictionary's address.
  \<^item> \<open>Models\<close>: the decorated classes of \<^verbatim>\<open>models.ts\<close> and \<^verbatim>\<open>v1_0_0/model.ts\<close> as data, with the contract
    \<open>class_validator\<close> of validation.
  \<^item> \<open>Release\<close>: the release scripts under \<^verbatim>\<open>.github/actions\<close>; a rendered change log gives back its sections.
  \<^item> \<open>Startup\<close>: the entry points of node, subcommands and workers as sequences of awaited calls with their outcomes.
  \<^item> This theory: properties that span components: errors from a request to their classification, the message types
    from the manifest to the clients of the pool, progress of fetching and indexing, bounds of positions.

  What the lemmas show.  Every component has its functional behaviour on all branches; the lazy content and the
  websocket producer have invariants over all reachable states; lazy wrapping, indexing and subscriptions refine an
  abstract view (eager wrapping, the schedule of a block, the notifications a listener is to hear); names and headers
  have round trips.  Where the code does not do what it means to, a theorem states what it does.

  Bounds.  Numbers are integers; \<open>toDouble\<close> rounds them where the code can leave the range in which doubles are exact, and
  theorems that need exactness assume an absolute value of at most 2 to the 53.  The JSON parser takes the length of
  its input as fuel, which suffices since every recursive call has consumed a character.  All other definitions are
  total by structural recursion.

  Parameters.  Code outside the repository is an argument: cosmjs (hashing, registries, Tendermint clients, sockets),
  node-core (base services, queues, connection pool, sandboxes), lodash, semver, protobufjs, class-validator, the file
  system, template rendering and the third-party generators.  Each contract the proofs rely on is a locale that is
  interpreted on an executable instance.  The order of keys of an object is the order of insertion, so objects with keys
  like array indices are out of scope.

  Not modelled: the container that injects services, the parsing of the command line, worker threads, logging, the HTTP agents' socket limits,
  the queues and loops inherited from node-core, and the vendored package manager; they contain no logic of this
  repository or only forward to code outside it.  The same holds of \<^verbatim>\<open>disconnect\<close> and
  \<^verbatim>\<open>connected\<close> of the websocket client, which read or close the socket.
\<close>

section \<open>Errors across components\<close>

lemma fetchBlocks_rejection:
  assumes "h \<in> set heights" and "Inl e \<in> set (blockInfo (unsafeApi conn) h) \<or> Inl e \<in> set (blockResults (unsafeApi conn) h)"
  shows "Inl (handleError (json_parse (unsafeApi conn)) e) \<in> set (fetchBlocks conn heights)"
proof -
  have "Inl (handleError (json_parse (unsafeApi conn)) e) \<in> set (getBlockByHeight (unsafeApi conn) h)"
    using assms(2) unfolding getBlockByHeight_Inl by blast
  then have "Inl (handleError (json_parse (unsafeApi conn)) e) \<in> set (fetchCosmosBlocksArray (unsafeApi conn) heights)"
    using assms(1) by (auto simp: fetchCosmosBlocksArray_def promiseAll_Inl)
  then show ?thesis by (force simp: fetchBlocks_def fetchBlocksBatches_def promiseThen_def)
qed

text \<open>
  C26: when a request for any height of a batch is refused with status 429, the batch can reject with an error that the
  connection classifies as a rate limit and that keeps the message of the refusal, whatever the other requests do.
\<close>

theorem rate_limit_reported:
  assumes "json_parser (json_parse (unsafeApi conn))" and "h \<in> set heights"
    and "Inl e \<in> set (blockInfo (unsafeApi conn) h) \<or> Inl e \<in> set (blockResults (unsafeApi conn) h)"
    and "err_message e = ''Request failed with status code 429''"
  shows "\<exists>e'. Inl e' \<in> set (fetchBlocks conn heights) \<and> err_name e' = ''RateLimitError'' \<and>
    handleConnectionError e' =
      \<lparr>api_name = ''RateLimit'', api_message = ''Request failed with status code 429'', errorType = RateLimitErr\<rparr>"
proof -
  obtain n where e: "e = JsError n tooManyRequests"
    using assms(4) by (cases e) (simp add: tooManyRequests_def)
  have "handleError (json_parse (unsafeApi conn)) e = JsError ''RateLimitError'' tooManyRequests"
    unfolding e by (rule json_parser.handleError_429 [OF assms(1)])
  with fetchBlocks_rejection [OF assms(2, 3)] show ?thesis
    by (intro exI [of _ "JsError ''RateLimitError'' tooManyRequests"])
      (simp add: handleConnectionError_def handleRateLimitError_def tooManyRequests_def startsWith_def)
qed

definition sampleConnection :: "(unit, unit) CosmosClientConnection" where
  "sampleConnection = \<lparr>unsafeApi = fetchClient, networkMeta_chain = ''juno-1'', tmClient = (), conn_registry = ()\<rparr>"

lemma fetchClient_parser: "json_parser (json_parse (unsafeApi sampleConnection))"
  using std_json.json_parser_axioms by (simp add: sampleConnection_def fetchClient_def sampleClient_def)

theorem rate_limit_reported_witness:
  "\<exists>e'. Inl e' \<in> set (fetchBlocks sampleConnection [6, 7]) \<and> errorType (handleConnectionError e') = RateLimitErr"
proof -
  let ?e = "JsError ''Error'' tooManyRequests"
  have "Inl ?e \<in> set (blockInfo (unsafeApi sampleConnection) 7) \<or> Inl ?e \<in> set (blockResults (unsafeApi sampleConnection) 7)"
    by (simp add: sampleConnection_def fetchClient_def blockResults_def)
  from rate_limit_reported [OF fetchClient_parser _ this, of "[6, 7]"] show ?thesis
    by (auto simp: tooManyRequests_def)
qed

text \<open>
  C27: an RPC error response whose data reports a pruned height reaches the caller of the HTTP client as an error
  whose message, once rewritten by the Cosmos client, is that report with the hint about archive nodes.
\<close>

theorem pruned_height_reported:
  assumes "Inr data \<in> set (post request)" and "parseResponse data = Inr (RpcError (JObj kvs))"
    and "map_of kvs ''data'' = Some (JStr d)" and "jsIncludes d ''is not available, lowest height is''"
    and "parse (stringifyJson (JObj kvs)) = Inr (JObj kvs)"
  shows "\<exists>e. Inl e \<in> set (httpExecute post parseResponse stringifyJson request) \<and>
    err_message (handleError parse e) = d @ CHR 0x0A # prunedInfo"
proof -
  let ?e = "JsError ''Error'' (stringifyJson (JObj kvs))"
  have "d \<noteq> []" using assms(4) by (auto simp: jsIncludes_def indexOf_def)
  then have "prunedMessage parse (stringifyJson (JObj kvs)) = Inr (Some (d @ CHR 0x0A # prunedInfo))"
    using assms(3-5) by (simp add: prunedMessage_def prunedText_def)
  then have "err_message (handleError parse ?e) = d @ CHR 0x0A # prunedInfo"
    by (simp add: handleError_def)
  moreover have "Inl ?e \<in> set (httpExecute post parseResponse stringifyJson request)"
    using assms(1, 2) by (force simp: httpExecute_def promiseThen_def)
  ultimately show ?thesis by blast
qed

theorem pruned_height_reported_witness:
  "\<exists>e. Inl e \<in> set (httpExecute (\<lambda>r. [Inr r]) (\<lambda>d. Inr (RpcError d)) (\<lambda>v. prunedBody)
         (JObj [(''data'', JStr ''height 1 is not available, lowest height is 5'')])) \<and>
     err_message (handleError jsonParse e) = ''height 1 is not available, lowest height is 5'' @ CHR 0x0A # prunedInfo"
proof (rule pruned_height_reported)
  show "jsIncludes ''height 1 is not available, lowest height is 5'' ''is not available, lowest height is''"
    by (simp add: jsIncludes_def indexOf_def startsWith_def)
qed (simp_all add: jsonParse_prunedBody)

section \<open>From the manifest to the connections\<close>

text \<open>
  C23: a project that starts decodes its messages everywhere: every connection of the pool that the service opens holds
  the registry built from the processed network of the manifest, in its client as well, and this registry resolves
  every message that the manifest lists for a protobuf file to the type of the package of that file.
\<close>

theorem pool_decodes_project_messages:
  assumes "type_registry R" and "connection_pool createConnections"
    and "processNetworkConfig P getFile n = Inr net" and "distinct (map fst (chainEntries n))"
    and "Inr (registry, pool) \<in> set (apiInit createConnections L searchParams packageVersion
           (buildRegistry R defaults wasmType (Some (net_chaintypes net))) endpoints)"
    and "c \<in> set pool" and "kv \<in> set (chainEntries n)" and "msg \<in> set (module_messages (snd kv))"
  shows "unsafeApi c = newCosmosClient L (tmClient c) (conn_registry c) \<and>
    (\<exists>text pkg proto g. getFile (module_file (snd kv)) = Inr (Some text) \<and> protoParse P text = Inr (pkg, proto) \<and>
       lookupTypeOrEnum (net_chaintypes net) ((case pkg of None \<Rightarrow> fst kv | Some p \<Rightarrow> p) @ ''.'' @ msg) = Inr g \<and>
       lookupType R (conn_registry c) (''/'' @ (case pkg of None \<Rightarrow> fst kv | Some p \<Rightarrow> p) @ ''.'' @ msg) = Some g)"
proof -
  note pool = connection_pool.pool_opened [OF assms(2, 5, 6)]
  then obtain ep where "Inr c \<in> set (createConnection L searchParams packageVersion ep registry)" by blast
  then have "unsafeApi c = newCosmosClient L (tmClient c) (conn_registry c)" and "conn_registry c = registry"
    using createConnection_Inr by fastforce+
  with project_messages_lookup [OF assms(1, 3, 4) pool(1) assms(7, 8)] show ?thesis by simp
qed

definition sampleClients :: "(unit, (string \<times> string) list) client_lib" where
  "sampleClients = \<lparr>tendermintCreate = (\<lambda>rpc. [Inr ()]), newCosmosClient = (\<lambda>tm reg. sampleClient swapText),
     getChainId = (\<lambda>api. [Inr ''juno-1''])\<rparr>"

theorem pool_decodes_project_messages_witness:
  "\<exists>net registry c g. processNetworkConfig sampleProto sampleReader sampleNetwork = Inr net \<and>
     Inr (registry, [c]) \<in> set (apiInit openAll sampleClients (\<lambda>url. Inr Map.empty) ''2.0.0''
       (buildRegistry std_registry [] id (Some (net_chaintypes net))) [''wss://rpc'']) \<and>
     lookupType std_registry (conn_registry c) ''/pkg.MsgA'' = Some g"
proof -
  obtain net where net: "processNetworkConfig sampleProto sampleReader sampleNetwork = Inr net"
    and types: "net_chaintypes net = \<lparr>type_entries = [(''k'', \<lparr>messages = [''MsgA''], packageName = Some ''pkg''\<rparr>)], lookupTypeOrEnum = Inr\<rparr>"
    using sample_network_eval by simp
  obtain registry where r: "buildRegistry std_registry [] id (Some (net_chaintypes net)) = Inr registry"
    by (simp add: types buildRegistry_def getChainType_def addMessageType_def qualifiedName_def)
  let ?c = "\<lparr>unsafeApi = sampleClient swapText, networkMeta_chain = ''juno-1'', tmClient = (), conn_registry = registry\<rparr>"
  have "createConnection sampleClients (\<lambda>url. Inr Map.empty) ''2.0.0'' ''wss://rpc'' registry = [Inr ?c]"
    by (simp add: createConnection_def newRpcClient_def jsIncludes_def indexOf_def startsWith_def sampleClients_def
        promiseBind_def promiseThen_def Let_def)
  then have init: "Inr (registry, [?c]) \<in> set (apiInit openAll sampleClients (\<lambda>url. Inr Map.empty) ''2.0.0''
      (buildRegistry std_registry [] id (Some (net_chaintypes net))) [''wss://rpc''])"
    by (auto simp: apiInit_def r openAll_def promiseAll_Inr promiseBind_Inr promiseThen_Inr)
  have "distinct (map fst (chainEntries sampleNetwork))"
    "(''k'', \<lparr>module_file = ''a.proto'', module_messages = [''MsgA'']\<rparr>) \<in> set (chainEntries sampleNetwork)"
    by (simp_all add: chainEntries_def sampleNetwork_def)
  from pool_decodes_project_messages [OF std_registry.type_registry_axioms all_open.connection_pool_axioms net this(1)
      init _ this(2), of ?c "''MsgA''"]
  have "\<exists>g. lookupType std_registry registry ''/pkg.MsgA'' = Some g"
    by (auto simp: sampleReader_def sampleProto_def)
  with net init show ?thesis by fastforce
qed

section \<open>Progress\<close>

lemma rmap_Inl_iff:
  "rmap f xs = Inl e \<longleftrightarrow> (\<exists>pre x post. xs = pre @ x # post \<and> (\<forall>y \<in> set pre. \<exists>b. f y = Inr b) \<and> f x = Inl e)"
proof (induction xs)
  case (Cons z zs)
  have split: "(\<exists>pre x post. z # zs = pre @ x # post \<and> (\<forall>y \<in> set pre. \<exists>b. f y = Inr b) \<and> f x = Inl e) \<longleftrightarrow>
      f z = Inl e \<or> (\<exists>b. f z = Inr b) \<and> (\<exists>pre x post. zs = pre @ x # post \<and> (\<forall>y \<in> set pre. \<exists>b. f y = Inr b) \<and> f x = Inl e)"
    (is "?all \<longleftrightarrow> _ \<or> _ \<and> ?rest")
  proof
    assume ?all
    then obtain pre x post where *: "z # zs = pre @ x # post" "\<forall>y \<in> set pre. \<exists>b. f y = Inr b" "f x = Inl e" by blast
    then show "f z = Inl e \<or> (\<exists>b. f z = Inr b) \<and> ?rest" by (cases pre) auto
  next
    assume "f z = Inl e \<or> (\<exists>b. f z = Inr b) \<and> ?rest"
    then show ?all
    proof (elim disjE conjE exE)
      assume "f z = Inl e"
      then show ?all by (intro exI [of _ "[]"]) auto
    next
      fix b pre x post
      assume "f z = Inr b" "zs = pre @ x # post" "\<forall>y \<in> set pre. \<exists>b. f y = Inr b" "f x = Inl e"
      then show ?all by (intro exI [of _ "z # pre"] exI [of _ x] exI [of _ post]) auto
    qed
  qed
  show ?case unfolding split Cons.IH [symmetric] by (cases "f z"; cases "rmap f zs") simp_all
qed simp

text \<open>The text of the failed assertion.\<close>

definition countMismatch :: "BlockResponse \<Rightarrow> BlockResultsResponse \<Rightarrow> js_error" where
  "countMismatch info res = JsError ''AssertionError''
     (''txInfos doesn't match up with block ('' @ numberToString (height (block_header (resp_block info))) @
      '') transactions expected '' @ numberToString (int (length (block_txs (resp_block info)))) @
      '', received: '' @ numberToString (int (length (results res))))"

lemma prepareBlock_Inl_iff:
  "prepareBlock (info, res) = Inl e \<longleftrightarrow>
   length (results res) \<noteq> length (block_txs (resp_block info)) \<and> e = countMismatch info res"
  by (auto simp: prepareBlock_def countMismatch_def)

definition answered :: "CosmosClient \<Rightarrow> int \<Rightarrow> BlockResponse \<Rightarrow> BlockResultsResponse \<Rightarrow> bool" where
  "answered api h info res \<longleftrightarrow> Inr info \<in> set (blockInfo api h) \<and> Inr res \<in> set (blockResults api h)"

definition agree :: "BlockResponse \<Rightarrow> BlockResultsResponse \<Rightarrow> bool" where
  "agree info res \<longleftrightarrow> length (results res) = length (block_txs (resp_block info))"

lemma list_all2_choose:
  "(\<forall>h \<in> set hs. \<exists>x. P x h \<and> R x) \<Longrightarrow> \<exists>xs. list_all2 P xs hs \<and> (\<forall>x \<in> set xs. R x)"
proof (induction hs)
  case (Cons h hs)
  then obtain x xs where "P x h" "R x" "list_all2 P xs hs" "\<forall>x \<in> set xs. R x" by (metis list.set_intros)
  then show ?case by (intro exI [of _ "x # xs"]) simp
qed simp

lemma fetched_mismatch:
  "(\<exists>irs. Inr irs \<in> set (fetchCosmosBlocksArray api hs) \<and> rmap prepareBlock irs = Inl e) \<longleftrightarrow>
   (\<exists>pre h post info res. hs = pre @ h # post \<and>
      (\<forall>h' \<in> set pre. \<exists>i r. answered api h' i r \<and> agree i r) \<and>
      answered api h info res \<and> \<not> agree info res \<and> e = countMismatch info res \<and>
      (\<forall>h' \<in> set post. \<exists>i r. answered api h' i r))" (is "?L \<longleftrightarrow> ?R")
proof -
  let ?Q = "\<lambda>ir h. Inr ir \<in> set (getBlockByHeight api h)"
  have Q: "?Q ir h \<longleftrightarrow> answered api h (fst ir) (snd ir)" for ir h
    by (cases ir) (simp add: getBlockByHeight_Inr answered_def)
  have ok: "(\<exists>c. prepareBlock ir = Inr c) \<longleftrightarrow> agree (fst ir) (snd ir)" for ir
    by (cases ir) (simp add: prepareBlock_Inr agree_def)
  have err: "prepareBlock ir = Inl e \<longleftrightarrow> \<not> agree (fst ir) (snd ir) \<and> e = countMismatch (fst ir) (snd ir)" for ir
    by (cases ir) (simp add: prepareBlock_Inl_iff agree_def)
  have L: "?L \<longleftrightarrow> (\<exists>irs1 ir irs2. list_all2 ?Q (irs1 @ ir # irs2) hs \<and> (\<forall>x \<in> set irs1. agree (fst x) (snd x)) \<and>
      \<not> agree (fst ir) (snd ir) \<and> e = countMismatch (fst ir) (snd ir))"
    unfolding rmap_Inl_iff ok err fetchCosmosBlocksArray_def promiseAll_Inr list_all2_map2 by blast
  show ?thesis
  proof
    assume ?L
    then obtain irs1 ir irs2 where *: "list_all2 ?Q (irs1 @ ir # irs2) hs" "\<forall>x \<in> set irs1. agree (fst x) (snd x)"
      "\<not> agree (fst ir) (snd ir)" "e = countMismatch (fst ir) (snd ir)" unfolding L by blast
    then obtain pre h post where hs: "hs = pre @ h # post" "list_all2 ?Q irs1 pre" "?Q ir h" "list_all2 ?Q irs2 post"
      by (auto simp: list_all2_append1 list_all2_Cons1)
    have "\<exists>i r. answered api h' i r \<and> agree i r" if "h' \<in> set pre" for h'
    proof -
      have "list_all2 (\<lambda>h ir. ?Q ir h) pre irs1" using hs(2) list_all2_conv_all_nth by (auto simp: list_all2_conv_all_nth)
      from list_all2_left_mem [OF this that] obtain x where "x \<in> set irs1" "?Q x h'" by blast
      then show ?thesis using *(2) unfolding Q by blast
    qed
    moreover have "\<exists>i r. answered api h' i r" if "h' \<in> set post" for h'
    proof -
      have "list_all2 (\<lambda>h ir. ?Q ir h) post irs2" using hs(4) by (auto simp: list_all2_conv_all_nth)
      from list_all2_left_mem [OF this that] obtain x where "?Q x h'" by blast
      then show ?thesis unfolding Q by blast
    qed
    ultimately show ?R using hs(1) hs(3) [unfolded Q] *(3,4) by blast
  next
    assume ?R
    then obtain pre h post info res where hs: "hs = pre @ h # post"
      and pre: "\<forall>h' \<in> set pre. \<exists>i r. answered api h' i r \<and> agree i r"
      and h: "answered api h info res" "\<not> agree info res" "e = countMismatch info res"
      and post: "\<forall>h' \<in> set post. \<exists>i r. answered api h' i r" by blast
    have "\<forall>h' \<in> set pre. \<exists>x. ?Q x h' \<and> agree (fst x) (snd x)" unfolding Q using pre by fastforce
    from list_all2_choose [OF this] obtain irs1 where 1: "list_all2 ?Q irs1 pre" "\<forall>x \<in> set irs1. agree (fst x) (snd x)" by blast
    have "\<forall>h' \<in> set post. \<exists>x. ?Q x h' \<and> True" unfolding Q using post by fastforce
    from list_all2_choose [OF this] obtain irs2 where 2: "list_all2 ?Q irs2 post" by blast
    have "list_all2 ?Q (irs1 @ (info, res) # irs2) hs"
      unfolding hs using 1(1) 2 h(1) Q [of "(info, res)" h] by (intro list_all2_appendI) simp_all
    then show ?L unfolding L using 1(2) h(2,3) by fastforce
  qed
qed

lemma promiseThen_Inl:
  "Inl e \<in> set (promiseThen p f) \<longleftrightarrow> Inl e \<in> set p \<or> (\<exists>a. Inr a \<in> set p \<and> f a = Inl e)"
proof -
  have "Inl e \<in> set (promiseThen p f) \<longleftrightarrow> (\<exists>r \<in> set p. rbind r f = Inl e)"
    by (auto simp: promiseThen_def image_iff eq_commute [of "Inl e"])
  then show ?thesis by (auto simp: rbind_Inl_iff)
qed

lemma fetchBlocks_Inl:
  "Inl e \<in> set (fetchBlocks conn heights) \<longleftrightarrow>
     (\<exists>h \<in> set heights. \<exists>e'. e = handleError (json_parse (unsafeApi conn)) e' \<and>
        (Inl e' \<in> set (blockInfo (unsafeApi conn) h) \<or> Inl e' \<in> set (blockResults (unsafeApi conn) h))) \<or>
     (\<exists>pre h post info res. heights = pre @ h # post \<and>
        (\<forall>h' \<in> set pre. \<exists>i r. answered (unsafeApi conn) h' i r \<and> agree i r) \<and>
        answered (unsafeApi conn) h info res \<and> \<not> agree info res \<and> e = countMismatch info res \<and>
        (\<forall>h' \<in> set post. \<exists>i r. answered (unsafeApi conn) h' i r))"
proof -
  let ?api = "unsafeApi conn"
  have "Inl e \<in> set (fetchBlocks conn heights) \<longleftrightarrow>
      Inl e \<in> set (fetchCosmosBlocksArray ?api heights) \<or>
      (\<exists>irs. Inr irs \<in> set (fetchCosmosBlocksArray ?api heights) \<and> rmap prepareBlock irs = Inl e)"
    unfolding fetchBlocks_def fetchBlocksBatches_def promiseThen_Inl ..
  also have "Inl e \<in> set (fetchCosmosBlocksArray ?api heights) \<longleftrightarrow> (\<exists>h \<in> set heights. \<exists>e'.
      e = handleError (json_parse ?api) e' \<and> (Inl e' \<in> set (blockInfo ?api h) \<or> Inl e' \<in> set (blockResults ?api h)))"
    by (simp add: fetchCosmosBlocksArray_def promiseAll_Inl getBlockByHeight_Inl)
  finally show ?thesis unfolding fetched_mismatch .
qed

text \<open>
  C20: how a batch settles.  When every request for its heights settles, so does the batch; a batch that fulfils has one
  content per height; and an error is a possible rejection exactly if it is the rewritten error of a request for one of
  the heights, or the assertion error of the first height whose two responses disagree on the number of transactions,
  while all heights have answered.
\<close>

theorem batch_settles:
  assumes "\<And>h. h \<in> set heights \<Longrightarrow> blockInfo (unsafeApi conn) h \<noteq> [] \<and> blockResults (unsafeApi conn) h \<noteq> []"
  shows "fetchBlocks conn heights \<noteq> [] \<and>
    (\<forall>contents. Inr contents \<in> set (fetchBlocks conn heights) \<longrightarrow> length contents = length heights) \<and>
    (\<forall>e. Inl e \<in> set (fetchBlocks conn heights) \<longleftrightarrow>
      (\<exists>h \<in> set heights. \<exists>e'. e = handleError (json_parse (unsafeApi conn)) e' \<and>
        (Inl e' \<in> set (blockInfo (unsafeApi conn) h) \<or> Inl e' \<in> set (blockResults (unsafeApi conn) h))) \<or>
      (\<exists>pre h post info res. heights = pre @ h # post \<and>
        (\<forall>h' \<in> set pre. \<exists>i r. answered (unsafeApi conn) h' i r \<and> agree i r) \<and>
        answered (unsafeApi conn) h info res \<and> \<not> agree info res \<and> e = countMismatch info res \<and>
        (\<forall>h' \<in> set post. \<exists>i r. answered (unsafeApi conn) h' i r)))"
proof (intro conjI allI impI)
  have "getBlockByHeight (unsafeApi conn) h \<noteq> []" if "h \<in> set heights" for h
    unfolding getBlockByHeight_def using assms [OF that]
    by (intro promiseBoth_settles) (simp_all add: promiseCatch_def)
  then have "fetchCosmosBlocksArray (unsafeApi conn) heights \<noteq> []"
    unfolding fetchCosmosBlocksArray_def by (intro promiseAll_settles) auto
  then show "fetchBlocks conn heights \<noteq> []" by (simp add: fetchBlocks_def fetchBlocksBatches_def promiseThen_def)
  show "length contents = length heights" if "Inr contents \<in> set (fetchBlocks conn heights)" for contents
    using that unfolding fetchBlocks_def fetchBlocksBatches_contents by (rule list_all2_lengthD)
qed (rule fetchBlocks_Inl)

theorem batch_settles_witness:
  "Inl (handleError jsonParse (JsError ''Error'' tooManyRequests)) \<in> set (fetchBlocks sampleConnection [6, 7])"
proof -
  have "blockInfo (unsafeApi sampleConnection) h \<noteq> [] \<and> blockResults (unsafeApi sampleConnection) h \<noteq> []" for h
    by (simp add: sampleConnection_def fetchClient_def blockInfo_def blockResults_def)
  note b = batch_settles [of "[6, 7]" sampleConnection, OF this]
  have "Inl (JsError ''Error'' tooManyRequests) \<in> set (blockResults (unsafeApi sampleConnection) 7)"
    by (simp add: sampleConnection_def fetchClient_def blockResults_def)
  moreover have "json_parse (unsafeApi sampleConnection) = jsonParse"
    by (simp add: sampleConnection_def fetchClient_def sampleClient_def)
  moreover have "(7 :: int) \<in> set [6, 7]" by simp
  ultimately show ?thesis using conjunct2 [OF conjunct2 [OF b]] by metis
qed

text \<open>The raw transactions of a block can be hashed and decoded.\<close>

definition readableTxs :: "cosmjs_lib \<Rightarrow> BlockResponse \<Rightarrow> bool" where
  "readableTxs J info \<longleftrightarrow>
     (\<forall>raw \<in> set (block_txs (resp_block info)).
        (\<exists>d. sha256 J (Some raw) = Inr d) \<and> (\<exists>d. decodeTxRaw J (Some raw) = Inr d))"

lemma readable_wrapTx:
  assumes "readableTxs J info" and "length (results res) = length (block_txs (resp_block info))"
  shows "\<exists>txs. eagerTxs J info res = Inr txs \<and> (\<forall>t \<in> set txs. \<exists>d. peek (snd t) = Inr (Some d))"
proof -
  let ?b = "eagerBlock J info res"
  have raw: "block_txs (block ?b) = block_txs (resp_block info)" by (simp add: eagerBlock_def wrapBlock_def)
  have one: "\<exists>t. wrapOneTx J ?b itx = Inr t \<and> (\<exists>d. peek (snd t) = Inr (Some d))"
    if "itx \<in> set (List.enumerate 0 (results res))" for itx
  proof -
    have k: "fst itx < length (block_txs (resp_block info))" using that assms(2) by (auto simp: in_set_enumerate_eq)
    then have "block_txs (resp_block info) ! fst itx \<in> set (block_txs (resp_block info))" by simp
    with assms(1) obtain dg d where "sha256 J (Some (block_txs (resp_block info) ! fst itx)) = Inr dg"
        "decodeTxRaw J (Some (block_txs (resp_block info) ! fst itx)) = Inr d"
      unfolding readableTxs_def by blast
    then show ?thesis using k by (simp add: wrapOneTx_def Let_def raw)
  qed
  then obtain g where g: "\<And>itx. itx \<in> set (List.enumerate 0 (results res)) \<Longrightarrow>
      wrapOneTx J ?b itx = Inr (g itx) \<and> (\<exists>d. peek (snd (g itx)) = Inr (Some d))" by metis
  then have "eagerTxs J info res = Inr (map g (List.enumerate 0 (results res)))"
    unfolding eagerTxs_def wrapTx_def by (intro rmap_total) blast
  with g show ?thesis by auto
qed

lemma eagerMessages_total:
  assumes "eagerTxs J info res = Inr txs" and "\<forall>t \<in> set txs. \<exists>d. peek (snd t) = Inr (Some d)"
  shows "\<exists>ms. eagerMessages J api info res = Inr ms"
proof -
  from assms(2) have "\<exists>ds. list_all2 (\<lambda>t d. peek (snd t) = Inr (Some d)) txs ds"
  proof (induction txs)
    case (Cons t txs)
    obtain d where "peek (snd t) = Inr (Some d)" using Cons.prems by auto
    moreover obtain ds where "list_all2 (\<lambda>t d. peek (snd t) = Inr (Some d)) txs ds"
      using Cons.IH Cons.prems by (meson list.set_intros(2))
    ultimately show ?case by (intro exI [of _ "d # ds"]) simp
  qed (rule exI [of _ "[]"], simp)
  then obtain ds where "list_all2 (\<lambda>t d. peek (snd t) = Inr (Some d)) txs ds" ..
  from wrapMsg_decoded [OF this] show ?thesis using assms(1) by (simp add: eagerMessages_def)
qed

lemma rfold_total:
  "(\<And>x s. \<exists>s'. f x s = Inr s') \<Longrightarrow> \<exists>s'. rfold f xs s = Inr s'"
proof (induction xs arbitrary: s)
  case (Cons x xs)
  from Cons.prems obtain s1 where "f x s = Inr s1" by blast
  with Cons show ?case by simp
qed simp

text \<open>
  C19: indexing a block from a fetched batch terminates and raises no error of its own: when the raw transactions of that
  block can be hashed and decoded, and the handlers succeed, the run over the whole block returns.
\<close>

theorem fetched_block_indexes:
  assumes "Inr contents \<in> set (fetchBlocks conn heights)" and "c \<in> set contents"
    and readable: "readableTxs J (lbc_blockInfo c)"
    and handlers: "\<And>k i d w. \<exists>w'. indexData k i d w = Inr w'"
  shows "\<exists>c' w'. indexBlockData J (unsafeApi conn) indexData dataSources (c, w) = Inr (c', w')"
proof -
  obtain h info res where c: "c = newLazyBlockContent info res"
      and l: "length (results res) = length (block_txs (resp_block info))"
    using assms(1, 2) unfolding fetchBlocks_def fetchBlocksBatches_contents
    by (auto dest: list_all2_left_mem)
  then have "readableTxs J info" using readable by (simp add: newLazyBlockContent_def)
  from readable_wrapTx [OF this l] obtain txs where txs: "eagerTxs J info res = Inr txs"
    and decoded: "\<forall>t \<in> set txs. \<exists>d. peek (snd t) = Inr (Some d)" by blast
  obtain ms where ms: "eagerMessages J (unsafeApi conn) info res = Inr ms"
    using eagerMessages_total [OF txs decoded] by blast
  obtain evs where evs: "eagerEvents J (unsafeApi conn) info res (length (eagerBegin J info res 0)) = Inr evs"
    using txs by (simp add: eagerEvents_def)
  obtain off c' where run: "\<And>w. indexBlockData J (unsafeApi conn) indexData dataSources (newLazyBlockContent info res, w) =
      rbind (rfold (indexItem indexData dataSources) (schedule (eagerBlock J info res) (eagerBegin J info res 0)
        (map fst txs) ms evs (eagerEnd J info res off)) w) (\<lambda>w'. Inr (c', w'))"
    using indexBlockData_schedule [OF txs ms evs, of indexData dataSources] by blast
  have "\<exists>w'. indexItem indexData dataSources ki w = Inr w'" for ki w
    unfolding indexItem_def by (rule rfold_total) (rule handlers)
  from rfold_total [of "indexItem indexData dataSources", OF this] show ?thesis
    unfolding c run by (metis rbind.simps(2))
qed

theorem fetched_block_indexes_witness:
  "\<exists>c' n. indexBlockData sampleLib fetchClient countItems [()] (newLazyBlockContent sampleResponse sampleResults, 0) = Inr (c', n)"
proof -
  have "Inr [newLazyBlockContent sampleResponse sampleResults] \<in> set (fetchBlocks sampleConnection [6])"
    unfolding fetchBlocks_def fetchBlocksBatches_contents
    by (auto simp: sampleConnection_def fetchClient_def sampleClient_def blockInfo_def blockResults_def sampleResults_def
        sampleResponse_def sample_defs)
  moreover have "readableTxs sampleLib (lbc_blockInfo (newLazyBlockContent sampleResponse sampleResults))"
    by (simp add: readableTxs_def sampleLib_def newLazyBlockContent_def)
  ultimately show ?thesis
    using fetched_block_indexes [of _ sampleConnection "[6]" _ sampleLib countItems "[()]" 0]
    by (fastforce simp: countItems_def sampleConnection_def)
qed

section \<open>Bounds\<close>

text \<open>
  C28: in every reachable state of a content, the positions of the messages read are in bounds: the transaction index is
  below the number of results, and the message index below the number of messages of the transaction's body.
\<close>

theorem message_positions_bounded:
  assumes "reachable J api info res s" and "fst (getMessages J api s) = Inr ms" and "m \<in> set ms"
  shows "tx_idx (msg_tx m) < length (results res) \<and>
    (\<exists>txs t d. eagerTxs J info res = Inr txs \<and> t \<in> set txs \<and> fst t = msg_tx m \<and> peek (snd t) = Inr (Some d) \<and>
       0 \<le> msg_idx m \<and> msg_idx m < int (length (body_messages d)))"
proof -
  let ?blk = "eagerBlock J info res"
  have em: "eagerMessages J api info res = Inr ms"
    using getMessages_agree reachable_agree [OF assms(1)] assms(2) by blast
  then obtain txs mss where txs: "eagerTxs J info res = Inr txs" and r: "rmap (txMessages api ?blk) txs = Inr mss" "ms = concat mss"
    by (auto simp: eagerMessages_def wrapMsg_result rbind_Inr_iff)
  from r assms(3) obtain ms' where ms': "ms' \<in> set mss" "m \<in> set ms'" by auto
  from r(1) have "map (txMessages api ?blk) txs = map Inr mss" by (simp only: rmap_Inr_iff)
  with ms'(1) obtain t where t: "t \<in> set txs" "txMessages api ?blk t = Inr ms'"
    by (metis (no_types, lifting) imageE image_eqI list.set_map)
  then obtain d where d: "peek (snd t) = Inr (Some d)" "ms' = messagesOf api ?blk (fst t) d" by (auto simp: txMessages_Inr)
  then have m: "msg_tx m = fst t" "0 \<le> msg_idx m" "msg_idx m < int (length (body_messages d))"
    using ms'(2) by (auto simp: messagesOf_alt newMessage_def)
  obtain k where k: "k < length txs" "t = txs ! k" using t(1) by (metis in_set_conv_nth)
  have l: "length txs = length (results res)" using txs by (auto simp: eagerTxs_def wrapTx_def dest: rmap_length)
  then have "wrapOneTx J ?blk (k, results res ! k) = Inr t"
    using wrapTx_nth [of J ?blk "results res" txs k] txs k by (simp add: eagerTxs_def)
  then have "tx_idx (fst t) = k" by (auto simp: wrapOneTx_def Let_def rbind_Inr_iff)
  with k l m(1) have "tx_idx (msg_tx m) < length (results res)" by simp
  moreover have "fst t = msg_tx m" using m(1) by simp
  ultimately show ?thesis using m(2, 3) d(1) t(1) txs by blast
qed

theorem message_positions_bounded_witness:
  "\<exists>ms m. fst (getMessages sampleLib (sampleClient swapText) (sampleContent [])) = Inr ms \<and> m \<in> set ms \<and>
     tx_idx (msg_tx m) < length (results sampleResults)"
proof -
  obtain ms where ms: "fst (getMessages sampleLib (sampleClient swapText) (sampleContent [])) = Inr ms"
    using sampleContent_messages by blast
  then have "eagerMessages sampleLib (sampleClient swapText) sampleResponse sampleResults = Inr ms"
    using getMessages_agree reachable_agree [OF sampleContent_reachable] by blast
  then have "ms \<noteq> []"
    by (auto simp: eagerMessages_def eagerTxs_def wrapTx_def wrapOneTx_def sampleLib_def sampleResults_def
        sampleResponse_def eagerBlock_def wrapBlock_def wrapTxMsg_spec txMessages_def sample_defs messagesOf_def
        Let_def jsIndex_def)
  then obtain m where "m \<in> set ms" by (cases ms) auto
  from message_positions_bounded [OF sampleContent_reachable ms this] ms this show ?thesis by blast
qed

end
